(* ===== verification/Prelude.thy ===== *)
theory Prelude
  imports Main "HOL-Library.Word" "HOL-Library.Sublist"
begin

text \<open>
  Shared vocabulary of the development: the parts of Go's \<^verbatim>\<open>strings\<close>,
  \<^verbatim>\<open>strconv\<close> and \<^verbatim>\<open>time\<close> packages that the components call, and the
  generic lemmas on lists and association lists their proofs share.

  A Go string is a sequence of bytes and an Isabelle \<^typ>\<open>char\<close> is one byte, so a
  Go string is a \<^typ>\<open>string\<close> here.  Case folding and white space are those of
  ASCII: bytes from 128 up are left alone, which is what Go does to them as long as
  they are not part of a cased or blank Unicode letter.
\<close>

section \<open>Collections and type names\<close>

named_theorems go_string \<open>rewrite rules for the model of Go's strings package\<close>

text \<open>An instant, in nanoseconds since the epoch; a duration, in nanoseconds.\<close>

type_synonym instant = int
type_synonym duration = int

text \<open>A fallible call: \<^term>\<open>Inl e\<close> is the error, \<^term>\<open>Inr v\<close> the value.\<close>

type_synonym ('e, 'a) result = "'e + 'a"

abbreviation (input) Err :: "'e \<Rightarrow> ('e, 'a) result" where
  "Err \<equiv> Inl"

abbreviation (input) Ok :: "'a \<Rightarrow> ('e, 'a) result" where
  "Ok \<equiv> Inr"

definition is_ok :: "('e, 'a) result \<Rightarrow> bool" where
  "is_ok r = (case r of Inl _ \<Rightarrow> False | Inr _ \<Rightarrow> True)"

definition nanosecond :: duration where "nanosecond = 1"
definition second :: duration where "second = 1000000000"
definition minute :: duration where "minute = 60 * second"
definition hour :: duration where "hour = 60 * minute"

lemmas time_units = nanosecond_def second_def minute_def hour_def

section \<open>Go strings\<close>

abbreviation byte :: "char \<Rightarrow> nat" where
  "byte c \<equiv> of_char c"

definition CR :: char where "CR = char_of (13::nat)"
definition LF :: char where "LF = char_of (10::nat)"
definition NUL :: char where "NUL = char_of (0::nat)"

definition CRLF :: string where "CRLF = [CR, LF]"

definition is_space :: "char \<Rightarrow> bool" where
  "is_space c = (byte c = 32 \<or> (9 \<le> byte c \<and> byte c \<le> 13))"

definition is_digit :: "char \<Rightarrow> bool" where
  "is_digit c = (48 \<le> byte c \<and> byte c \<le> 57)"

definition is_upper :: "char \<Rightarrow> bool" where
  "is_upper c = (65 \<le> byte c \<and> byte c \<le> 90)"

definition to_lower_char :: "char \<Rightarrow> char" where
  "to_lower_char c = (if is_upper c then char_of (byte c + 32) else c)"

text \<open>\<^verbatim>\<open>strings.ToLower\<close>, \<^verbatim>\<open>strings.EqualFold\<close>, \<^verbatim>\<open>strings.TrimSpace\<close>,
  \<^verbatim>\<open>strings.Trim\<close>.\<close>

definition ToLower :: "string \<Rightarrow> string" where
  "ToLower s = map to_lower_char s"

definition EqualFold :: "string \<Rightarrow> string \<Rightarrow> bool" where
  "EqualFold a b = (ToLower a = ToLower b)"

definition trim_by :: "('a \<Rightarrow> bool) \<Rightarrow> 'a list \<Rightarrow> 'a list" where
  "trim_by P s = rev (dropWhile P (rev (dropWhile P s)))"

definition TrimSpace :: "string \<Rightarrow> string" where
  "TrimSpace s = trim_by is_space s"

definition Trim :: "string \<Rightarrow> string \<Rightarrow> string" where
  "Trim s cutset = trim_by (\<lambda>c. c \<in> set cutset) s"

text \<open>\<^verbatim>\<open>strings.HasPrefix\<close>, \<^verbatim>\<open>strings.CutPrefix\<close>, \<^verbatim>\<open>strings.HasSuffix\<close>.\<close>

definition HasPrefix :: "string \<Rightarrow> string \<Rightarrow> bool" where
  "HasPrefix s p = (take (length p) s = p)"

definition CutPrefix :: "string \<Rightarrow> string \<Rightarrow> string option" where
  "CutPrefix s p = (if HasPrefix s p then Some (drop (length p) s) else None)"

definition HasSuffix :: "string \<Rightarrow> string \<Rightarrow> bool" where
  "HasSuffix s p = (length p \<le> length s \<and> drop (length s - length p) s = p)"

text \<open>\<^verbatim>\<open>strings.IndexByte\<close> and \<^verbatim>\<open>strings.LastIndex\<close> for a one-byte needle; the
  Go value -1 is \<^const>\<open>None\<close>.\<close>

fun IndexByte :: "'a list \<Rightarrow> 'a \<Rightarrow> nat option" where
  "IndexByte [] c = None"
| "IndexByte (x # xs) c = (if x = c then Some 0 else map_option Suc (IndexByte xs c))"

fun LastIndexByte :: "'a list \<Rightarrow> 'a \<Rightarrow> nat option" where
  "LastIndexByte [] c = None"
| "LastIndexByte (x # xs) c =
    (case LastIndexByte xs c of
       Some i \<Rightarrow> Some (Suc i)
     | None \<Rightarrow> if x = c then Some 0 else None)"

text \<open>\<^verbatim>\<open>bytes.Index\<close>, \<^verbatim>\<open>strings.Contains\<close>, \<^verbatim>\<open>strings.ContainsAny\<close>.\<close>

fun Index :: "string \<Rightarrow> string \<Rightarrow> nat option" where
  "Index [] p = (if p = [] then Some 0 else None)"
| "Index (x # xs) p = (if HasPrefix (x # xs) p then Some 0 else map_option Suc (Index xs p))"

definition Contains :: "string \<Rightarrow> string \<Rightarrow> bool" where
  "Contains s p = (Index s p \<noteq> None)"

definition ContainsAny :: "string \<Rightarrow> string \<Rightarrow> bool" where
  "ContainsAny s chars = list_ex (\<lambda>c. c \<in> set chars) s"

text \<open>\<^verbatim>\<open>strings.Join\<close>.\<close>

fun Join :: "string list \<Rightarrow> string \<Rightarrow> string" where
  "Join [] sep = []"
| "Join [x] sep = x"
| "Join (x # y # ys) sep = x @ sep @ Join (y # ys) sep"

text \<open>\<^verbatim>\<open>strings.Split\<close> for a one-byte separator and \<^verbatim>\<open>strings.Cut\<close>.\<close>

fun SplitByte :: "string \<Rightarrow> char \<Rightarrow> string list" where
  "SplitByte [] c = [[]]"
| "SplitByte (x # xs) c =
    (if x = c then [] # SplitByte xs c
     else (case SplitByte xs c of
             [] \<Rightarrow> [[x]]
           | (w # ws) \<Rightarrow> (x # w) # ws))"

definition Cut :: "string \<Rightarrow> string \<Rightarrow> (string \<times> string) option" where
  "Cut s sep = map_option (\<lambda>i. (take i s, drop (i + length sep) s)) (Index s sep)"

text \<open>\<^verbatim>\<open>strconv.Itoa\<close> on non-negative numbers and \<^verbatim>\<open>strconv.Atoi\<close> on unsigned digit
  strings.  \<^verbatim>\<open>strconv.Atoi\<close> also takes a sign and fails outside 64 bits; the callers
  that need this add it.\<close>

definition digit_char :: "nat \<Rightarrow> char" where
  "digit_char d = char_of (48 + d)"

definition digit_val :: "char \<Rightarrow> nat" where
  "digit_val c = byte c - 48"

fun Itoa :: "nat \<Rightarrow> string" where
  "Itoa n = (if n < 10 then [digit_char n] else Itoa (n div 10) @ [digit_char (n mod 10)])"

declare Itoa.simps [simp del]

definition digits_val :: "string \<Rightarrow> int" where
  "digits_val s = foldl (\<lambda>acc c. acc * 10 + int (digit_val c)) 0 s"

definition ParseDigits :: "string \<Rightarrow> int option" where
  "ParseDigits s = (if s \<noteq> [] \<and> list_all is_digit s then Some (digits_val s) else None)"

definition int64_max :: int where "int64_max = 2 ^ 63 - 1"
definition int64_min :: int where "int64_min = - (2 ^ 63)"

definition Atoi :: "string \<Rightarrow> int option" where
  "Atoi s =
    (let neg = HasPrefix s ''-'';
         body = (if HasPrefix s ''-'' \<or> HasPrefix s ''+'' then drop 1 s else s)
     in case ParseDigits body of
          None \<Rightarrow> None
        | Some n \<Rightarrow>
            (let v = (if neg then - n else n)
             in if int64_min \<le> v \<and> v \<le> int64_max then Some v else None))"

text \<open>The \<^verbatim>\<open>%q\<close> verb and \<^verbatim>\<open>strconv.Quote\<close>: printable ASCII is kept, quotes and
  backslashes are escaped, every other byte is written as an escape.\<close>

definition hex_digit :: "nat \<Rightarrow> char" where
  "hex_digit d = (if d < 10 then char_of (48 + d) else char_of (87 + d))"

definition quote_char :: "char \<Rightarrow> string" where
  "quote_char c =
    (if c = CHR 0x22 \<or> c = CHR 0x5C then [CHR 0x5C, c]
     else if 32 \<le> byte c \<and> byte c \<le> 126 then [c]
     else if byte c = 7 then [CHR 0x5C, CHR ''a'']
     else if byte c = 8 then [CHR 0x5C, CHR ''b'']
     else if byte c = 12 then [CHR 0x5C, CHR ''f'']
     else if byte c = 10 then [CHR 0x5C, CHR ''n'']
     else if byte c = 13 then [CHR 0x5C, CHR ''r'']
     else if byte c = 9 then [CHR 0x5C, CHR ''t'']
     else if byte c = 11 then [CHR 0x5C, CHR ''v'']
     else [CHR 0x5C, CHR ''x'', hex_digit (byte c div 16), hex_digit (byte c mod 16)])"

definition Quote :: "string \<Rightarrow> string" where
  "Quote s = CHR 0x22 # concat (map quote_char s) @ [CHR 0x22]"

text \<open>Wrap-around of Go's \<^verbatim>\<open>int64\<close>.\<close>

definition wrap64 :: "int \<Rightarrow> int" where
  "wrap64 x = (x + 2 ^ 63) mod 2 ^ 64 - 2 ^ 63"

section \<open>Lemmas on Go strings\<close>

lemma to_lower_char_idem [simp, go_string]: "to_lower_char (to_lower_char c) = to_lower_char c"
  by (simp add: to_lower_char_def is_upper_def)

lemma ToLower_idem [simp, go_string]: "ToLower (ToLower s) = ToLower s"
  by (simp add: ToLower_def)

lemma length_ToLower [simp, go_string]: "length (ToLower s) = length s"
  by (simp add: ToLower_def)

lemma ToLower_Nil_iff [simp, go_string]: "ToLower s = [] \<longleftrightarrow> s = []"
  by (simp add: ToLower_def)

lemma ToLower_append [go_string]: "ToLower (a @ b) = ToLower a @ ToLower b"
  by (simp add: ToLower_def)

lemma EqualFold_refl [simp, go_string]: "EqualFold a a"
  by (simp add: EqualFold_def)

lemma EqualFold_sym: "EqualFold a b \<longleftrightarrow> EqualFold b a"
  by (auto simp: EqualFold_def)

lemma EqualFold_ToLower [simp, go_string]: "EqualFold (ToLower a) b \<longleftrightarrow> EqualFold a b"
  by (simp add: EqualFold_def)

lemma to_lower_char_eq_iff:
  assumes "\<not> is_upper d" "\<not> (97 \<le> byte d \<and> byte d \<le> 122)"
  shows "to_lower_char c = d \<longleftrightarrow> c = d"
proof (cases "is_upper c")
  case True
  then have "97 \<le> byte (to_lower_char c) \<and> byte (to_lower_char c) \<le> 122"
    by (simp add: to_lower_char_def is_upper_def)
  with True assms show ?thesis by auto
next
  case False
  then show ?thesis by (simp add: to_lower_char_def)
qed

lemma trim_by_idem [simp]: "trim_by P (trim_by P s) = trim_by P s"
proof -
  have keep: "dropWhile P (rev (dropWhile P (rev (dropWhile P s))))
      = rev (dropWhile P (rev (dropWhile P s)))" (is "dropWhile P ?t = ?t")
  proof (cases "dropWhile P s")
    case Nil
    show ?thesis by (simp only: Nil rev.simps dropWhile.simps)
  next
    case (Cons a as)
    then have na: "\<not> P a" by (metis dropWhile_eq_Cons_conv)
    have "rev (dropWhile P (rev as @ [a])) \<noteq> [] \<and> hd (rev (dropWhile P (rev as @ [a]))) = a"
      using na by (simp add: dropWhile_append)
    then show ?thesis using na Cons by (cases ?t) auto
  qed
  show ?thesis
    by (simp add: trim_by_def keep)
qed

lemma TrimSpace_idem [simp, go_string]: "TrimSpace (TrimSpace s) = TrimSpace s"
  by (simp add: TrimSpace_def)

lemma set_trim_by: "set (trim_by P s) \<subseteq> set s"
  by (auto simp: trim_by_def dest!: set_dropWhileD)

lemma length_trim_by: "length (trim_by P s) \<le> length s"
  by (metis length_dropWhile_le length_rev order_trans trim_by_def)

lemma HasPrefix_iff_prefix [go_string]: "HasPrefix s p \<longleftrightarrow> prefix p s"
  by (auto simp: HasPrefix_def prefix_def) (metis append_take_drop_id)

lemma HasPrefix_append [simp, go_string]: "HasPrefix (p @ s) p"
  by (simp add: HasPrefix_def)

lemma CutPrefix_Some_iff [go_string]: "CutPrefix s p = Some r \<longleftrightarrow> s = p @ r"
  by (auto simp: CutPrefix_def HasPrefix_iff_prefix prefix_def)

lemma CutPrefix_None_iff: "CutPrefix s p = None \<longleftrightarrow> \<not> HasPrefix s p"
  by (simp add: CutPrefix_def)

lemma LastIndexByte_None_iff: "LastIndexByte s c = None \<longleftrightarrow> c \<notin> set s"
  by (induction s) (auto split: option.splits)

lemma LastIndexByte_Some_iff:
  "LastIndexByte s c = Some i \<longleftrightarrow>
     i < length s \<and> s ! i = c \<and> c \<notin> set (drop (Suc i) s)"
proof (induction s arbitrary: i)
  case Nil
  then show ?case by simp
next
  case (Cons x xs)
  show ?case
  proof (cases i)
    case 0
    have "LastIndexByte xs c = Some k \<Longrightarrow> c \<in> set xs" for k
      using LastIndexByte_None_iff[of xs c] by auto
    with 0 show ?thesis by (auto simp: LastIndexByte_None_iff split: option.splits)
  next
    case (Suc j)
    then show ?thesis using Cons[of j]
      by (auto simp: LastIndexByte_None_iff split: option.splits dest: in_set_dropD)
  qed
qed

lemma LastIndexByte_split:
  assumes "LastIndexByte s c = Some i"
  shows "s = take i s @ c # drop (Suc i) s"
  using assms by (metis LastIndexByte_Some_iff id_take_nth_drop)

lemma IndexByte_None_iff: "IndexByte s c = None \<longleftrightarrow> c \<notin> set s"
  by (induction s) auto

lemma IndexByte_Some_D:
  "IndexByte s c = Some i \<Longrightarrow> i < length s \<and> s ! i = c \<and> c \<notin> set (take i s)"
  by (induction s arbitrary: i) (auto split: if_splits)

lemma Index_Some_D:
  "Index s p = Some i \<Longrightarrow> i + length p \<le> length s \<and> take (length p) (drop i s) = p"
proof (induction s arbitrary: i)
  case Nil
  then show ?case by (auto split: if_splits)
next
  case (Cons x xs)
  then show ?case
    by (auto simp: HasPrefix_def split: if_splits)
      (metis length_Cons length_take min.absorb_iff2 nat_le_linear take_all_iff)
qed

lemma Index_None_D:
  "Index s p = None \<Longrightarrow> take (length p) (drop i s) = p \<Longrightarrow> False"
proof (induction s arbitrary: i)
  case Nil
  then show ?case by (auto split: if_splits)
next
  case (Cons x xs)
  then show ?case by (cases i) (auto simp: HasPrefix_def split: if_splits)
qed

lemma Index_Some_split:
  assumes "Index s p = Some i"
  shows "s = take i s @ p @ drop (i + length p) s"
proof -
  have "take (length p) (drop i s) = p" using Index_Some_D[OF assms] by simp
  then show ?thesis
    by (metis add.commute append_take_drop_id drop_drop)
qed

lemma Cut_Some_D: "Cut s sep = Some (a, b) \<Longrightarrow> s = a @ sep @ b"
  using Index_Some_split by (auto simp: Cut_def)

lemma SplitByte_not_Nil [simp]: "SplitByte s c \<noteq> []"
  by (cases s) (auto split: list.splits)

lemma SplitByte_free: "w \<in> set (SplitByte s c) \<Longrightarrow> c \<notin> set w"
  by (induction s arbitrary: w) (auto split: list.splits if_splits)

lemma Join_Cons_not_Nil: "ws \<noteq> [] \<Longrightarrow> Join (w # ws) sep = w @ sep @ Join ws sep"
  by (cases ws) auto

lemma Join_SplitByte: "Join (SplitByte s c) [c] = s"
proof (induction s)
  case Nil
  then show ?case by simp
next
  case (Cons x xs)
  obtain w ws where sp: "SplitByte xs c = w # ws"
    by (meson SplitByte_not_Nil neq_Nil_conv)
  with Cons show ?case
    by (cases ws) (auto simp: Join_Cons_not_Nil)
qed

section \<open>Decimal numbers\<close>

lemma digit_char_digit [simp]: "d < 10 \<Longrightarrow> is_digit (digit_char d)"
  by (simp add: is_digit_def digit_char_def)

lemma digit_val_digit_char [simp]: "d < 10 \<Longrightarrow> digit_val (digit_char d) = d"
  by (simp add: digit_val_def digit_char_def)

lemma Itoa_not_Nil [simp]: "Itoa n \<noteq> []"
  by (subst Itoa.simps) simp

lemma Itoa_digits [simp]: "list_all is_digit (Itoa n)"
proof (induction n rule: Itoa.induct)
  case (1 n)
  then show ?case by (subst Itoa.simps) simp
qed

lemma digits_val_snoc: "digits_val (s @ [c]) = digits_val s * 10 + int (digit_val c)"
  by (simp add: digits_val_def)

lemma digits_val_Itoa [simp]: "digits_val (Itoa n) = int n"
proof (induction n rule: Itoa.induct)
  case (1 n)
  show ?case
  proof (cases "n < 10")
    case True
    then show ?thesis by (subst Itoa.simps) (simp add: digits_val_def)
  next
    case False
    have "digits_val (Itoa (n div 10)) = int (n div 10)"
      using 1 False by blast
    moreover have "int (n div 10) * 10 + int (n mod 10) = int n"
      by (metis div_mult_mod_eq of_nat_add of_nat_mult of_nat_numeral)
    ultimately show ?thesis using False by (subst Itoa.simps) (simp add: digits_val_snoc)
  qed
qed

lemma ParseDigits_Itoa [simp]: "ParseDigits (Itoa n) = Some (int n)"
  by (simp add: ParseDigits_def)

lemma wrap64_id: "int64_min \<le> x \<Longrightarrow> x \<le> int64_max \<Longrightarrow> wrap64 x = x"
  by (simp add: wrap64_def int64_min_def int64_max_def)

lemma wrap64_range: "int64_min \<le> wrap64 x \<and> wrap64 x \<le> int64_max"
  using pos_mod_bound[of "2 ^ 64" "x + 2 ^ 63"]
  by (simp add: wrap64_def int64_min_def int64_max_def)

end
