(* ===== verification/Models.thy ===== *)
theory Models
  imports Prelude
begin

text \<open>
  The stored data of \<^verbatim>\<open>src/internal/store\<close>: the enumerations and row types of
  \<^verbatim>\<open>models.go\<close>, \<^verbatim>\<open>users.go\<close>, \<^verbatim>\<open>sessions.go\<close> and \<^verbatim>\<open>audit.go\<close>, the
  sentinel errors, and the database as a record of tables.

  A Go enumeration is a named string type, so it can hold a value that no constant
  names.  Where the code looks at such values the datatype keeps them in a last
  constructor (\<open>FromPolicyUnknown\<close>, \<open>TransportUnknown\<close>, \<open>RoleUnknown\<close>);
  the conversion functions (\<open>FromPolicy_of\<close> and so on) are Go's conversions from
  \<^verbatim>\<open>string\<close>.  A nullable column is an \<^typ>\<open>'a option\<close>.  A table is the list of
  its rows in insertion order.  All instants are UTC.
\<close>

section \<open>Errors\<close>

text \<open>The sentinels of \<^verbatim>\<open>models.go\<close> and \<^verbatim>\<open>messages.go\<close>.  The text that
  \<^verbatim>\<open>translateError\<close> wraps around a sentinel is dropped: callers only test the
  sentinel with \<^verbatim>\<open>errors.Is\<close>.\<close>

datatype store_error =
    ErrNotFound
  | ErrConflict
  | ErrReferenced
  | ErrImmutable
  | ErrStateConflict
  | ErrNoWorkerIdentity
  | ErrDriver

type_synonym 'a store_result = "(store_error, 'a) result"

text \<open>What a driver reports for a statement, as the \<^verbatim>\<open>Dialect\<close> predicates classify it.\<close>

datatype driver_error = NoRows | UniqueViolation | ForeignKeyViolation

definition translateError :: "driver_error \<Rightarrow> store_error" where
  "translateError e = (case e of
      NoRows \<Rightarrow> ErrNotFound
    | UniqueViolation \<Rightarrow> ErrConflict
    | ForeignKeyViolation \<Rightarrow> ErrReferenced)"

section \<open>Enumerations\<close>

datatype ManagedBy = ManagedByUnset | ManagedByUI | ManagedByBootstrap

datatype AuthType = AuthTypeSecret | AuthTypeCertificate | AuthTypeUnknown string

definition AuthType_of :: "string \<Rightarrow> AuthType" where
  "AuthType_of s = (if s = ''secret'' then AuthTypeSecret
    else if s = ''certificate'' then AuthTypeCertificate else AuthTypeUnknown s)"

datatype Transport = TransportSMTP | TransportGraph | TransportUnknown string

definition Transport_of :: "string \<Rightarrow> Transport" where
  "Transport_of s = (if s = ''smtp'' then TransportSMTP
    else if s = ''graph'' then TransportGraph else TransportUnknown s)"

datatype FromPolicy =
    FromPolicyReject | FromPolicyRewrite | FromPolicyPassthrough | FromPolicyUnknown string

definition FromPolicy_of :: "string \<Rightarrow> FromPolicy" where
  "FromPolicy_of s = (if s = ''reject'' then FromPolicyReject
    else if s = ''rewrite'' then FromPolicyRewrite
    else if s = ''passthrough'' then FromPolicyPassthrough else FromPolicyUnknown s)"

text \<open>\<open>StatusUnset\<close> is the empty string, the zero value a caller of \<^verbatim>\<open>Enqueue\<close> leaves.\<close>

datatype MessageStatus =
    StatusUnset
  | StatusQueued
  | StatusSending
  | StatusSent
  | StatusDeferred
  | StatusFailed
  | StatusHeld

datatype Role = RoleAdmin | RoleOperator | RoleViewer | RoleUnknown string

definition Role_of :: "string \<Rightarrow> Role" where
  "Role_of s = (if s = ''admin'' then RoleAdmin
    else if s = ''operator'' then RoleOperator
    else if s = ''viewer'' then RoleViewer else RoleUnknown s)"

section \<open>Nullable values\<close>

text \<open>The zero \<^verbatim>\<open>time.Time\<close>: 1 January of year 1.\<close>

definition zero_time :: instant where
  "zero_time = - 62135596800 * second"

definition NullString :: "string \<Rightarrow> string option" where
  "NullString s = (if s = '''' then None else Some s)"

definition NullTime :: "instant \<Rightarrow> instant option" where
  "NullTime t = (if t = zero_time then None else Some t)"

definition NullInt :: "int \<Rightarrow> int option" where
  "NullInt n = (if n > 0 then Some n else None)"

text \<open>The \<^verbatim>\<open>.String\<close> field of a \<^verbatim>\<open>sql.NullString\<close> that is NULL is empty.\<close>

definition null_string :: "string option \<Rightarrow> string" where
  "null_string s = (case s of None \<Rightarrow> '''' | Some v \<Rightarrow> v)"

lemma null_string_NullString [simp]: "null_string (NullString s) = s"
  by (simp add: null_string_def NullString_def)

section \<open>Rows\<close>

record OAuthCredential =
  cred_ID :: string
  cred_Name :: string
  cred_TenantID :: string
  cred_ClientID :: string
  cred_AuthType :: AuthType
  cred_ClientSecretEnc :: string
  cred_CertificatePEM :: string
  cred_CertificateKeyEnc :: string
  cred_CertificateThumbprint :: string
  cred_AuthorityHost :: string
  cred_ExpiresAt :: "instant option"
  cred_ManagedBy :: ManagedBy
  cred_CreatedAt :: instant
  cred_UpdatedAt :: instant

definition SecretContext :: "OAuthCredential \<Rightarrow> string" where
  "SecretContext c = ''oauth_credentials/client_secret/'' @ cred_ID c"

definition CertificateKeyContext :: "OAuthCredential \<Rightarrow> string" where
  "CertificateKeyContext c = ''oauth_credentials/certificate_key/'' @ cred_ID c"

record Mailbox =
  mb_ID :: string
  mb_Address :: string
  mb_DisplayName :: string
  mb_OAuthCredentialID :: string
  mb_Transport :: Transport
  mb_RateLimitPerMin :: "int option"
  mb_MaxConcurrent :: "int option"
  mb_Enabled :: bool
  mb_ManagedBy :: ManagedBy
  mb_CreatedAt :: instant
  mb_UpdatedAt :: instant

record SMTPAccount =
  acc_ID :: string
  acc_Username :: string
  acc_PasswordHash :: string
  acc_Description :: string
  acc_DefaultMailboxID :: "string option"
  acc_FromPolicy :: FromPolicy
  acc_AllowCIDRs :: "string list"
  acc_RateLimitPerMin :: "int option"
  acc_Enabled :: bool
  acc_LastUsedAt :: "instant option"
  acc_ManagedBy :: ManagedBy
  acc_CreatedAt :: instant
  acc_UpdatedAt :: instant

record AllowedSender =
  as_ID :: string
  as_SMTPAccountID :: string
  as_Pattern :: string
  as_CreatedAt :: instant

record Message =
  msg_Origin :: string
  msg_ID :: string
  msg_SMTPAccountID :: "string option"
  msg_MailboxID :: "string option"
  msg_AccountUsername :: string
  msg_MailboxAddress :: string
  msg_EnvelopeFrom :: string
  msg_HeaderFrom :: string
  msg_Recipients :: "string list"
  msg_RecipientCount :: int
  msg_SizeBytes :: int
  msg_Subject :: string
  msg_MessageID :: string
  msg_Status :: MessageStatus
  msg_Attempts :: int
  msg_NextAttemptAt :: instant
  msg_LeaseOwner :: "string option"
  msg_LeaseExpiresAt :: "instant option"
  msg_LastError :: string
  msg_LastErrorCode :: string
  msg_LastErrorPermanent :: bool
  msg_ClientIP :: string
  msg_BlobRef :: string
  msg_ReceivedAt :: instant
  msg_SentAt :: "instant option"
  msg_UpdatedAt :: instant

record AdminUser =
  usr_ID :: string
  usr_Username :: string
  usr_Email :: string
  usr_DisplayName :: string
  usr_PasswordHash :: "string option"
  usr_Role :: Role
  usr_Source :: string
  usr_Subject :: "string option"
  usr_TOTPSecretEnc :: string
  usr_TOTPEnrolledAt :: "instant option"
  usr_Disabled :: bool
  usr_FailedLogins :: int
  usr_LockedUntil :: "instant option"
  usr_LastLoginAt :: "instant option"
  usr_CreatedAt :: instant
  usr_UpdatedAt :: instant

definition SourceLocal :: string where "SourceLocal = ''local''"
definition SourceOIDC :: string where "SourceOIDC = ''oidc''"

record Session =
  ses_ID :: string
  ses_UserID :: string
  ses_TokenHash :: string
  ses_CSRFToken :: string
  ses_IP :: string
  ses_UserAgent :: string
  ses_CreatedAt :: instant
  ses_LastSeenAt :: instant
  ses_ExpiresAt :: instant

record AuditEntry =
  aud_ID :: string
  aud_At :: instant
  aud_ActorType :: string
  aud_ActorID :: string
  aud_ActorName :: string
  aud_Action :: string
  aud_TargetType :: string
  aud_TargetID :: string
  aud_TargetName :: string
  aud_Details :: string
  aud_Result :: string
  aud_IP :: string
  aud_UserAgent :: string

record DiagnosticRequest =
  dr_ActorID :: string
  dr_RequestID :: string
  dr_MailboxID :: string
  dr_Recipient :: string
  dr_MessageID :: "string option"
  dr_CreatedAt :: instant

section \<open>The database\<close>

record DB =
  t_credentials :: "OAuthCredential list"
  t_mailboxes :: "Mailbox list"
  t_accounts :: "SMTPAccount list"
  t_account_mailboxes :: "(string \<times> string) list"
  t_allowed_senders :: "AllowedSender list"
  t_messages :: "Message list"
  t_blobs :: "(string \<times> string) list"
  t_users :: "AdminUser list"
  t_sessions :: "Session list"
  t_audit :: "AuditEntry list"
  t_diagnostics :: "DiagnosticRequest list"

definition empty_db :: DB where
  "empty_db = \<lparr> t_credentials = [], t_mailboxes = [], t_accounts = [],
     t_account_mailboxes = [], t_allowed_senders = [], t_messages = [], t_blobs = [],
     t_users = [], t_sessions = [], t_audit = [], t_diagnostics = [] \<rparr>"

section \<open>Tables\<close>

text \<open>The three statement shapes the repositories use on a table keyed by \<open>key\<close>:
  \<^verbatim>\<open>SELECT ... WHERE key = ?\<close>, \<^verbatim>\<open>UPDATE ... WHERE p\<close> and \<^verbatim>\<open>DELETE ... WHERE p\<close>.\<close>

definition select_one :: "('r \<Rightarrow> bool) \<Rightarrow> 'r list \<Rightarrow> 'r option" where
  "select_one p rows = find p rows"

definition update_where :: "('r \<Rightarrow> bool) \<Rightarrow> ('r \<Rightarrow> 'r) \<Rightarrow> 'r list \<Rightarrow> 'r list" where
  "update_where p f rows = map (\<lambda>r. if p r then f r else r) rows"

definition delete_where :: "('r \<Rightarrow> bool) \<Rightarrow> 'r list \<Rightarrow> 'r list" where
  "delete_where p rows = filter (\<lambda>r. \<not> p r) rows"

definition rows_affected :: "('r \<Rightarrow> bool) \<Rightarrow> 'r list \<Rightarrow> nat" where
  "rows_affected p rows = length (filter p rows)"

definition unique_key :: "('r \<Rightarrow> 'k) \<Rightarrow> 'r list \<Rightarrow> bool" where
  "unique_key key rows = distinct (map key rows)"

named_theorems table \<open>lookup and update laws of the keyed tables\<close>

lemma select_one_Some_D [table]: "select_one p rows = Some r \<Longrightarrow> r \<in> set rows \<and> p r"
  unfolding select_one_def by (metis find_Some_iff nth_mem)

lemma select_one_None_iff [table]: "select_one p rows = None \<longleftrightarrow> (\<forall>r\<in>set rows. \<not> p r)"
  unfolding select_one_def by (auto simp: find_None_iff)

lemma select_one_unique:
  assumes "unique_key key rows" "r \<in> set rows"
  shows "select_one (\<lambda>x. key x = key r) rows = Some r"
proof (cases "select_one (\<lambda>x. key x = key r) rows")
  case None
  with assms(2) show ?thesis by (auto simp: select_one_None_iff)
next
  case (Some x)
  then have "x \<in> set rows" "key x = key r" by (auto dest: select_one_Some_D)
  with assms have "x = r" by (auto simp: unique_key_def distinct_map dest: inj_onD)
  with Some show ?thesis by simp
qed

lemma unique_keyD:
  "unique_key key rows \<Longrightarrow> a \<in> set rows \<Longrightarrow> b \<in> set rows \<Longrightarrow> key a = key b \<Longrightarrow> a = b"
  by (auto simp: unique_key_def distinct_map dest: inj_onD)

lemma unique_key_update [table]:
  assumes "\<And>r. p r \<Longrightarrow> key (f r) = key r"
  shows "unique_key key (update_where p f rows) = unique_key key rows"
proof -
  have "map key (update_where p f rows) = map key rows"
    using assms by (auto simp: update_where_def)
  then show ?thesis by (simp add: unique_key_def)
qed

lemma unique_key_delete [table]: "unique_key key rows \<Longrightarrow> unique_key key (delete_where p rows)"
  by (auto simp: unique_key_def delete_where_def distinct_map intro: inj_on_subset)

lemma unique_key_snoc [table]:
  "unique_key key (rows @ [r]) \<longleftrightarrow> unique_key key rows \<and> key r \<notin> key ` set rows"
  by (auto simp: unique_key_def)

lemma set_update_where [table]:
  "set (update_where p f rows) = {f r |r. r \<in> set rows \<and> p r} \<union> {r \<in> set rows. \<not> p r}"
  by (auto simp: update_where_def)

lemma set_delete_where [table]: "set (delete_where p rows) = {r \<in> set rows. \<not> p r}"
  by (auto simp: delete_where_def)

lemma rows_affected_0_iff [table]: "rows_affected p rows = 0 \<longleftrightarrow> (\<forall>r\<in>set rows. \<not> p r)"
  by (auto simp: rows_affected_def filter_empty_conv)

lemma update_where_none [table]:
  "\<forall>r\<in>set rows. \<not> p r \<Longrightarrow> update_where p f rows = rows"
  by (auto simp: update_where_def intro: map_idI)

lemma delete_where_none [table]:
  "\<forall>r\<in>set rows. \<not> p r \<Longrightarrow> delete_where p rows = rows"
  by (auto simp: delete_where_def)

lemma unique_key_replace [table]:
  assumes "unique_key idk rows" "unique_key key rows" "\<And>r. key (f r) = k"
    and "\<And>r. r \<in> set rows \<Longrightarrow> idk r \<noteq> i \<Longrightarrow> key r \<noteq> k"
  shows "unique_key key (update_where (\<lambda>r. idk r = i) f rows)"
  using assms
proof (induction rows)
  case Nil
  then show ?case by (simp add: unique_key_def update_where_def)
next
  case (Cons x xs)
  have IH: "unique_key key (update_where (\<lambda>r. idk r = i) f xs)"
    using Cons by (simp add: unique_key_def)
  show ?case
  proof (cases "idk x = i")
    case True
    have "idk x \<notin> idk ` set xs" using Cons.prems(1) by (simp add: unique_key_def)
    with True have "\<forall>r\<in>set xs. idk r \<noteq> i" by (metis image_eqI)
    then have "update_where (\<lambda>r. idk r = i) f xs = xs" by (rule update_where_none)
    with True Cons.prems show ?thesis
      by (auto simp: unique_key_def update_where_def image_iff) (metis list.set_intros(2))
  next
    case False
    then show ?thesis using IH Cons.prems
      by (auto simp: unique_key_def update_where_def image_iff)
  qed
qed

lemma unique_key_ex_snoc [table]:
  "\<not> list_ex (\<lambda>x. key x = key r) rows \<Longrightarrow> unique_key key rows \<Longrightarrow> unique_key key (rows @ [r])"
  by (auto simp: unique_key_def list_ex_iff)

lemma select_one_snoc [table]:
  "select_one q (rows @ [r]) =
    (case select_one q rows of Some x \<Rightarrow> Some x | None \<Rightarrow> if q r then Some r else None)"
  by (induction rows) (auto simp: select_one_def)

lemma select_one_delete [table]:
  "(\<And>r. q r \<Longrightarrow> \<not> p r) \<Longrightarrow> select_one q (delete_where p rows) = select_one q rows"
  by (induction rows) (auto simp: select_one_def delete_where_def)

lemma select_one_update [table]:
  assumes "\<And>r. p r \<Longrightarrow> key (f r) = key r"
  shows "select_one (\<lambda>r. key r = k) (update_where p f rows) =
    map_option (\<lambda>r. if p r then f r else r) (select_one (\<lambda>r. key r = k) rows)"
  using assms
  by (induction rows) (auto simp: select_one_def update_where_def)

end
