(* ===== verification/Policy.thy ===== *)
theory Policy
  imports Models
begin

text \<open>
  \<^verbatim>\<open>src/internal/policy\<close>: parsing and matching of sender addresses
  (\<^verbatim>\<open>address.go\<close>) and the decision whether a submission may be sent, and as which
  mailbox (\<^verbatim>\<open>resolve.go\<close>).

  The address parsers of \<^verbatim>\<open>net/mail\<close> and the CIDR parser of \<^verbatim>\<open>net\<close> are
  arguments of the definitions that call them (\<open>mail_parse\<close>, \<open>mail_parse_list\<close>,
  \<open>parse_cidr\<close>), so every theorem holds for every parser.
\<close>

section \<open>Addresses\<close>

datatype policy_error =
    ErrNoAddress
  | ErrMalformedAddress
  | PatternEmpty
  | PatternCatchAll
  | PatternBadDomain
  | PatternUnsupported
  | PatternBadAddress
  | SourceUnknown
  | SourceBadNetwork string
  | SourceDenied

text \<open>A parsed mailbox as \<^verbatim>\<open>net/mail\<close> returns it: the display name and the address.\<close>

type_synonym mail_address = "string \<times> string"

definition maxAddressLen :: nat where "maxAddressLen = 320"

record Address =
  ad_Display :: string
  ad_Original :: string
  ad_Normalized :: string
  ad_Domain :: string

definition empty_address :: Address where
  "empty_address = \<lparr> ad_Display = '''', ad_Original = '''', ad_Normalized = '''', ad_Domain = '''' \<rparr>"

definition ParseAddress ::
  "(string \<Rightarrow> mail_address option) \<Rightarrow> string \<Rightarrow> (policy_error, Address) result" where
  "ParseAddress mail_parse raw =
    (let trimmed = TrimSpace raw in
     if trimmed = '''' \<or> trimmed = ''<>'' then Inr empty_address
     else if length trimmed > maxAddressLen then Inl ErrMalformedAddress
     else
       (case (case mail_parse trimmed of
                Some a \<Rightarrow> Some a
              | None \<Rightarrow> mail_parse (Trim trimmed ''<>'')) of
          None \<Rightarrow> Inl ErrMalformedAddress
        | Some (name, addr) \<Rightarrow>
            (case LastIndexByte addr (CHR ''@'') of
               None \<Rightarrow> Inl ErrMalformedAddress
             | Some at \<Rightarrow>
                 if at = 0 \<or> at = length addr - 1 then Inl ErrMalformedAddress
                 else Inr \<lparr> ad_Display = name, ad_Original = addr,
                            ad_Normalized = ToLower addr,
                            ad_Domain = ToLower (drop (at + 1) addr) \<rparr>)))"

text \<open>The panic of \<^verbatim>\<open>MustParseAddress\<close> is \<^const>\<open>None\<close>.\<close>

definition MustParseAddress :: "(string \<Rightarrow> mail_address option) \<Rightarrow> string \<Rightarrow> Address option" where
  "MustParseAddress mail_parse raw =
    (case ParseAddress mail_parse raw of Inl _ \<Rightarrow> None | Inr a \<Rightarrow> Some a)"

definition IsEmpty :: "Address \<Rightarrow> bool" where
  "IsEmpty a = (ad_Normalized a = '''')"

text \<open>\<open>mail_string\<close> stands for \<^verbatim>\<open>(*mail.Address).String\<close>.\<close>

definition Address_String :: "(mail_address \<Rightarrow> string) \<Rightarrow> Address \<Rightarrow> string" where
  "Address_String mail_string a =
    (if IsEmpty a then ''''
     else if ad_Display a = '''' then ad_Original a
     else mail_string (ad_Display a, ad_Original a))"

definition ParseHeaderFrom ::
  "(string \<Rightarrow> mail_address option) \<Rightarrow> (string \<Rightarrow> mail_address list option) \<Rightarrow> string
    \<Rightarrow> (policy_error, Address) result" where
  "ParseHeaderFrom mail_parse mail_parse_list header =
    (let trimmed = TrimSpace header in
     if trimmed = '''' then Inl ErrNoAddress
     else (case mail_parse_list trimmed of
             None \<Rightarrow> ParseAddress mail_parse trimmed
           | Some [] \<Rightarrow> Inl ErrNoAddress
           | Some [(name, addr)] \<Rightarrow>
               (case ParseAddress mail_parse addr of
                  Inl e \<Rightarrow> Inl e
                | Inr a \<Rightarrow> Inr (a\<lparr> ad_Display := name \<rparr>))
           | Some _ \<Rightarrow> Inl ErrMalformedAddress))"

section \<open>Allow-list patterns\<close>

definition MatchesPattern :: "string \<Rightarrow> string \<Rightarrow> bool" where
  "MatchesPattern normalized pattern0 =
    (let pattern = ToLower (TrimSpace pattern0) in
     if pattern = '''' \<or> normalized = '''' then False
     else (case CutPrefix pattern ''*@'' of
             Some domain \<Rightarrow>
               if domain = '''' then False
               else (case LastIndexByte normalized (CHR ''@'') of
                       None \<Rightarrow> False
                     | Some at \<Rightarrow> drop (at + 1) normalized = domain)
           | None \<Rightarrow> normalized = pattern))"

text \<open>The result is \<open>None\<close> when the pattern is accepted (Go's \<^verbatim>\<open>nil\<close> error).\<close>

definition ValidatePattern ::
  "(string \<Rightarrow> mail_address option) \<Rightarrow> string \<Rightarrow> policy_error option" where
  "ValidatePattern mail_parse pattern =
    (let trimmed = TrimSpace pattern in
     if trimmed = '''' then Some PatternEmpty
     else if trimmed = ''*'' \<or> trimmed = ''*@*'' then Some PatternCatchAll
     else (case CutPrefix trimmed ''*@'' of
             Some domain \<Rightarrow>
               if domain = '''' \<or> ContainsAny domain ''*@ '' then Some PatternBadDomain else None
           | None \<Rightarrow>
               if Contains trimmed ''*'' then Some PatternUnsupported
               else (case ParseAddress mail_parse trimmed of
                       Inl _ \<Rightarrow> Some PatternBadAddress
                     | Inr _ \<Rightarrow> None)))"

section \<open>Resolving a submission\<close>

datatype Action = ActionAccept | ActionRewrite | ActionReject

record Decision =
  dec_Action :: Action
  dec_Mailbox :: "Mailbox option"
  dec_RewriteFrom :: string
  dec_OriginalFrom :: Address
  dec_Code :: int
  dec_Enhanced :: string
  dec_Reason :: string

definition Rejected :: "Decision \<Rightarrow> bool" where
  "Rejected d = (dec_Action d = ActionReject)"

record Account =
  pa_ID :: string
  pa_Username :: string
  pa_Enabled :: bool
  pa_Policy :: FromPolicy
  pa_DefaultMailboxID :: string
  pa_AllowedSenders :: "string list"
  pa_AllowCIDRs :: "string list"

record Input =
  in_Account :: Account
  in_Mailboxes :: "Mailbox list"
  in_EnvelopeFrom :: Address
  in_HeaderFrom :: Address

definition reject :: "int \<Rightarrow> string \<Rightarrow> string \<Rightarrow> Decision" where
  "reject code enhanced reason =
    \<lparr> dec_Action = ActionReject, dec_Mailbox = None, dec_RewriteFrom = '''',
      dec_OriginalFrom = empty_address, dec_Code = code, dec_Enhanced = enhanced,
      dec_Reason = reason \<rparr>"

definition accept :: "Mailbox \<Rightarrow> Address \<Rightarrow> Decision" where
  "accept mb from =
    \<lparr> dec_Action = ActionAccept, dec_Mailbox = Some mb, dec_RewriteFrom = '''',
      dec_OriginalFrom = from, dec_Code = 0, dec_Enhanced = '''', dec_Reason = '''' \<rparr>"

fun matchMailbox :: "Mailbox list \<Rightarrow> string \<Rightarrow> Mailbox option" where
  "matchMailbox [] normalized = None"
| "matchMailbox (mb # mbs) normalized =
    (if EqualFold (mb_Address mb) normalized then Some mb else matchMailbox mbs normalized)"

text \<open>The index panic on an empty list is \<^const>\<open>None\<close>.\<close>

definition defaultMailbox :: "Mailbox list \<Rightarrow> string \<Rightarrow> Mailbox option" where
  "defaultMailbox mailboxes defaultID =
    (case (if defaultID \<noteq> '''' then find (\<lambda>mb. mb_ID mb = defaultID) mailboxes else None) of
       Some mb \<Rightarrow> Some mb
     | None \<Rightarrow> (case mailboxes of [] \<Rightarrow> None | mb # _ \<Rightarrow> Some mb))"

definition matchesAny :: "string \<Rightarrow> string list \<Rightarrow> bool" where
  "matchesAny normalized patterns = list_ex (\<lambda>p. MatchesPattern normalized p) patterns"

definition maxListed :: nat where "maxListed = 5"

definition describeAllowed :: "Mailbox list \<Rightarrow> string list \<Rightarrow> string" where
  "describeAllowed mailboxes patterns =
    (let parts = map mb_Address mailboxes @ patterns in
     if length parts > maxListed
     then Join (take maxListed parts) '', '' @ '' and '' @ Itoa (length parts - maxListed) @ '' more''
     else Join parts '', '')"

definition rejectDisabled :: "Mailbox \<Rightarrow> Decision" where
  "rejectDisabled mb =
    reject 550 ''5.7.1'' (''the mailbox '' @ mb_Address mb @ '' is disabled'')"

text \<open>The \<^verbatim>\<open>%q\<close> argument of the last branch is the policy string, which for a value
  outside the three constants is the string it was built from.\<close>

definition applyFromPolicy :: "Input \<Rightarrow> Decision option" where
  "applyFromPolicy inp =
    (case defaultMailbox (in_Mailboxes inp) (pa_DefaultMailboxID (in_Account inp)) of
       None \<Rightarrow> None
     | Some mb \<Rightarrow> Some
         (case pa_Policy (in_Account inp) of
            FromPolicyRewrite \<Rightarrow>
              if \<not> mb_Enabled mb then rejectDisabled mb
              else (accept mb (in_HeaderFrom inp))\<lparr> dec_Action := ActionRewrite,
                     dec_RewriteFrom := mb_Address mb \<rparr>
          | FromPolicyPassthrough \<Rightarrow>
              if \<not> mb_Enabled mb then rejectDisabled mb
              else accept mb (in_HeaderFrom inp)
          | FromPolicyReject \<Rightarrow>
              reject 550 ''5.7.1''
                (''this account may not send as '' @ ad_Original (in_HeaderFrom inp) @
                 ''; allowed senders are: '' @
                 describeAllowed (in_Mailboxes inp) (pa_AllowedSenders (in_Account inp)))
          | FromPolicyUnknown p \<Rightarrow>
              reject 451 ''4.3.5''
                (''the sender policy '' @ Quote p @ '' is not understood by this version'')))"

text \<open>The decision; \<^const>\<open>None\<close> would be a panic, which \<open>Resolve_total\<close> below excludes.\<close>

definition Resolve :: "Input \<Rightarrow> Decision option" where
  "Resolve inp =
    (if \<not> pa_Enabled (in_Account inp)
     then Some (reject 550 ''5.7.1'' ''this account is disabled'')
     else if in_Mailboxes inp = []
     then Some (reject 550 ''5.7.1''
       ''this account is not linked to any mailbox; grant it one in the admin interface'')
     else if IsEmpty (in_HeaderFrom inp)
     then Some (reject 550 ''5.7.1'' ''the message has no From header'')
     else
       (case matchMailbox (in_Mailboxes inp) (ad_Normalized (in_HeaderFrom inp)) of
          Some mb \<Rightarrow> Some (if \<not> mb_Enabled mb then rejectDisabled mb
                          else accept mb (in_HeaderFrom inp))
        | None \<Rightarrow>
            if matchesAny (ad_Normalized (in_HeaderFrom inp)) (pa_AllowedSenders (in_Account inp))
            then (case defaultMailbox (in_Mailboxes inp) (pa_DefaultMailboxID (in_Account inp)) of
                    None \<Rightarrow> None
                  | Some mb \<Rightarrow> Some (if \<not> mb_Enabled mb then rejectDisabled mb
                                    else accept mb (in_HeaderFrom inp)))
            else applyFromPolicy inp))"

section \<open>Source addresses\<close>

text \<open>\<^verbatim>\<open>net.IP\<close> is a byte slice of length 4 or 16 (\<^const>\<open>None\<close> is \<^verbatim>\<open>nil\<close>); a network is an
  address and a mask.\<close>

type_synonym ip = "8 word list"

record IPNet =
  net_IP :: ip
  net_Mask :: ip

definition To4 :: "ip \<Rightarrow> ip option" where
  "To4 a = (if length a = 4 then Some a
    else if length a = 16 \<and> take 10 a = replicate 10 0 \<and> a ! 10 = 0xFF \<and> a ! 11 = 0xFF
    then Some (drop 12 a) else None)"

definition networkNumberAndMask :: "IPNet \<Rightarrow> (ip \<times> ip) option" where
  "networkNumberAndMask n =
    (case (case To4 (net_IP n) of
             Some a \<Rightarrow> Some a
           | None \<Rightarrow> if length (net_IP n) = 16 then Some (net_IP n) else None) of
       None \<Rightarrow> None
     | Some a \<Rightarrow>
         if length (net_Mask n) = 4
         then (if length a \<noteq> 4 then None else Some (a, net_Mask n))
         else if length (net_Mask n) = 16
         then Some (a, if length a = 4 then drop 12 (net_Mask n) else net_Mask n)
         else None)"

definition net_Contains :: "IPNet \<Rightarrow> ip \<Rightarrow> bool" where
  "net_Contains n a =
    (let x = (case To4 a of Some b \<Rightarrow> b | None \<Rightarrow> a) in
     (case networkNumberAndMask n of
        None \<Rightarrow> x = []
      | Some (nn, m) \<Rightarrow>
          length x = length nn \<and>
          list_all (\<lambda>i. and (nn ! i) (m ! i) = and (x ! i) (m ! i)) [0..<length x]))"

fun checkNetworks ::
  "(string \<Rightarrow> IPNet option) \<Rightarrow> ip \<Rightarrow> string list \<Rightarrow> policy_error option" where
  "checkNetworks parse_cidr a [] = Some SourceDenied"
| "checkNetworks parse_cidr a (raw # rest) =
    (case parse_cidr raw of
       None \<Rightarrow> Some (SourceBadNetwork raw)
     | Some network \<Rightarrow> if net_Contains network a then None else checkNetworks parse_cidr a rest)"

definition CheckSourceAddress ::
  "(string \<Rightarrow> IPNet option) \<Rightarrow> Account \<Rightarrow> ip option \<Rightarrow> policy_error option" where
  "CheckSourceAddress parse_cidr account ip =
    (if pa_AllowCIDRs account = [] then None
     else (case ip of
             None \<Rightarrow> Some SourceUnknown
           | Some a \<Rightarrow> checkNetworks parse_cidr a (pa_AllowCIDRs account)))"

definition AccountFromStore :: "SMTPAccount \<Rightarrow> AllowedSender list \<Rightarrow> Account" where
  "AccountFromStore a allowed =
    \<lparr> pa_ID = acc_ID a, pa_Username = acc_Username a, pa_Enabled = acc_Enabled a,
      pa_Policy = acc_FromPolicy a, pa_DefaultMailboxID = null_string (acc_DefaultMailboxID a),
      pa_AllowedSenders = map as_Pattern allowed, pa_AllowCIDRs = acc_AllowCIDRs a \<rparr>"

section \<open>Lemmas\<close>

lemma matchMailbox_Some_D:
  "matchMailbox mbs n = Some mb \<Longrightarrow> mb \<in> set mbs \<and> EqualFold (mb_Address mb) n"
  by (induction mbs) (auto split: if_splits)

lemma matchMailbox_None_iff:
  "matchMailbox mbs n = None \<longleftrightarrow> (\<forall>mb\<in>set mbs. \<not> EqualFold (mb_Address mb) n)"
  by (induction mbs) auto

lemma defaultMailbox_Some_D: "defaultMailbox mbs i = Some mb \<Longrightarrow> mb \<in> set mbs"
  by (auto simp: defaultMailbox_def find_Some_iff split: option.splits if_splits list.splits)

lemma defaultMailbox_None_iff [simp]: "defaultMailbox mbs i = None \<longleftrightarrow> mbs = []"
  by (auto simp: defaultMailbox_def split: option.splits list.splits)

lemma reject_simps [simp]:
  "dec_Action (reject c e r) = ActionReject" "dec_Mailbox (reject c e r) = None"
  "dec_Code (reject c e r) = c" "Rejected (reject c e r)"
  by (simp_all add: reject_def Rejected_def)

lemma accept_simps [simp]:
  "dec_Action (accept mb a) = ActionAccept" "dec_Mailbox (accept mb a) = Some mb"
  "dec_RewriteFrom (accept mb a) = ''''" "dec_OriginalFrom (accept mb a) = a"
  "\<not> Rejected (accept mb a)"
  by (simp_all add: accept_def Rejected_def)

lemma rejectDisabled_simps [simp]:
  "Rejected (rejectDisabled mb)" "dec_Action (rejectDisabled mb) = ActionReject"
  "dec_Code (rejectDisabled mb) = 550"
  "dec_Mailbox (rejectDisabled mb) = None"
  by (simp_all add: rejectDisabled_def)

lemma checkNetworks_None_iff:
  "checkNetworks pc a raws = None \<longleftrightarrow>
    (\<exists>pre raw post n. raws = pre @ raw # post \<and> pc raw = Some n \<and> net_Contains n a \<and>
       (\<forall>r\<in>set pre. pc r \<noteq> None))"
  (is "_ \<longleftrightarrow> ?Q raws")
proof (induction raws)
  case Nil
  then show ?case by simp
next
  case (Cons raw rest)
  show ?case
  proof (cases "pc raw")
    case None
    then have "\<not> ?Q (raw # rest)" by (auto simp: Cons_eq_append_conv)
    with None show ?thesis by simp
  next
    case (Some n)
    show ?thesis
    proof (cases "net_Contains n a")
      case True
      with Some have "?Q (raw # rest)"
        by (intro exI[of _ "[]"] exI[of _ raw] exI[of _ rest] exI[of _ n]) simp
      with True Some show ?thesis by simp
    next
      case False
      have "?Q rest" if "?Q (raw # rest)"
        using that False Some by (auto simp: Cons_eq_append_conv) blast
      moreover have "?Q (raw # rest)" if "?Q rest"
      proof -
        from that obtain pre raw' post n' where "rest = pre @ raw' # post" "pc raw' = Some n'"
          "net_Contains n' a" "\<forall>r\<in>set pre. pc r \<noteq> None" by blast
        with Some show ?thesis
          by (intro exI[of _ "raw # pre"] exI[of _ raw'] exI[of _ post] exI[of _ n']) simp
      qed
      ultimately have "?Q (raw # rest) \<longleftrightarrow> ?Q rest" by (rule iffI)
      moreover have "checkNetworks pc a (raw # rest) = checkNetworks pc a rest"
        using False Some by simp
      ultimately show ?thesis by (simp only: Cons)
    qed
  qed
qed

text \<open>What a domain pattern compares: everything after the last \<^verbatim>\<open>@\<close>.\<close>

definition domain_of :: "string \<Rightarrow> string option" where
  "domain_of s = map_option (\<lambda>at. drop (at + 1) s) (LastIndexByte s (CHR ''@''))"

lemma MatchesPattern_cases:
  assumes "MatchesPattern n p"
  obtains (Exact) "n = ToLower (TrimSpace p)" "CutPrefix (ToLower (TrimSpace p)) ''*@'' = None"
  | (Domain) d where "ToLower (TrimSpace p) = ''*@'' @ d" "d \<noteq> ''''" "domain_of n = Some d"
  using assms
  by (auto simp: MatchesPattern_def Let_def domain_of_def CutPrefix_Some_iff
      split: option.splits if_splits)

lemma ParseAddress_Inr_D:
  assumes "ParseAddress mp raw = Inr a"
  shows "a = empty_address \<or>
    (\<exists>at. LastIndexByte (ad_Original a) (CHR ''@'') = Some at \<and> 0 < at \<and>
       at < length (ad_Original a) - 1 \<and> ad_Normalized a = ToLower (ad_Original a) \<and>
       ad_Domain a = ToLower (drop (at + 1) (ad_Original a)))"
  using assms
  by (auto simp: ParseAddress_def Let_def LastIndexByte_Some_iff
      split: if_splits option.splits prod.splits)

lemma ParseAddress_at:
  assumes "ParseAddress mp raw = Inr a" "\<not> IsEmpty a"
  shows "CHR ''@'' \<in> set (ad_Normalized a)"
proof -
  have "a \<noteq> empty_address" using assms(2) by (auto simp: IsEmpty_def empty_address_def)
  then obtain at where at: "LastIndexByte (ad_Original a) (CHR ''@'') = Some at"
    "ad_Normalized a = ToLower (ad_Original a)"
    using ParseAddress_Inr_D[OF assms(1)] by auto
  have "CHR ''@'' \<in> set (ad_Original a)"
    using at(1) LastIndexByte_None_iff[of "ad_Original a" "CHR ''@''"] by force
  moreover have "to_lower_char (CHR ''@'') = CHR ''@''"
    by (simp add: to_lower_char_def is_upper_def)
  ultimately show ?thesis using at(2) by (force simp: ToLower_def)
qed

section \<open>Properties\<close>

lemma Resolve_decision:
  "\<exists>d. Resolve inp = Some d \<and>
     (\<not> Rejected d \<longrightarrow>
        pa_Enabled (in_Account inp) \<and> \<not> IsEmpty (in_HeaderFrom inp) \<and>
        dec_OriginalFrom d = in_HeaderFrom inp \<and>
        (\<exists>mb\<in>set (in_Mailboxes inp). dec_Mailbox d = Some mb \<and> mb_Enabled mb \<and>
           (EqualFold (mb_Address mb) (ad_Normalized (in_HeaderFrom inp)) \<or>
            matchesAny (ad_Normalized (in_HeaderFrom inp)) (pa_AllowedSenders (in_Account inp)) \<or>
            pa_Policy (in_Account inp) \<in> {FromPolicyRewrite, FromPolicyPassthrough}) \<and>
           (dec_Action d = ActionRewrite \<longrightarrow>
              pa_Policy (in_Account inp) = FromPolicyRewrite \<and>
              dec_RewriteFrom d = mb_Address mb)))"
proof (cases "in_Mailboxes inp = [] \<or> \<not> pa_Enabled (in_Account inp) \<or> IsEmpty (in_HeaderFrom inp)")
  case True
  then show ?thesis by (auto simp: Resolve_def)
next
  case False
  define dm where "dm = defaultMailbox (in_Mailboxes inp) (pa_DefaultMailboxID (in_Account inp))"
  from False obtain mb where mb: "dm = Some mb" "mb \<in> set (in_Mailboxes inp)"
    unfolding dm_def by (metis defaultMailbox_None_iff defaultMailbox_Some_D not_None_eq)
  show ?thesis
    using False mb
    by (cases "matchMailbox (in_Mailboxes inp) (ad_Normalized (in_HeaderFrom inp))")
      (auto simp: Resolve_def applyFromPolicy_def dm_def[symmetric] Rejected_def
        dest: matchMailbox_Some_D split: FromPolicy.splits)
qed

text \<open>C6: \<open>Resolve\<close> always returns a decision (the unchecked index of \<^verbatim>\<open>mailboxes[0]\<close> is never
  reached with an empty list), and a decision that lets the message through names an enabled
  mailbox from the account's own list, for an enabled account and a message with a From
  address.  The address is the mailbox's own, or explicitly allowed, or the account's policy
  is one of the two that let foreign senders through; From is rewritten only under the
  rewrite policy, and then to the address of that mailbox.\<close>

theorem Resolve_sound:
  "\<exists>d. Resolve inp = Some d \<and>
     (\<not> Rejected d \<longrightarrow>
        pa_Enabled (in_Account inp) \<and> \<not> IsEmpty (in_HeaderFrom inp) \<and>
        dec_OriginalFrom d = in_HeaderFrom inp \<and>
        (\<exists>mb\<in>set (in_Mailboxes inp). dec_Mailbox d = Some mb \<and> mb_Enabled mb \<and>
           (EqualFold (mb_Address mb) (ad_Normalized (in_HeaderFrom inp)) \<or>
            matchesAny (ad_Normalized (in_HeaderFrom inp)) (pa_AllowedSenders (in_Account inp)) \<or>
            pa_Policy (in_Account inp) \<in> {FromPolicyRewrite, FromPolicyPassthrough}) \<and>
           (dec_Action d = ActionRewrite \<longrightarrow>
              pa_Policy (in_Account inp) = FromPolicyRewrite \<and>
              dec_RewriteFrom d = mb_Address mb)))"
  by (rule Resolve_decision)

text \<open>An account whose policy is reject, or a value this build does not know, never sends as
  an address outside its mailboxes and its allowed patterns: such a message is refused,
  permanently (550) under the reject policy and temporarily (451) under an unknown one.\<close>

theorem Resolve_strict:
  assumes "pa_Enabled (in_Account inp)" "in_Mailboxes inp \<noteq> []" "\<not> IsEmpty (in_HeaderFrom inp)"
    and "\<forall>mb\<in>set (in_Mailboxes inp). \<not> EqualFold (mb_Address mb) (ad_Normalized (in_HeaderFrom inp))"
    and "\<not> matchesAny (ad_Normalized (in_HeaderFrom inp)) (pa_AllowedSenders (in_Account inp))"
    and "pa_Policy (in_Account inp) \<notin> {FromPolicyRewrite, FromPolicyPassthrough}"
  shows "\<exists>d. Resolve inp = Some d \<and> Rejected d \<and> dec_Mailbox d = None \<and>
    dec_Code d = (if pa_Policy (in_Account inp) = FromPolicyReject then 550 else 451)"
proof -
  have nm: "matchMailbox (in_Mailboxes inp) (ad_Normalized (in_HeaderFrom inp)) = None"
    using assms(4) by (simp add: matchMailbox_None_iff)
  obtain mb where mb: "defaultMailbox (in_Mailboxes inp) (pa_DefaultMailboxID (in_Account inp)) = Some mb"
    using assms(2) by (meson defaultMailbox_None_iff not_None_eq)
  show ?thesis
    using assms nm mb by (auto simp: Resolve_def applyFromPolicy_def split: FromPolicy.splits)
qed

text \<open>No allow-list pattern, whether or not it passed validation, spans two domains: two
  addresses that match the same pattern have the same domain.\<close>

theorem pattern_single_domain:
  assumes "MatchesPattern a p" "MatchesPattern b p"
  shows "domain_of a = domain_of b"
  using assms(1)
proof (cases rule: MatchesPattern_cases)
  case Exact
  then show ?thesis using assms(2)
    by (auto elim!: MatchesPattern_cases simp: CutPrefix_None_iff HasPrefix_def)
next
  case (Domain d)
  then show ?thesis using assms(2)
    by (auto elim!: MatchesPattern_cases simp: CutPrefix_None_iff HasPrefix_def)
qed

text \<open>A source address is admitted exactly when the account lists no network, or the client's
  address is known and lies in one of the listed networks before which no listed network
  failed to parse; a malformed entry denies, it is never skipped.\<close>

theorem CheckSourceAddress_iff:
  "CheckSourceAddress pc account ip = None \<longleftrightarrow>
    pa_AllowCIDRs account = [] \<or>
    (\<exists>a pre raw post n. ip = Some a \<and> pa_AllowCIDRs account = pre @ raw # post \<and>
       pc raw = Some n \<and> net_Contains n a \<and> list_all (\<lambda>r. pc r \<noteq> None) pre)"
  by (auto simp: CheckSourceAddress_def checkNetworks_None_iff list_all_iff split: option.splits)

text \<open>The pattern consisting of the empty path passes validation although no address the
  parser produces ever matches it, so the entry is accepted and silently does nothing.\<close>

theorem empty_path_pattern_dead:
  "ValidatePattern mp ''<>'' = None \<and>
   (\<forall>raw a. ParseAddress mp raw = Inr a \<longrightarrow> \<not> MatchesPattern (ad_Normalized a) ''<>'')"
proof (intro conjI allI impI notI)
  show "ValidatePattern mp ''<>'' = None"
    by (simp add: ValidatePattern_def TrimSpace_def trim_by_def is_space_def CutPrefix_def
        HasPrefix_def Contains_def ParseAddress_def Let_def)
next
  fix raw a
  assume a: "ParseAddress mp raw = Inr a" and m: "MatchesPattern (ad_Normalized a) ''<>''"
  have "\<not> IsEmpty a" using m by (auto simp: MatchesPattern_def IsEmpty_def Let_def split: if_splits)
  then have "CHR ''@'' \<in> set (ad_Normalized a)" by (rule ParseAddress_at[OF a])
  moreover have "ad_Normalized a = ''<>''"
    using m by (auto simp: MatchesPattern_def Let_def TrimSpace_def trim_by_def is_space_def
        ToLower_def to_lower_char_def is_upper_def CutPrefix_def HasPrefix_def split: if_splits)
  ultimately show False by simp
qed

section \<open>Witnesses\<close>

definition sample_mailbox :: Mailbox where
  "sample_mailbox = \<lparr> mb_ID = ''m1'', mb_Address = ''sales@example.com'', mb_DisplayName = '''',
     mb_OAuthCredentialID = ''c1'', mb_Transport = TransportSMTP, mb_RateLimitPerMin = None,
     mb_MaxConcurrent = None, mb_Enabled = True, mb_ManagedBy = ManagedByUI,
     mb_CreatedAt = 0, mb_UpdatedAt = 0 \<rparr>"

definition sample_from :: "string \<Rightarrow> Address" where
  "sample_from s = \<lparr> ad_Display = '''', ad_Original = s, ad_Normalized = ToLower s,
     ad_Domain = ''example.com'' \<rparr>"

definition sample_input :: "FromPolicy \<Rightarrow> string \<Rightarrow> Input" where
  "sample_input pol from =
    \<lparr> in_Account = \<lparr> pa_ID = ''a1'', pa_Username = ''printer'', pa_Enabled = True,
        pa_Policy = pol, pa_DefaultMailboxID = '''', pa_AllowedSenders = [''*@shop.example.com''],
        pa_AllowCIDRs = [] \<rparr>,
      in_Mailboxes = [sample_mailbox], in_EnvelopeFrom = empty_address,
      in_HeaderFrom = sample_from from \<rparr>"

theorem Resolve_sound_witness:
  "\<exists>d. Resolve (sample_input FromPolicyRewrite ''nas@lan'') = Some d \<and> \<not> Rejected d \<and>
     dec_RewriteFrom d = ''sales@example.com''"
proof -
  have "case Resolve (sample_input FromPolicyRewrite ''nas@lan'') of None \<Rightarrow> False
    | Some d \<Rightarrow> \<not> Rejected d \<and> dec_Action d = ActionRewrite"
    by code_simp
  moreover have "\<forall>mb\<in>set (in_Mailboxes (sample_input FromPolicyRewrite ''nas@lan'')).
      mb_Address mb = ''sales@example.com''"
    by code_simp
  ultimately show ?thesis
    using Resolve_sound[of "sample_input FromPolicyRewrite ''nas@lan''"] by auto
qed

theorem Resolve_strict_witness:
  "\<exists>d. Resolve (sample_input FromPolicyReject ''boss@example.com'') = Some d \<and> Rejected d \<and>
     dec_Mailbox d = None \<and> dec_Code d = 550"
proof -
  let ?i = "sample_input FromPolicyReject ''boss@example.com''"
  have "pa_Enabled (in_Account ?i)" by code_simp
  moreover have "in_Mailboxes ?i \<noteq> []" by code_simp
  moreover have "\<not> IsEmpty (in_HeaderFrom ?i)" by code_simp
  moreover have "\<forall>mb\<in>set (in_Mailboxes ?i). \<not> EqualFold (mb_Address mb) (ad_Normalized (in_HeaderFrom ?i))"
    by code_simp
  moreover have "\<not> matchesAny (ad_Normalized (in_HeaderFrom ?i)) (pa_AllowedSenders (in_Account ?i))"
    by code_simp
  moreover have pol: "pa_Policy (in_Account ?i) = FromPolicyReject" by code_simp
  ultimately show ?thesis using Resolve_strict[of ?i] by simp
qed

theorem pattern_single_domain_witness:
  "MatchesPattern ''a@example.com'' '' *@Example.COM'' \<and>
   domain_of ''a@example.com'' = domain_of ''b@example.com''"
proof -
  have "MatchesPattern ''a@example.com'' '' *@Example.COM''" by code_simp
  moreover have "MatchesPattern ''b@example.com'' '' *@Example.COM''" by code_simp
  ultimately show ?thesis using pattern_single_domain by blast
qed

theorem empty_path_pattern_dead_witness:
  "\<not> MatchesPattern (ad_Normalized
      \<lparr> ad_Display = '''', ad_Original = ''A@b'', ad_Normalized = ''a@b'', ad_Domain = ''b'' \<rparr>) ''<>''"
proof -
  have "ParseAddress (\<lambda>s. Some ('''', s)) ''A@b'' =
    Inr \<lparr> ad_Display = '''', ad_Original = ''A@b'', ad_Normalized = ''a@b'', ad_Domain = ''b'' \<rparr>"
    by code_simp
  then show ?thesis using empty_path_pattern_dead[of "\<lambda>s. Some ('''', s)"] by blast
qed

end
