(* ===== verification/Headers.thy ===== *)
theory Headers
  imports Prelude
begin

text \<open>
  The header block of a submission (\<^verbatim>\<open>src/internal/smtpsrv/headers.go\<close>): splitting a
  message, reading its fields, and rewriting some of them while the body keeps its bytes.

  \<^verbatim>\<open>net/textproto\<close> is the standard library's: its reader is modelled on the lines of the
  block, with continuation lines folded into one space, its key check and its canonical
  spelling of keys.  The order in which Go iterates over the map of replacements is not defined by
  the language; it is an argument of \<open>rewriteHeaders\<close>.
\<close>

section \<open>net/textproto\<close>

definition is_lower :: "char \<Rightarrow> bool" where
  "is_lower c = (byte CHR ''a'' \<le> byte c \<and> byte c \<le> byte CHR ''z'')"

definition to_upper_char :: "char \<Rightarrow> char" where
  "to_upper_char c = (if is_lower c then char_of (byte c - 32) else c)"

definition validHeaderFieldByte :: "char \<Rightarrow> bool" where
  "validHeaderFieldByte c =
    (is_digit c \<or> is_upper c \<or> is_lower c \<or> c \<in> set ''!#$%&*+-.^_`|~'' \<or> byte c = 39)"

definition validHeaderValueByte :: "char \<Rightarrow> bool" where
  "validHeaderValueByte c = (byte c \<ge> 128 \<or> 32 \<le> byte c \<and> byte c \<le> 126 \<or> byte c = 9)"

fun canonical_from :: "bool \<Rightarrow> string \<Rightarrow> string" where
  "canonical_from upper [] = []"
| "canonical_from upper (c # cs) =
    (let c' = (if upper then to_upper_char c else to_lower_char c)
     in c' # canonical_from (c' = CHR ''-'') cs)"

definition CanonicalMIMEHeaderKey :: "string \<Rightarrow> string" where
  "CanonicalMIMEHeaderKey s = (if list_all validHeaderFieldByte s then canonical_from True s else s)"

text \<open>The reader's key check: a space is tolerated and suppresses canonicalisation.\<close>

definition readKey :: "string \<Rightarrow> string option" where
  "readKey k =
    (if k = [] \<or> \<not> list_all (\<lambda>c. validHeaderFieldByte c \<or> c = CHR '' '') k then None
     else Some (CanonicalMIMEHeaderKey k))"

definition is_blank :: "char \<Rightarrow> bool" where
  "is_blank c = (c = CHR '' '' \<or> byte c = 9)"

definition TrimRightCRLF :: "string \<Rightarrow> string" where
  "TrimRightCRLF s = rev (dropWhile (\<lambda>c. c = CR \<or> c = LF) (rev s))"

text \<open>\<^verbatim>\<open>splitLines\<close>: lines with their terminator.\<close>

fun splitLines :: "string \<Rightarrow> string list" where
  "splitLines [] = []"
| "splitLines (c # cs) =
    (if c = LF then [c] # splitLines cs
     else (case splitLines cs of [] \<Rightarrow> [[c]] | (l # ls) \<Rightarrow> (c # l) # ls))"

text \<open>A line as \<^verbatim>\<open>bufio.ReadLine\<close> returns it: without LF and at most one CR before it.\<close>

definition chomp :: "string \<Rightarrow> string" where
  "chomp l =
    (if l \<noteq> [] \<and> last l = LF
     then (let l' = butlast l in if l' \<noteq> [] \<and> last l' = CR then butlast l' else l')
     else l)"

fun readContinued :: "string \<Rightarrow> string list \<Rightarrow> string \<times> string list" where
  "readContinued acc [] = (acc, [])"
| "readContinued acc (l # ls) =
    (if l \<noteq> [] \<and> is_blank (hd l)
     then readContinued (acc @ CHR '' '' # trim_by is_blank l) ls
     else (acc, l # ls))"

lemma readContinued_length: "readContinued acc ls = (kv, rest) \<Longrightarrow> length rest \<le> length ls"
  by (induction acc ls rule: readContinued.induct) (force split: if_splits)+

type_synonym MIMEHeader = "(string \<times> string) list"

text \<open>One field of a continued line.\<close>

definition readField :: "string \<Rightarrow> (string \<times> string) option" where
  "readField kv =
    (case Cut kv '':'' of
       None \<Rightarrow> None
     | Some (k, v) \<Rightarrow>
         (case readKey k of
            None \<Rightarrow> None
          | Some key \<Rightarrow> if list_all validHeaderValueByte v then Some (key, dropWhile is_blank v) else None))"

datatype header_error = ErrNoHeaderSeparator | ErrHeaderTooLarge nat | ErrMalformed

function readFields :: "string list \<Rightarrow> (header_error, MIMEHeader) result" where
  "readFields [] = Inl ErrMalformed"
| "readFields (l # ls) =
    (if l = [] then Inr []
     else if CHR '':'' \<notin> set l then Inl ErrMalformed
     else
       (case readContinued (trim_by is_blank l) ls of
          (kv, rest) \<Rightarrow>
            (case readField kv of
               None \<Rightarrow> Inl ErrMalformed
             | Some f \<Rightarrow> (case readFields rest of Inl e \<Rightarrow> Inl e | Inr fs \<Rightarrow> Inr (f # fs)))))"
  by pat_completeness auto
termination
  by (relation "measure length") (auto dest: readContinued_length[OF sym])

definition ReadMIMEHeader :: "string \<Rightarrow> (header_error, MIMEHeader) result" where
  "ReadMIMEHeader block =
    (let ls = map chomp (splitLines block) in
     if ls \<noteq> [] \<and> hd ls \<noteq> [] \<and> is_blank (hd (hd ls)) then Inl ErrMalformed
     else readFields ls)"

definition header_Get :: "MIMEHeader \<Rightarrow> string \<Rightarrow> string" where
  "header_Get h key =
    (case find (\<lambda>f. fst f = CanonicalMIMEHeaderKey key) h of None \<Rightarrow> [] | Some f \<Rightarrow> snd f)"

section \<open>Splitting a message\<close>

definition maxHeaderBytes :: int where "maxHeaderBytes = 1048576"

record message =
  hm_raw :: string
  hm_headerEnd :: nat
  hm_header :: MIMEHeader
  hm_keys :: "string list"

definition findHeaderEnd :: "string \<Rightarrow> (header_error, nat) result" where
  "findHeaderEnd raw =
    (case Index raw (CRLF @ CRLF) of
       Some i \<Rightarrow> Inr (i + 4)
     | None \<Rightarrow> (case Index raw [LF, LF] of Some i \<Rightarrow> Inr (i + 2) | None \<Rightarrow> Inl ErrNoHeaderSeparator))"

definition headerOrder :: "string \<Rightarrow> string list" where
  "headerOrder block =
    concat (map (\<lambda>line.
      if line = [] \<or> is_blank (hd line) then []
      else (case IndexByte line CHR '':'' of
              None \<Rightarrow> []
            | Some i \<Rightarrow> if i > 0 then [TrimSpace (take i line)] else []))
      (SplitByte block LF))"

definition parseMessage :: "string \<Rightarrow> (header_error, message) result" where
  "parseMessage raw =
    (case findHeaderEnd raw of
       Inl e \<Rightarrow> Inl e
     | Inr end' \<Rightarrow>
         if int end' > maxHeaderBytes then Inl (ErrHeaderTooLarge end')
         else
           (case ReadMIMEHeader (take end' raw) of
              Inl e \<Rightarrow> Inl e
            | Inr h \<Rightarrow> Inr \<lparr> hm_raw = raw, hm_headerEnd = end', hm_header = h,
                             hm_keys = headerOrder (take end' raw) \<rparr>))"

definition message_Get :: "message \<Rightarrow> string \<Rightarrow> string" where
  "message_Get m key = header_Get (hm_header m) key"

definition message_Body :: "message \<Rightarrow> string" where
  "message_Body m = drop (hm_headerEnd m) (hm_raw m)"

section \<open>Rewriting\<close>

record headerEdit =
  he_Key :: string
  he_Value :: string
  he_Prepend :: bool

text \<open>\<^verbatim>\<open>strings.NewReplacer\<close> with the three pairs of the source.\<close>

fun replaceNewlines :: "string \<Rightarrow> string" where
  "replaceNewlines [] = []"
| "replaceNewlines [c] = [if c = CR \<or> c = LF then CHR '' '' else c]"
| "replaceNewlines (c # d # cs) =
    (if c = CR \<and> d = LF then CHR '' '' # replaceNewlines cs
     else (if c = CR \<or> c = LF then CHR '' '' else c) # replaceNewlines (d # cs))"

definition sanitizeHeaderValue :: "string \<Rightarrow> string" where
  "sanitizeHeaderValue v =
    (if \<not> ContainsAny v [CR, LF] then v else TrimSpace (replaceNewlines v))"

definition writeHeaderLine :: "string \<Rightarrow> string \<Rightarrow> string" where
  "writeHeaderLine key value = CanonicalMIMEHeaderKey key @ '': '' @ sanitizeHeaderValue value @ CRLF"

text \<open>The map of replacements; a later edit of the same field wins.\<close>

fun replacements :: "headerEdit list \<Rightarrow> (string \<times> string) list" where
  "replacements [] = []"
| "replacements (e # es) =
    (let rest = replacements es in
     if he_Prepend e \<or> CanonicalMIMEHeaderKey (he_Key e) \<in> fst ` set rest then rest
     else (CanonicalMIMEHeaderKey (he_Key e), he_Value e) # rest)"

text \<open>The walk over the original block: the lines still to read, whether the current field is
  being replaced, and the keys replaced so far.\<close>

fun walkHeaders :: "(string \<times> string) list \<Rightarrow> string list \<Rightarrow> bool \<Rightarrow> string list \<Rightarrow> string \<times> string list" where
  "walkHeaders repl [] skipping seen = ([], seen)"
| "walkHeaders repl (line # lines) skipping seen =
    (let trimmed = TrimRightCRLF line in
     if trimmed = [] then ([], seen)
     else if is_blank (hd trimmed)
     then (let (out, s) = walkHeaders repl lines skipping seen in
           (if skipping then (out, s) else (trimmed @ CRLF @ out, s)))
     else
       (case IndexByte trimmed CHR '':'' of
          None \<Rightarrow> (let (out, s) = walkHeaders repl lines False seen in (trimmed @ CRLF @ out, s))
        | Some colon \<Rightarrow>
            if colon = 0
            then (let (out, s) = walkHeaders repl lines False seen in (trimmed @ CRLF @ out, s))
            else
              (let key = CanonicalMIMEHeaderKey (TrimSpace (take colon trimmed)) in
               (case map_of repl key of
                  None \<Rightarrow> (let (out, s) = walkHeaders repl lines False seen in (trimmed @ CRLF @ out, s))
                | Some newValue \<Rightarrow>
                    (let (out, s) = walkHeaders repl lines True (key # seen) in
                     ((if newValue \<noteq> [] then writeHeaderLine key newValue else []) @ out, s))))))"

definition rewriteHeaders :: "string list \<Rightarrow> message \<Rightarrow> headerEdit list \<Rightarrow> string" where
  "rewriteHeaders order m edits =
    (let repl = replacements edits;
         top = concat (map (\<lambda>e. writeHeaderLine (he_Key e) (he_Value e)) (filter he_Prepend edits));
         (kept, seen) = walkHeaders repl (splitLines (take (hm_headerEnd m) (hm_raw m))) False [];
         added = concat (map (\<lambda>key. case map_of repl key of
             None \<Rightarrow> []
           | Some v \<Rightarrow> if key \<notin> set seen \<and> v \<noteq> [] then writeHeaderLine key v else []) order)
     in top @ kept @ added @ CRLF @ message_Body m)"

section \<open>Lines\<close>

text \<open>What a written header block consists of: lines that end where they should.\<close>

definition good_line :: "string \<Rightarrow> bool" where
  "good_line l = (l \<noteq> [] \<and> LF \<notin> set l \<and> last l \<noteq> CR)"

definition render :: "string list \<Rightarrow> string" where
  "render ls = concat (map (\<lambda>l. l @ CRLF) ls)"

named_theorems header_line \<open>lines of a header block\<close>

lemma render_simps [simp]:
  "render [] = []" "render (l # ls) = l @ CRLF @ render ls" "render (xs @ ys) = render xs @ render ys"
  by (simp_all add: render_def)

lemma CR_neq_LF [simp]: "CR \<noteq> LF" "LF \<noteq> CR"
  by (simp_all add: CR_def LF_def)

lemma sep_not_newline [simp]:
  "CHR '':'' \<noteq> LF" "CHR '' '' \<noteq> LF" "CHR '':'' \<noteq> CR" "CHR '' '' \<noteq> CR"
  "LF \<noteq> CHR '':''" "LF \<noteq> CHR '' ''" "CR \<noteq> CHR '':''" "CR \<noteq> CHR '' ''"
  by code_simp+

lemma Index_sep_line:
  assumes "LF \<notin> set l"
  shows "Index (l @ CRLF @ rest) (CRLF @ CRLF) =
    (if HasPrefix rest CRLF then Some (length l)
     else map_option (\<lambda>i. i + length l + 2) (Index rest (CRLF @ CRLF)))"
  using assms
proof (induction l)
  case Nil
  show ?case
    by (cases rest) (auto simp: CRLF_def HasPrefix_def map_option.compositionality comp_def)
next
  case (Cons c l)
  have "\<not> HasPrefix (c # l @ CRLF @ rest) (CRLF @ CRLF)"
    using Cons.prems by (cases l) (auto simp: CRLF_def HasPrefix_def)
  then show ?case using Cons by (auto simp: map_option.compositionality comp_def)
qed

lemma good_line_no_sep: "good_line l \<Longrightarrow> \<not> HasPrefix (l @ CRLF @ rest) CRLF"
  by (cases l; cases "tl l") (auto simp: good_line_def HasPrefix_def CRLF_def)

lemma Index_render:
  assumes "list_all good_line ls" "ls \<noteq> []"
  shows "Index (render ls @ CRLF @ body) (CRLF @ CRLF) = Some (length (render ls) - 2)"
  using assms
proof (induction ls)
  case (Cons l ls)
  show ?case
  proof (cases ls)
    case Nil
    then show ?thesis using Cons.prems Index_sep_line[of l "CRLF @ body"]
      by (simp add: good_line_def HasPrefix_def CRLF_def)
  next
    case (Cons l' ls')
    have "length (render ls) \<ge> 2" using Cons by (simp add: CRLF_def)
    then show ?thesis
      using Cons.IH Cons.prems Cons Index_sep_line[of l "render ls @ CRLF @ body"]
        good_line_no_sep[of l' "render ls' @ CRLF @ body"]
      by (simp add: good_line_def CRLF_def)
  qed
qed simp

lemma findHeaderEnd_render:
  assumes "list_all good_line ls" "ls \<noteq> []"
  shows "findHeaderEnd (render ls @ CRLF @ body) = Inr (length (render ls) + 2)"
proof -
  have "length (render ls) \<ge> 2" using assms(2) by (cases ls) (simp_all add: CRLF_def)
  then show ?thesis by (simp add: findHeaderEnd_def Index_render[OF assms])
qed

lemma splitLines_append_line:
  "LF \<notin> set l \<Longrightarrow> splitLines (l @ LF # rest) = (l @ [LF]) # splitLines rest"
  by (induction l) auto

lemma splitLines_render: "list_all good_line ls \<Longrightarrow> splitLines (render ls @ rest) = map (\<lambda>l. l @ CRLF) ls @ splitLines rest"
proof (induction ls)
  case (Cons l ls)
  then show ?case
    using splitLines_append_line[of "l @ [CR]" "render ls @ rest"] by (simp add: good_line_def CRLF_def)
qed simp

lemma chomp_CRLF [simp]: "chomp (l @ CRLF) = l"
  by (simp add: chomp_def CRLF_def butlast_append Let_def)

lemma chomp_lines [simp]: "map (chomp \<circ> (\<lambda>l. l @ CRLF)) ls = ls"
  by (simp add: comp_def)

lemma TrimRightCRLF_good:
  assumes "LF \<notin> set (butlast line)" "TrimRightCRLF line \<noteq> []"
  shows "good_line (TrimRightCRLF line)"
proof -
  let ?t = "TrimRightCRLF line"
  have "rev line = takeWhile (\<lambda>c. c = CR \<or> c = LF) (rev line) @ rev ?t"
    by (simp add: TrimRightCRLF_def)
  from arg_cong[OF this, of rev] obtain z where z: "line = ?t @ z" by simp
  have last: "last ?t \<noteq> CR \<and> last ?t \<noteq> LF"
    using assms(2) hd_dropWhile[of "\<lambda>c. c = CR \<or> c = LF" "rev line"]
    by (auto simp: TrimRightCRLF_def last_rev)
  have "LF \<notin> set (butlast ?t)"
  proof (cases z)
    case Nil then show ?thesis using assms(1) z by simp
  next
    case (Cons a z')
    then have "set (butlast ?t) \<subseteq> set (butlast line)"
      using arg_cong[OF z, of butlast] by (auto simp: butlast_append dest: in_set_butlastD)
    then show ?thesis using assms(1) by blast
  qed
  moreover have "set ?t = insert (last ?t) (set (butlast ?t))"
    using arg_cong[OF append_butlast_last_id[OF assms(2)], of set] by simp
  ultimately show ?thesis using assms(2) last by (auto simp: good_line_def)
qed

lemma splitLines_butlast: "line \<in> set (splitLines s) \<Longrightarrow> LF \<notin> set (butlast line)"
proof (induction s arbitrary: line)
  case (Cons c s)
  show ?case
  proof (cases "c = LF \<or> splitLines s = []")
    case True
    then show ?thesis using Cons by (auto split: if_splits)
  next
    case False
    then obtain l ls where l: "splitLines s = l # ls" by (cases "splitLines s") auto
    then show ?thesis using Cons.prems Cons.IH[of line] Cons.IH[of l] False
      by (auto split: if_splits)
  qed
qed simp

section \<open>Rewriting, field by field\<close>

text \<open>The reference: the block as a list of fields, each a line with its continuation lines.\<close>

definition is_continuation :: "string \<Rightarrow> bool" where
  "is_continuation l = (l \<noteq> [] \<and> is_blank (hd l))"

function field_groups :: "string list \<Rightarrow> string list list" where
  "field_groups [] = []"
| "field_groups (l # ls) = (l # takeWhile is_continuation ls) # field_groups (dropWhile is_continuation ls)"
  by pat_completeness auto
termination
  by (relation "measure length") (auto simp: le_imp_less_Suc length_dropWhile_le)

definition line_key :: "string \<Rightarrow> string option" where
  "line_key l =
    (if is_continuation l then None
     else (case IndexByte l CHR '':'' of
             None \<Rightarrow> None
           | Some i \<Rightarrow> if i = 0 then None else Some (CanonicalMIMEHeaderKey (TrimSpace (take i l)))))"

definition header_line_of :: "string \<Rightarrow> string \<Rightarrow> string" where
  "header_line_of key value = CanonicalMIMEHeaderKey key @ '': '' @ sanitizeHeaderValue value"

text \<open>A field is copied with its continuation lines, replaced by one line, or deleted.\<close>

definition edit_field :: "(string \<times> string) list \<Rightarrow> string list \<Rightarrow> string list" where
  "edit_field repl f =
    (case Option.bind (line_key (hd f)) (map_of repl) of
       None \<Rightarrow> f
     | Some v \<Rightarrow> if v = [] then [] else [header_line_of (the (line_key (hd f))) v])"

text \<open>The lines of the block up to the first empty one.\<close>

definition block_lines :: "message \<Rightarrow> string list" where
  "block_lines m =
    takeWhile (\<lambda>l. l \<noteq> []) (map TrimRightCRLF (splitLines (take (hm_headerEnd m) (hm_raw m))))"

definition added_lines :: "(string \<times> string) list \<Rightarrow> string list \<Rightarrow> string list \<Rightarrow> string list" where
  "added_lines repl order ls =
    concat (map (\<lambda>key. case map_of repl key of
        None \<Rightarrow> []
      | Some v \<Rightarrow> if Some key \<notin> line_key ` set ls \<and> v \<noteq> [] then [header_line_of key v] else []) order)"

definition edited_lines :: "string list \<Rightarrow> message \<Rightarrow> headerEdit list \<Rightarrow> string list" where
  "edited_lines order m edits =
    map (\<lambda>e. header_line_of (he_Key e) (he_Value e)) (filter he_Prepend edits) @
    concat (map (edit_field (replacements edits)) (field_groups (block_lines m))) @
    added_lines (replacements edits) order (block_lines m)"

lemma writeHeaderLine_render: "writeHeaderLine k v = render [header_line_of k v]"
  by (simp add: writeHeaderLine_def header_line_of_def)

lemma walkHeaders_takeWhile:
  "walkHeaders repl lines sk seen =
    walkHeaders repl (takeWhile (\<lambda>l. l \<noteq> []) (map TrimRightCRLF lines)) sk seen"
proof (induction repl lines sk seen rule: walkHeaders.induct)
  case (2 repl line lines skipping seen)
  have idem: "TrimRightCRLF (TrimRightCRLF line) = TrimRightCRLF line"
    by (simp add: TrimRightCRLF_def dropWhile_idem)
  show ?case
  proof (cases "TrimRightCRLF line = []")
    case True
    then show ?thesis by simp
  next
    case False
    then show ?thesis using 2 idem by (simp add: Let_def split: option.split)
  qed
qed simp

lemma walkHeaders_fields:
  assumes "\<forall>l\<in>set ls. l \<noteq> [] \<and> TrimRightCRLF l = l"
  shows "fst (walkHeaders repl ls sk seen) =
      render ((if sk then [] else takeWhile is_continuation ls) @
        concat (map (edit_field repl) (field_groups (dropWhile is_continuation ls)))) \<and>
    set (snd (walkHeaders repl ls sk seen)) =
      set seen \<union> {k. Some k \<in> line_key ` set ls \<and> map_of repl k \<noteq> None}"
  using assms
proof (induction ls arbitrary: sk seen)
  case (Cons l ls)
  have l: "l \<noteq> []" "TrimRightCRLF l = l" and ls: "\<forall>l\<in>set ls. l \<noteq> [] \<and> TrimRightCRLF l = l"
    using Cons.prems by auto
  note IH = Cons.IH[OF ls]
  show ?case
  proof (cases "is_continuation l")
    case True
    then have "is_blank (hd l)" "line_key l = None" by (simp_all add: is_continuation_def line_key_def)
    then show ?thesis using IH[of sk seen] l True by (auto simp: Let_def case_prod_beta)
  next
    case False
    then have nb: "\<not> is_blank (hd l)" using l by (simp add: is_continuation_def)
    show ?thesis
    proof (cases "Option.bind (line_key l) (map_of repl)")
      case None
      then have "walkHeaders repl (l # ls) sk seen =
          (l @ CRLF @ fst (walkHeaders repl ls False seen), snd (walkHeaders repl ls False seen))"
        using l nb False
        by (auto simp: line_key_def Let_def case_prod_beta split: option.splits if_splits)
      moreover have "\<And>k. line_key l = Some k \<Longrightarrow> map_of repl k = None"
        using None by auto
      ultimately show ?thesis
        using IH[of False seen] False None by (auto simp: edit_field_def)
    next
      case (Some v)
      then obtain k where k: "line_key l = Some k" "map_of repl k = Some v"
        by (cases "line_key l") auto
      have "walkHeaders repl (l # ls) sk seen =
          ((if v \<noteq> [] then writeHeaderLine k v else []) @ fst (walkHeaders repl ls True (k # seen)),
           snd (walkHeaders repl ls True (k # seen)))"
        using k l nb False
        by (auto simp: line_key_def Let_def case_prod_beta split: option.splits if_splits)
      then show ?thesis
        using IH[of True "k # seen"] False k
        by (auto simp: edit_field_def writeHeaderLine_render)
    qed
  qed
qed simp

lemma TrimRightCRLF_idem: "TrimRightCRLF (TrimRightCRLF l) = TrimRightCRLF l"
  by (simp add: TrimRightCRLF_def dropWhile_idem)

lemma block_lines_good: "l \<in> set (block_lines m) \<Longrightarrow> good_line l \<and> TrimRightCRLF l = l"
proof -
  assume "l \<in> set (block_lines m)"
  then obtain r where "r \<in> set (splitLines (take (hm_headerEnd m) (hm_raw m)))" "l = TrimRightCRLF r" "l \<noteq> []"
    unfolding block_lines_def by (auto dest!: set_takeWhileD)
  then show ?thesis
    using splitLines_butlast TrimRightCRLF_good TrimRightCRLF_idem by blast
qed

lemma edit_leading_continuation:
  "takeWhile is_continuation ls @ concat (map (edit_field repl) (field_groups (dropWhile is_continuation ls))) =
    concat (map (edit_field repl) (field_groups ls))"
  by (cases ls) (auto simp: edit_field_def line_key_def)

lemma rewrite_fields:
  "rewriteHeaders order m edits = render (edited_lines order m edits) @ CRLF @ message_Body m"
proof -
  let ?repl = "replacements edits"
  let ?w = "walkHeaders ?repl (splitLines (take (hm_headerEnd m) (hm_raw m))) False []"
  have w: "?w = walkHeaders ?repl (block_lines m) False []"
    unfolding block_lines_def by (rule walkHeaders_takeWhile)
  have good: "\<forall>l\<in>set (block_lines m). l \<noteq> [] \<and> TrimRightCRLF l = l"
    using block_lines_good by (auto simp: good_line_def)
  have "fst ?w = render (concat (map (edit_field ?repl) (field_groups (block_lines m))))"
    using walkHeaders_fields[OF good, of ?repl False "[]"] by (simp add: w edit_leading_continuation)
  moreover have "key \<in> set (snd ?w) \<longleftrightarrow> Some key \<in> line_key ` set (block_lines m)" if "map_of ?repl key \<noteq> None" for key
    using walkHeaders_fields[OF good, of ?repl False "[]"] that by (auto simp: w)
  then have "concat (map (\<lambda>key. case map_of ?repl key of None \<Rightarrow> []
        | Some v \<Rightarrow> if key \<notin> set (snd ?w) \<and> v \<noteq> [] then writeHeaderLine key v else []) order) =
      render (added_lines ?repl order (block_lines m))"
    unfolding added_lines_def
    by (induction order) (auto simp: writeHeaderLine_render split: option.split)
  moreover have "concat (map (\<lambda>e. writeHeaderLine (he_Key e) (he_Value e)) es) =
      render (map (\<lambda>e. header_line_of (he_Key e) (he_Value e)) es)" for es
    by (induction es) (simp_all add: writeHeaderLine_render)
  ultimately show ?thesis
    by (simp add: rewriteHeaders_def edited_lines_def Let_def case_prod_beta)
qed

text \<open>C20: Rewriting the header block is editing it field by field.  The prepended lines come first;
  every field of the original is copied with its continuation lines in its place, or, if it is
  edited, replaced by one line or deleted; edited fields the message did not have are appended; and
  the body follows the empty line byte for byte.\<close>

theorem rewrite_field_by_field:
  "rewriteHeaders order m edits = render (edited_lines order m edits) @ CRLF @ message_Body m"
  by (rule rewrite_fields)

section \<open>Keys and values\<close>

lemma valid_upper: "validHeaderFieldByte c \<Longrightarrow> validHeaderFieldByte (to_upper_char c)"
proof -
  have "is_upper (to_upper_char c)" if "is_lower c"
    using that by (auto simp: is_lower_def is_upper_def to_upper_char_def of_char_of)
  then show "validHeaderFieldByte c \<Longrightarrow> validHeaderFieldByte (to_upper_char c)"
    by (cases "is_lower c") (auto simp: validHeaderFieldByte_def to_upper_char_def)
qed

lemma valid_lower: "validHeaderFieldByte c \<Longrightarrow> validHeaderFieldByte (to_lower_char c)"
proof -
  have "is_lower (to_lower_char c)" if "is_upper c"
    using that by (auto simp: is_lower_def is_upper_def to_lower_char_def of_char_of)
  then show "validHeaderFieldByte c \<Longrightarrow> validHeaderFieldByte (to_lower_char c)"
    by (cases "is_upper c") (auto simp: validHeaderFieldByte_def to_lower_char_def)
qed

lemma valid_canonical_from:
  "list_all validHeaderFieldByte s \<Longrightarrow> list_all validHeaderFieldByte (canonical_from u s)"
  by (induction u s rule: canonical_from.induct) (auto simp: Let_def valid_upper valid_lower)

lemma valid_canonical [header_line]:
  "list_all validHeaderFieldByte s \<Longrightarrow> list_all validHeaderFieldByte (CanonicalMIMEHeaderKey s)"
  by (simp add: CanonicalMIMEHeaderKey_def valid_canonical_from)

lemma upper_idem [simp]: "to_upper_char (to_upper_char c) = to_upper_char c"
  by (auto simp: to_upper_char_def is_lower_def of_char_of)

lemma canonical_from_idem: "canonical_from u (canonical_from u s) = canonical_from u s"
  by (induction u s rule: canonical_from.induct) (auto simp: Let_def)

lemma canonical_idem [simp]: "CanonicalMIMEHeaderKey (CanonicalMIMEHeaderKey s) = CanonicalMIMEHeaderKey s"
  by (simp add: CanonicalMIMEHeaderKey_def valid_canonical_from canonical_from_idem)

lemma valid_byte_not_special:
  "validHeaderFieldByte c \<Longrightarrow> c \<noteq> LF \<and> c \<noteq> CR \<and> c \<noteq> CHR '':'' \<and> \<not> is_blank c \<and> \<not> is_space c"
proof -
  have "\<not> validHeaderFieldByte LF" "\<not> validHeaderFieldByte CR" "\<not> validHeaderFieldByte CHR '':''"
    by code_simp+
  moreover have "\<not> validHeaderFieldByte c" if "is_space c"
    using that
    by (auto simp: is_space_def validHeaderFieldByte_def is_digit_def is_upper_def is_lower_def)
  moreover have "is_blank c \<Longrightarrow> is_space c"
    by (auto simp: is_blank_def is_space_def)
  ultimately show "validHeaderFieldByte c \<Longrightarrow> ?thesis" by auto
qed

lemma replaceNewlines_clean: "LF \<notin> set (replaceNewlines v) \<and> CR \<notin> set (replaceNewlines v)"
  by (induction v rule: replaceNewlines.induct) auto

lemma sanitize_clean [header_line]:
  "LF \<notin> set (sanitizeHeaderValue v)" "CR \<notin> set (sanitizeHeaderValue v)"
  using replaceNewlines_clean[of v] set_trim_by[of is_space "replaceNewlines v"]
  by (auto simp: sanitizeHeaderValue_def TrimSpace_def ContainsAny_def list_ex_iff)

lemma header_line_good:
  assumes "list_all validHeaderFieldByte k"
  shows "good_line (header_line_of k v)"
proof -
  have "c \<noteq> LF" if "c \<in> set (CanonicalMIMEHeaderKey k)" for c
    using valid_canonical[OF assms] that valid_byte_not_special by (auto simp: list_all_iff)
  moreover have "last ('' '' @ sanitizeHeaderValue v) \<noteq> CR"
    using sanitize_clean[of v] last_in_set[of "sanitizeHeaderValue v"]
    by (cases "sanitizeHeaderValue v = []") (simp, metis append_is_Nil_conv last_appendR)
  ultimately show ?thesis
    using sanitize_clean[of v] by (auto simp: good_line_def header_line_of_def)
qed

section \<open>Reading a rewritten message back\<close>

text \<open>The callers' edits: names are header names; and, to be read back, values print as header
  values.\<close>

definition edits_named :: "headerEdit list \<Rightarrow> bool" where
  "edits_named edits = list_all (\<lambda>e. he_Key e \<noteq> [] \<and> list_all validHeaderFieldByte (he_Key e)) edits"

definition edits_ok :: "headerEdit list \<Rightarrow> bool" where
  "edits_ok edits =
    list_all (\<lambda>e. he_Key e \<noteq> [] \<and> list_all validHeaderFieldByte (he_Key e) \<and>
      list_all validHeaderValueByte (sanitizeHeaderValue (he_Value e))) edits"

lemma replacements_edit:
  assumes "map_of (replacements edits) k = Some v"
  shows "\<exists>e\<in>set edits. k = CanonicalMIMEHeaderKey (he_Key e) \<and> v = he_Value e \<and> \<not> he_Prepend e"
  using assms
  by (induction edits) (auto simp: Let_def split: if_splits)

lemma edits_ok_named: "edits_ok edits \<Longrightarrow> edits_named edits"
  by (auto simp: edits_ok_def edits_named_def list_all_iff)

lemma edits_named_key:
  assumes "edits_named edits" "map_of (replacements edits) k = Some v"
  shows "list_all validHeaderFieldByte k"
proof -
  obtain e where e: "e \<in> set edits" "k = CanonicalMIMEHeaderKey (he_Key e)"
    using replacements_edit[OF assms(2)] by blast
  have "list_all validHeaderFieldByte (he_Key e)" using assms(1) e(1) by (simp add: edits_named_def list_all_iff)
  then show ?thesis unfolding e(2) by (rule valid_canonical)
qed

lemma edits_okD:
  assumes "edits_ok edits" "map_of (replacements edits) k = Some v"
  shows "list_all validHeaderFieldByte k" "k \<noteq> []" "list_all validHeaderValueByte (sanitizeHeaderValue v)"
    "CanonicalMIMEHeaderKey k = k"
proof -
  obtain e where e: "e \<in> set edits" "k = CanonicalMIMEHeaderKey (he_Key e)" "v = he_Value e"
    using replacements_edit[OF assms(2)] by blast
  have ok: "he_Key e \<noteq> []" "list_all validHeaderFieldByte (he_Key e)"
    "list_all validHeaderValueByte (sanitizeHeaderValue (he_Value e))"
    using assms(1) e(1) by (auto simp: edits_ok_def list_all_iff)
  show "list_all validHeaderFieldByte k" using ok(2) e(2) valid_canonical by simp
  show "k \<noteq> []" using ok(1,2) unfolding e(2) CanonicalMIMEHeaderKey_def
    by (cases "he_Key e") (simp_all add: Let_def)
  show "list_all validHeaderValueByte (sanitizeHeaderValue v)" using ok(3) e(3) by simp
  show "CanonicalMIMEHeaderKey k = k" unfolding e(2) by simp
qed

lemma concat_field_groups: "concat (field_groups ls) = ls"
  by (induction ls rule: field_groups.induct) simp_all

lemma field_group_lines: "g \<in> set (field_groups ls) \<Longrightarrow> l \<in> set g \<Longrightarrow> l \<in> set ls"
  by (metis concat_field_groups UN_I set_concat)

lemma in_field_groups: "l \<in> set ls \<Longrightarrow> \<exists>g\<in>set (field_groups ls). l \<in> set g"
proof -
  assume "l \<in> set ls"
  then have "l \<in> set (concat (field_groups ls))" by (simp only: concat_field_groups)
  then show ?thesis by simp
qed

lemma edited_lines_good:
  assumes "edits_named edits" "l \<in> set (edited_lines order m edits)"
  shows "good_line l"
proof -
  consider (top) e where "e \<in> set edits" "l = header_line_of (he_Key e) (he_Value e)"
    | (mid) g where "g \<in> set (field_groups (block_lines m))" "l \<in> set (edit_field (replacements edits) g)"
    | (add) k v where "Some v = map_of (replacements edits) k" "l = header_line_of k v"
    using assms(2)
    by (auto simp: edited_lines_def added_lines_def split: option.splits if_splits)
  then show ?thesis
  proof cases
    case top
    then show ?thesis using assms(1) header_line_good by (auto simp: edits_named_def list_all_iff)
  next
    case mid
    show ?thesis
    proof (cases "Option.bind (line_key (hd g)) (map_of (replacements edits))")
      case None
      then have "l \<in> set g" using mid(2) by (simp add: edit_field_def)
      then show ?thesis using field_group_lines[OF mid(1)] block_lines_good by blast
    next
      case (Some v)
      then obtain k where "line_key (hd g) = Some k" "map_of (replacements edits) k = Some v"
        by (cases "line_key (hd g)") auto
      then show ?thesis
        using mid(2) Some edits_named_key[OF assms(1)] header_line_good
        by (auto simp: edit_field_def split: if_splits)
    qed
  next
    case add
    then show ?thesis using edits_named_key[OF assms(1) add(1)[symmetric]] header_line_good by blast
  qed
qed

lemma rewrite_header_end:
  assumes "edits_named edits" "list_ex he_Prepend edits"
  shows "\<exists>n. findHeaderEnd (rewriteHeaders order m edits) = Inr n \<and>
    drop n (rewriteHeaders order m edits) = message_Body m"
proof -
  let ?ls = "edited_lines order m edits"
  have "list_all good_line ?ls" using edited_lines_good[OF assms(1)] by (auto simp: list_all_iff)
  moreover have "?ls \<noteq> []"
    using assms(2) by (auto simp: edited_lines_def list_ex_iff filter_empty_conv)
  ultimately have "findHeaderEnd (render ?ls @ CRLF @ message_Body m) = Inr (length (render ?ls) + 2)"
    by (rule findHeaderEnd_render)
  then show ?thesis by (simp add: rewrite_fields CRLF_def)
qed

text \<open>The body survives a rewrite.  Whatever the edits (with header names as keys and at least
  one prepended line, as the session's Received line), the rewritten message splits at the empty
  line the rewrite wrote: nothing in a field value or an original line can move the boundary, and
  what follows it is the original body byte for byte.\<close>

theorem rewrite_keeps_body:
  assumes "edits_named edits" "list_ex he_Prepend edits"
  shows "\<exists>n. findHeaderEnd (rewriteHeaders order m edits) = Inr n \<and>
    drop n (rewriteHeaders order m edits) = message_Body m"
  using assms by (rule rewrite_header_end)

subsection \<open>The reader on groups of lines\<close>

definition read_group :: "string list \<Rightarrow> (string \<times> string) option" where
  "read_group g =
    (if CHR '':'' \<notin> set (hd g) then None
     else readField (foldl (\<lambda>acc l. acc @ CHR '' '' # trim_by is_blank l) (trim_by is_blank (hd g)) (tl g)))"

lemma readContinued_groups:
  assumes "\<forall>l\<in>set ls. l \<noteq> []"
  shows "readContinued acc (ls @ [[]]) =
    (foldl (\<lambda>acc l. acc @ CHR '' '' # trim_by is_blank l) acc (takeWhile is_continuation ls),
     dropWhile is_continuation ls @ [[]])"
  using assms by (induction ls arbitrary: acc) (auto simp: is_continuation_def)

lemma readFields_groups:
  assumes "\<forall>l\<in>set ls. l \<noteq> []"
  shows "readFields (ls @ [[]]) =
    (case those (map read_group (field_groups ls)) of None \<Rightarrow> Inl ErrMalformed | Some fs \<Rightarrow> Inr fs)"
  using assms
proof (induction ls rule: field_groups.induct)
  case (2 l ls)
  have ne: "\<forall>x\<in>set ls. x \<noteq> []" "l \<noteq> []" using 2(2) by auto
  have "\<forall>x\<in>set (dropWhile is_continuation ls). x \<noteq> []"
    using ne(1) by (meson set_dropWhileD)
  note IH = 2(1)[OF this]
  show ?case
    using ne IH readContinued_groups[OF ne(1), of "trim_by is_blank l"]
    by (auto simp: read_group_def split: option.split)
qed simp

lemma those_Some_iff: "those xs = Some ys \<longleftrightarrow> (\<forall>x\<in>set xs. x \<noteq> None) \<and> ys = map the xs"
  by (induction xs arbitrary: ys) (auto split: option.split)

subsection \<open>The lines of a message that parses\<close>

lemma readContinued_block:
  "readContinued acc ls = (kv, rest) \<Longrightarrow>
   readContinued acc (takeWhile (\<lambda>l. l \<noteq> []) ls @ [[]]) = (kv, takeWhile (\<lambda>l. l \<noteq> []) rest @ [[]])"
  by (induction acc ls rule: readContinued.induct) (auto split: if_splits)

lemma readFields_block:
  "readFields ls = Inr fs \<Longrightarrow> readFields (takeWhile (\<lambda>l. l \<noteq> []) ls @ [[]]) = Inr fs"
proof (induction ls arbitrary: fs rule: readFields.induct)
  case (2 l ls)
  show ?case
  proof (cases "l = []")
    case True
    then show ?thesis using 2(2) by simp
  next
    case False
    obtain kv rest where rc: "readContinued (trim_by is_blank l) ls = (kv, rest)" by fastforce
    then obtain f fs' where f: "CHR '':'' \<in> set l" "readField kv = Some f" "readFields rest = Inr fs'" "fs = f # fs'"
      using 2(2) False by (auto split: if_splits option.splits sum.splits)
    have "readFields (takeWhile (\<lambda>l. l \<noteq> []) rest @ [[]]) = Inr fs'"
      using 2(1)[OF False _ rc[symmetric] f(2,3)] f(1) by simp
    then show ?thesis using readContinued_block[OF rc] f False by simp
  qed
qed simp

lemma CR_LF_not_valid [simp]:
  "\<not> validHeaderFieldByte CR" "\<not> validHeaderValueByte CR" "\<not> is_blank CR"
  "\<not> validHeaderFieldByte LF" "\<not> validHeaderValueByte LF" "\<not> is_blank LF"
  by code_simp+

lemma readField_no_CR:
  assumes "readField kv = Some f"
  shows "CR \<notin> set kv"
proof -
  obtain k v where kv: "Cut kv '':'' = Some (k, v)" "readKey k \<noteq> None" "list_all validHeaderValueByte v"
    using assms by (auto simp: readField_def split: option.splits if_splits)
  have "CR \<notin> set k"
  proof
    assume "CR \<in> set k"
    then have "validHeaderFieldByte CR \<or> CR = CHR '' ''"
      using kv(2) by (auto simp: readKey_def list_all_iff split: if_splits)
    then show False by simp
  qed
  moreover have "CR \<notin> set v"
  proof
    assume "CR \<in> set v"
    then have "validHeaderValueByte CR" using kv(3) by (auto simp: list_all_iff)
    then show False by simp
  qed
  ultimately show ?thesis using Cut_Some_D[OF kv(1)] by simp
qed

lemma trim_by_keeps: "c \<in> set s \<Longrightarrow> \<not> P c \<Longrightarrow> c \<in> set (trim_by P s)"
proof -
  have "c \<in> set (dropWhile P xs)" if "c \<in> set xs" "\<not> P c" for xs
    using that by (induction xs) auto
  then show "c \<in> set s \<Longrightarrow> \<not> P c \<Longrightarrow> c \<in> set (trim_by P s)" by (simp add: trim_by_def)
qed

lemma foldl_fold_keeps:
  "c \<in> set acc \<or> (\<exists>l\<in>set ls. c \<in> set (trim_by is_blank l)) \<Longrightarrow>
   c \<in> set (foldl (\<lambda>acc l. acc @ CHR '' '' # trim_by is_blank l) acc ls)"
  by (induction ls arbitrary: acc) auto

lemma read_group_no_CR:
  assumes "read_group g = Some f" "g \<noteq> []" "l \<in> set g"
  shows "CR \<notin> set l"
proof
  assume "CR \<in> set l"
  then have CRt: "CR \<in> set (trim_by is_blank l)" by (rule trim_by_keeps) simp
  obtain h t where g: "g = h # t" using assms(2) by (cases g) auto
  have "CR \<in> set (foldl (\<lambda>acc l. acc @ CHR '' '' # trim_by is_blank l) (trim_by is_blank h) t)"
    using CRt assms(3) by (intro foldl_fold_keeps) (auto simp: g)
  then show False
    using assms(1) readField_no_CR by (auto simp: read_group_def g split: if_splits)
qed

lemma chomp_split: "\<exists>s. r = chomp r @ s \<and> set s \<subseteq> {CR, LF}"
proof (cases "r \<noteq> [] \<and> last r = LF")
  case True
  then have r: "r = butlast r @ [LF]" by (metis append_butlast_last_id)
  show ?thesis
  proof (cases "butlast r \<noteq> [] \<and> last (butlast r) = CR")
    case True
    then have "butlast r = butlast (butlast r) @ [CR]" by (metis append_butlast_last_id)
    then show ?thesis using True r \<open>r \<noteq> [] \<and> last r = LF\<close>
      by (intro exI[of _ "[CR, LF]"]) (simp add: chomp_def Let_def, metis append.assoc append_Cons append_Nil)
  next
    case False
    then show ?thesis using r \<open>r \<noteq> [] \<and> last r = LF\<close>
      by (intro exI[of _ "[LF]"]) (auto simp: chomp_def Let_def)
  qed
next
  case False
  then show ?thesis by (intro exI[of _ "[]"]) (auto simp: chomp_def)
qed

lemma chomp_no_LF:
  assumes "LF \<notin> set (butlast r)"
  shows "LF \<notin> set (chomp r)"
proof (cases "r \<noteq> [] \<and> last r = LF")
  case True
  then show ?thesis using assms by (auto simp: chomp_def Let_def dest: in_set_butlastD)
next
  case False
  then show ?thesis using assms
    by (cases r rule: rev_cases) (auto simp: chomp_def)
qed

lemma TrimRightCRLF_clean:
  assumes "set s \<subseteq> {CR, LF}" "CR \<notin> set x" "LF \<notin> set x"
  shows "TrimRightCRLF (x @ s) = x"
proof -
  have "dropWhile (\<lambda>c. c = CR \<or> c = LF) (rev s @ rev x) = dropWhile (\<lambda>c. c = CR \<or> c = LF) (rev x)"
    using assms(1) by (intro dropWhile_append2) auto
  also have "\<dots> = rev x"
  proof (cases "rev x")
    case (Cons c cs)
    then have "c \<in> set x" by (metis list.set_intros(1) set_rev)
    then have "c \<noteq> CR" "c \<noteq> LF" using assms(2,3) by auto
    then show ?thesis using Cons by simp
  qed simp
  finally show ?thesis by (simp add: TrimRightCRLF_def)
qed

lemma TrimRight_chomp:
  assumes "LF \<notin> set (butlast r)" "CR \<notin> set (chomp r)"
  shows "TrimRightCRLF r = chomp r"
  using chomp_split[of r] TrimRightCRLF_clean[OF _ assms(2) chomp_no_LF[OF assms(1)]] by metis

lemma block_lines_chomp:
  assumes "\<forall>r\<in>set L. LF \<notin> set (butlast r)" "\<forall>l\<in>set (takeWhile (\<lambda>l. l \<noteq> []) (map chomp L)). CR \<notin> set l"
  shows "takeWhile (\<lambda>l. l \<noteq> []) (map TrimRightCRLF L) = takeWhile (\<lambda>l. l \<noteq> []) (map chomp L)"
  using assms
proof (induction L)
  case (Cons r L)
  have "CR \<notin> set (chomp r)" using Cons.prems(2) by (cases "chomp r = []") auto
  then have "TrimRightCRLF r = chomp r" using TrimRight_chomp Cons.prems(1) by simp
  then show ?case using Cons by auto
qed simp

lemma parseMessage_groups:
  assumes "parseMessage raw = Inr m"
  shows "hm_header m = map (\<lambda>g. the (read_group g)) (field_groups (block_lines m))"
    and "\<forall>g\<in>set (field_groups (block_lines m)). read_group g \<noteq> None"
    and "block_lines m = [] \<or> \<not> is_continuation (hd (block_lines m))"
proof -
  let ?L = "splitLines (take (hm_headerEnd m) (hm_raw m))"
  let ?b = "takeWhile (\<lambda>l. l \<noteq> []) (map chomp ?L)"
  have m: "hm_raw m = raw" "ReadMIMEHeader (take (hm_headerEnd m) raw) = Inr (hm_header m)"
    using assms by (auto simp: parseMessage_def split: sum.splits if_splits)
  then have rf: "readFields (map chomp ?L) = Inr (hm_header m)"
    and first: "map chomp ?L = [] \<or> hd (map chomp ?L) = [] \<or> \<not> is_blank (hd (hd (map chomp ?L)))"
    by (auto simp: ReadMIMEHeader_def Let_def split: if_splits)
  have ne: "\<forall>l\<in>set ?b. l \<noteq> []" by (auto dest: set_takeWhileD)
  have those: "those (map read_group (field_groups ?b)) = Some (hm_header m)"
    using readFields_block[OF rf] readFields_groups[OF ne] by (auto split: option.splits)
  have "CR \<notin> set l" if "l \<in> set ?b" for l
  proof -
    have "\<exists>g\<in>set (field_groups ?b). l \<in> set g" using that by (rule in_field_groups)
    then obtain g where g: "g \<in> set (field_groups ?b)" "l \<in> set g" by blast
    then obtain f where "read_group g = Some f" using those by (auto simp: those_Some_iff)
    moreover have "g \<noteq> []" using g(2) by auto
    ultimately show ?thesis using read_group_no_CR g(2) by blast
  qed
  then have bl: "block_lines m = ?b"
    unfolding block_lines_def using splitLines_butlast by (intro block_lines_chomp) auto
  show "hm_header m = map (\<lambda>g. the (read_group g)) (field_groups (block_lines m))"
    and "\<forall>g\<in>set (field_groups (block_lines m)). read_group g \<noteq> None"
    using those by (auto simp: bl those_Some_iff)
  show "block_lines m = [] \<or> \<not> is_continuation (hd (block_lines m))"
    using first unfolding bl is_continuation_def by (cases "map chomp ?L") auto
qed

subsection \<open>The fields of a rewritten message\<close>

text \<open>A group as the reader forms it.\<close>

definition proper_group :: "string list \<Rightarrow> bool" where
  "proper_group g = (g \<noteq> [] \<and> \<not> is_continuation (hd g) \<and> list_all is_continuation (tl g))"

lemma field_groups_proper:
  "ls = [] \<or> \<not> is_continuation (hd ls) \<Longrightarrow> g \<in> set (field_groups ls) \<Longrightarrow> proper_group g"
proof (induction ls rule: field_groups.induct)
  case (2 l ls)
  have "dropWhile is_continuation ls = [] \<or> \<not> is_continuation (hd (dropWhile is_continuation ls))"
    by (metis hd_dropWhile)
  then show ?case using 2 by (auto simp: proper_group_def list_all_iff dest: set_takeWhileD)
qed simp

lemma group_split:
  assumes "\<forall>l\<in>set t. P l" "xs = [] \<or> \<not> P (hd xs)"
  shows "takeWhile P (t @ xs) = t" "dropWhile P (t @ xs) = xs"
  using assms by (induction t) (auto simp: takeWhile_eq_Nil_iff dropWhile_eq_self_iff)

lemma field_groups_concat:
  assumes "\<forall>g\<in>set gs. proper_group g"
  shows "field_groups (concat gs) = gs"
  using assms
proof (induction gs)
  case (Cons g gs)
  obtain h t where g: "g = h # t" "\<forall>l\<in>set t. is_continuation l"
    using Cons.prems by (cases g) (auto simp: proper_group_def list_all_iff)
  have "concat gs = [] \<or> \<not> is_continuation (hd (concat gs))"
    using Cons.prems by (induction gs) (auto simp: proper_group_def)
  note split = group_split[OF g(2) this]
  show ?case using Cons by (simp add: g(1) split)
qed simp

lemma header_line_of_proper:
  assumes "list_all validHeaderFieldByte k" "k \<noteq> []"
  shows "proper_group [header_line_of k v]"
proof -
  have v: "list_all validHeaderFieldByte (CanonicalMIMEHeaderKey k)" by (rule valid_canonical[OF assms(1)])
  have "CanonicalMIMEHeaderKey k \<noteq> []"
    using assms by (cases k) (simp_all add: CanonicalMIMEHeaderKey_def Let_def)
  then obtain c cs where c: "CanonicalMIMEHeaderKey k = c # cs" by (cases "CanonicalMIMEHeaderKey k") auto
  then have "\<not> is_blank c" using v valid_byte_not_special by (simp add: list_all_iff)
  then show ?thesis by (simp add: proper_group_def is_continuation_def header_line_of_def c)
qed

lemma Index_char: "CHR '':'' \<notin> set a \<Longrightarrow> Index (a @ CHR '':'' # b) '':'' = Some (length a)"
  by (induction a) (auto simp: HasPrefix_def)

lemma Cut_colon: "CHR '':'' \<notin> set a \<Longrightarrow> Cut (a @ CHR '':'' # b) '':'' = Some (a, b)"
  by (simp add: Cut_def Index_char)

definition trim_end :: "string \<Rightarrow> string" where
  "trim_end s = rev (dropWhile is_blank (rev s))"

lemma trim_by_colon:
  assumes "a \<noteq> [] \<Longrightarrow> \<not> is_blank (hd a)"
  shows "trim_by is_blank (a @ CHR '':'' # b) = a @ CHR '':'' # trim_end b"
proof -
  have colon: "\<not> is_blank CHR '':''" by code_simp
  have "dropWhile is_blank (a @ CHR '':'' # b) = a @ CHR '':'' # b"
    using assms colon by (cases a) auto
  moreover have "dropWhile is_blank (rev b @ CHR '':'' # rev a) = dropWhile is_blank (rev b) @ CHR '':'' # rev a"
    using colon by (induction "rev b") (auto simp: dropWhile_append dropWhile_eq_Cons_conv)
  ultimately show ?thesis by (simp add: trim_by_def trim_end_def)
qed

lemma set_trim_end: "set (trim_end s) \<subseteq> set s"
  by (auto simp: trim_end_def dest: set_dropWhileD)

lemma read_group_header_line:
  assumes "list_all validHeaderFieldByte k" "k \<noteq> []" "list_all validHeaderValueByte (sanitizeHeaderValue v)"
  shows "read_group [header_line_of k v] =
    Some (CanonicalMIMEHeaderKey k, dropWhile is_blank (trim_end (CHR '' '' # sanitizeHeaderValue v)))"
proof -
  let ?k = "CanonicalMIMEHeaderKey k" and ?s = "CHR '' '' # sanitizeHeaderValue v"
  have valid: "list_all validHeaderFieldByte ?k" by (rule valid_canonical[OF assms(1)])
  have ne: "?k \<noteq> []" using assms(1,2) by (cases k) (simp_all add: CanonicalMIMEHeaderKey_def Let_def)
  have special: "CHR '':'' \<notin> set ?k" "\<not> is_blank (hd ?k)"
    using valid ne valid_byte_not_special by (auto simp: list_all_iff)
  have line: "header_line_of k v = ?k @ CHR '':'' # ?s" by (simp add: header_line_of_def)
  have "list_all validHeaderValueByte (trim_end ?s)"
  proof -
    have "validHeaderValueByte CHR '' ''" by code_simp
    then show ?thesis using assms(3) set_trim_end[of ?s] by (auto simp: list_all_iff)
  qed
  moreover have "readKey ?k = Some ?k" using valid ne by (auto simp: readKey_def list_all_iff)
  ultimately have "readField (?k @ CHR '':'' # trim_end ?s) = Some (?k, dropWhile is_blank (trim_end ?s))"
    by (simp add: readField_def Cut_colon[OF special(1)])
  then show ?thesis
    using special(2) by (simp add: read_group_def line trim_by_colon)
qed

lemma trim_end_clean: "v \<noteq> [] \<Longrightarrow> \<not> is_blank (last v) \<Longrightarrow> trim_end (x @ v) = x @ v"
  by (cases v rule: rev_cases) (auto simp: trim_end_def)

lemma read_group_clean:
  assumes "list_all validHeaderFieldByte k" "k \<noteq> []" "list_all validHeaderValueByte v"
    and "v \<noteq> []" "\<not> is_blank (hd v)" "\<not> is_blank (last v)"
  shows "read_group [header_line_of k v] = Some (CanonicalMIMEHeaderKey k, v)"
proof -
  have "CR \<notin> set v" "LF \<notin> set v"
    using assms(3) CR_LF_not_valid by (auto simp: list_all_iff simp del: CR_LF_not_valid)
  then have s: "sanitizeHeaderValue v = v" by (auto simp: sanitizeHeaderValue_def ContainsAny_def list_ex_iff)
  have "is_blank CHR '' ''" by code_simp
  then have "dropWhile is_blank (trim_end (CHR '' '' # v)) = v"
    using assms(4-6) trim_end_clean[of v "'' ''"] by (cases v) auto
  then show ?thesis using read_group_header_line[of k v] assms(1-3) by (simp add: s)
qed

lemma trim_by_keeps_all: "\<forall>c\<in>set s. \<not> P c \<Longrightarrow> trim_by P s = s"
proof -
  assume a: "\<forall>c\<in>set s. \<not> P c"
  have "dropWhile P s = s" using a by (cases s) auto
  moreover have "dropWhile P (rev s) = rev s"
    using a by (cases "s = []") (simp_all add: dropWhile_eq_self_iff hd_rev)
  ultimately show ?thesis by (simp add: trim_by_def)
qed

lemma IndexByte_char: "c \<notin> set a \<Longrightarrow> IndexByte (a @ c # b) c = Some (length a)"
  by (induction a) auto

text \<open>A field the reader calls \<open>k\<close> is one the rewrite calls \<open>k\<close>.\<close>

lemma read_group_line_key:
  assumes "read_group g = Some (k, w)" "proper_group g" "list_all validHeaderFieldByte k"
  shows "line_key (hd g) = Some k"
proof -
  let ?l = "hd g"
  have nc: "\<not> is_continuation ?l" and g: "g = ?l # tl g" using assms(2) by (auto simp: proper_group_def)
  obtain a b where l: "?l = a @ CHR '':'' # b" "CHR '':'' \<notin> set a"
    using assms(1) split_list_first[of "CHR '':''" ?l] by (auto simp: read_group_def split: if_splits)
  have hd_a: "a \<noteq> [] \<Longrightarrow> \<not> is_blank (hd a)" using nc l(1) by (cases a) (auto simp: is_continuation_def)
  have "\<exists>z. foldl (\<lambda>acc l. acc @ CHR '' '' # trim_by is_blank l) (x @ y) ls = x @ z" for x y :: string and ls
    by (induction ls arbitrary: y) simp_all
  from this[of "a @ '':''" "trim_end b" "tl g"] obtain z where
    "foldl (\<lambda>acc l. acc @ CHR '' '' # trim_by is_blank l) (trim_by is_blank ?l) (tl g) = a @ CHR '':'' # z"
    using trim_by_colon[OF hd_a, of b] l(1) by auto
  then have "readField (a @ CHR '':'' # z) = Some (k, w)"
    using assms(1) l by (auto simp: read_group_def split: if_splits)
  then have a: "a \<noteq> []" "k = CanonicalMIMEHeaderKey a"
    by (auto simp: readField_def Cut_colon[OF l(2)] readKey_def split: if_splits)
  have valid: "list_all validHeaderFieldByte a"
    using assms(3) a(2) by (auto simp: CanonicalMIMEHeaderKey_def split: if_splits)
  then have "TrimSpace a = a"
    unfolding TrimSpace_def using valid_byte_not_special by (intro trim_by_keeps_all) (auto simp: list_all_iff)
  then show ?thesis using a nc l IndexByte_char[OF l(2), of b] by (simp add: line_key_def)
qed

definition edited_groups :: "string list \<Rightarrow> message \<Rightarrow> headerEdit list \<Rightarrow> string list list" where
  "edited_groups order m edits =
    map (\<lambda>e. [header_line_of (he_Key e) (he_Value e)]) (filter he_Prepend edits) @
    filter (\<lambda>g. g \<noteq> []) (map (edit_field (replacements edits)) (field_groups (block_lines m))) @
    map (\<lambda>l. [l]) (added_lines (replacements edits) order (block_lines m))"

lemma concat_edited_groups: "concat (edited_groups order m edits) = edited_lines order m edits"
proof -
  have "concat (filter (\<lambda>g. g \<noteq> []) gs) = concat gs" for gs :: "string list list"
    by (induction gs) auto
  then show ?thesis by (simp add: edited_groups_def edited_lines_def)
qed

text \<open>Every group of the rewritten block is a prepended, replaced or added line, or an original
  field that is not edited.\<close>

lemma edited_groups_cases:
  assumes "g \<in> set (edited_groups order m edits)"
  obtains (top) e where "e \<in> set edits" "he_Prepend e" "g = [header_line_of (he_Key e) (he_Value e)]"
  | (edited) k v where "map_of (replacements edits) k = Some v" "v \<noteq> []" "g = [header_line_of k v]"
  | (orig) "g \<in> set (field_groups (block_lines m))" "Option.bind (line_key (hd g)) (map_of (replacements edits)) = None"
proof -
  have mid: thesis if g0: "g0 \<in> set (field_groups (block_lines m))" "g = edit_field (replacements edits) g0" "g \<noteq> []" for g0
  proof (cases "Option.bind (line_key (hd g0)) (map_of (replacements edits))")
    case None
    then show thesis using orig g0 by (simp add: edit_field_def)
  next
    case (Some v)
    then obtain k where "line_key (hd g0) = Some k" "map_of (replacements edits) k = Some v"
      by (cases "line_key (hd g0)") auto
    then show thesis using edited[of k v] g0 Some by (auto simp: edit_field_def split: if_splits)
  qed
  have added: thesis if l: "l \<in> set (added_lines (replacements edits) order (block_lines m))" "g = [l]" for l
  proof -
    obtain k v where "Some v = map_of (replacements edits) k" "v \<noteq> []" "l = header_line_of k v"
      using l(1) by (auto simp: added_lines_def split: option.splits if_splits)
    then show thesis using edited[of k v] l(2) by simp
  qed
  show thesis
    using assms mid added top by (auto simp: edited_groups_def)
qed

lemma edited_groups_read:
  assumes "parseMessage raw = Inr m" "edits_ok edits" "g \<in> set (edited_groups order m edits)"
  shows "proper_group g \<and> read_group g \<noteq> None"
  using assms(3)
proof (cases rule: edited_groups_cases)
  case (top e)
  then have "he_Key e \<noteq> []" "list_all validHeaderFieldByte (he_Key e)"
    "list_all validHeaderValueByte (sanitizeHeaderValue (he_Value e))"
    using assms(2) by (auto simp: edits_ok_def list_all_iff)
  then show ?thesis using top(3) header_line_of_proper read_group_header_line by simp
next
  case (edited k v)
  note ok = edits_okD[OF assms(2) edited(1)]
  then show ?thesis using edited(3) header_line_of_proper read_group_header_line by simp
next
  case orig
  then show ?thesis
    using parseMessage_groups[OF assms(1)] field_groups_proper by blast
qed

lemma edited_groups_value:
  assumes "parseMessage raw = Inr m" "edits_ok edits" "map_of (replacements edits) k = Some v" "v \<noteq> []"
    and "list_all validHeaderValueByte v" "\<not> is_blank (hd v)" "\<not> is_blank (last v)"
    and "\<forall>e\<in>set edits. he_Prepend e \<longrightarrow> CanonicalMIMEHeaderKey (he_Key e) \<noteq> k"
    and "g \<in> set (edited_groups order m edits)" "fst (the (read_group g)) = k"
  shows "snd (the (read_group g)) = v"
  using assms(9)
proof (cases rule: edited_groups_cases)
  case (top e)
  then have "he_Key e \<noteq> []" "list_all validHeaderFieldByte (he_Key e)"
    "list_all validHeaderValueByte (sanitizeHeaderValue (he_Value e))"
    using assms(2) by (auto simp: edits_ok_def list_all_iff)
  then have "fst (the (read_group g)) = CanonicalMIMEHeaderKey (he_Key e)"
    using top(3) read_group_header_line by simp
  then show ?thesis using top(1,2) assms(8,10) by auto
next
  case (edited k' v')
  note ok = edits_okD[OF assms(2) edited(1)]
  then have "fst (the (read_group g)) = k'" using edited(3) read_group_header_line[of k' v'] by simp
  then have "k' = k" "v' = v" using assms(3,10) edited(1) by auto
  then show ?thesis using read_group_clean[of k v] ok assms(4-7) edited(3) by simp
next
  case orig
  then have proper: "proper_group g" and "read_group g \<noteq> None"
    using parseMessage_groups[OF assms(1)] field_groups_proper by blast+
  then obtain w where "read_group g = Some (k, w)" using assms(10) by (cases "the (read_group g)") auto
  then have "line_key (hd g) = Some k"
    using read_group_line_key proper edits_okD(1)[OF assms(2,3)] by blast
  then show ?thesis using orig(2) assms(3) by simp
qed

lemma edited_groups_present:
  assumes "parseMessage raw = Inr m" "map_of (replacements edits) k = Some v" "v \<noteq> []" "k \<in> set order"
  shows "[header_line_of k v] \<in> set (edited_groups order m edits)"
proof (cases "Some k \<in> line_key ` set (block_lines m)")
  case True
  then obtain l where l: "l \<in> set (block_lines m)" "line_key l = Some k" by auto
  then obtain g where g: "g \<in> set (field_groups (block_lines m))" "l \<in> set g" using in_field_groups by blast
  have "proper_group g" using parseMessage_groups[OF assms(1)] field_groups_proper g(1) by blast
  moreover have "\<not> is_continuation l" using l(2) by (auto simp: line_key_def)
  ultimately have "hd g = l" using g(2) by (cases g) (auto simp: proper_group_def list_all_iff)
  then have "edit_field (replacements edits) g = [header_line_of k v]"
    using l(2) assms(2,3) by (simp add: edit_field_def)
  then have "[header_line_of k v] \<in> edit_field (replacements edits) ` set (field_groups (block_lines m))"
    using g(1) by (metis image_eqI)
  then show ?thesis by (simp add: edited_groups_def)
next
  case False
  then have "header_line_of k v \<in> set (added_lines (replacements edits) order (block_lines m))"
    using assms(2-4) by (auto simp: added_lines_def intro!: bexI[of _ k])
  then show ?thesis by (simp add: edited_groups_def)
qed

lemma header_Get_unique:
  assumes "\<forall>f\<in>set h. fst f = k \<longrightarrow> snd f = v" "(k, w) \<in> set h" "CanonicalMIMEHeaderKey key = k"
  shows "header_Get h key = v"
proof -
  obtain f where "find (\<lambda>f. fst f = k) h = Some f"
    using assms(2) by (cases "find (\<lambda>f. fst f = k) h") (auto simp: find_None_iff)
  moreover then have "f \<in> set h" "fst f = k" by (auto simp: find_Some_iff)
  ultimately show ?thesis using assms(1,3) by (simp add: header_Get_def)
qed

lemma ReadMIMEHeader_render:
  assumes "list_all good_line ls" "ls \<noteq> []" "\<not> is_continuation (hd ls)"
    and "\<forall>g\<in>set (field_groups ls). read_group g \<noteq> None"
  shows "ReadMIMEHeader (render ls @ CRLF) = Inr (map (\<lambda>g. the (read_group g)) (field_groups ls))"
proof -
  have "splitLines CRLF = [CRLF]" by (simp add: CRLF_def)
  then have lines: "map chomp (splitLines (render ls @ CRLF)) = ls @ [[]]"
    using splitLines_render[OF assms(1), of CRLF] chomp_CRLF[of "[]"] by simp
  have ne: "\<forall>l\<in>set ls. l \<noteq> []" using assms(1) by (auto simp: list_all_iff good_line_def)
  have "\<not> is_blank (hd (hd ls))" using assms(2,3) ne by (auto simp: is_continuation_def)
  moreover have "those (map read_group (field_groups ls)) = Some (map (\<lambda>g. the (read_group g)) (field_groups ls))"
    using assms(4) by (auto simp: those_Some_iff)
  ultimately show ?thesis
    using assms(2) by (simp add: ReadMIMEHeader_def Let_def lines readFields_groups[OF ne])
qed

text \<open>C21: What the upstream will read.  Parsing a rewritten submission again succeeds, reads the new
  value of an edited field (the From address the policy decided on, say) wherever the original had
  that field or not, in whatever spelling, and finds the same body.  The hypotheses ask that the
  edits are header fields with printable values, that the field is not also prepended, and that the
  new header block stays within the size limit; \<open>order\<close> is any iteration order that visits the
  field.\<close>

theorem rewritten_field_reads_back:
  assumes "parseMessage raw = Inr m" "edits_ok edits" "list_ex he_Prepend edits"
    and "map_of (replacements edits) (CanonicalMIMEHeaderKey key) = Some v" "CanonicalMIMEHeaderKey key \<in> set order"
    and "v \<noteq> []" "list_all validHeaderValueByte v" "\<not> is_blank (hd v)" "\<not> is_blank (last v)"
    and "\<forall>e\<in>set edits. he_Prepend e \<longrightarrow> CanonicalMIMEHeaderKey (he_Key e) \<noteq> CanonicalMIMEHeaderKey key"
    and "int (length (render (edited_lines order m edits)) + 2) \<le> maxHeaderBytes"
  shows "\<exists>m'. parseMessage (rewriteHeaders order m edits) = Inr m' \<and> message_Get m' key = v \<and>
    message_Body m' = message_Body m"
proof -
  let ?k = "CanonicalMIMEHeaderKey key" and ?gs = "edited_groups order m edits"
  let ?ls = "edited_lines order m edits" and ?out = "rewriteHeaders order m edits"
  let ?h = "map (\<lambda>g. the (read_group g)) ?gs"
  have good: "list_all good_line ?ls" using edited_lines_good[OF edits_ok_named[OF assms(2)]] by (auto simp: list_all_iff)
  have ne: "?ls \<noteq> []" using assms(3) by (auto simp: edited_lines_def list_ex_iff filter_empty_conv)
  have groups: "field_groups ?ls = ?gs" "\<forall>g\<in>set ?gs. proper_group g \<and> read_group g \<noteq> None"
    using field_groups_concat[of ?gs] edited_groups_read[OF assms(1,2)]
    by (auto simp: concat_edited_groups)
  obtain l0 ls0 where ls0: "?ls = l0 # ls0" using ne by (cases ?ls) auto
  then have "l0 # takeWhile is_continuation ls0 \<in> set ?gs" using groups(1) by (metis field_groups.simps(2) list.set_intros(1))
  then have "\<not> is_continuation (hd ?ls)" using groups(2) ls0 by (force simp: proper_group_def)
  then have h: "ReadMIMEHeader (render ?ls @ CRLF) = Inr ?h"
    using ReadMIMEHeader_render[OF good ne] groups by auto
  have out: "?out = (render ?ls @ CRLF) @ message_Body m" by (simp add: rewrite_fields)
  define n where "n = length (render ?ls) + 2"
  have fin: "findHeaderEnd ?out = Inr n"
    using findHeaderEnd_render[OF good ne] by (simp add: rewrite_fields n_def)
  have "length (render ?ls @ CRLF) = n" by (simp add: CRLF_def n_def)
  then have takes: "take n ?out = render ?ls @ CRLF" "drop n ?out = message_Body m"
    unfolding out by (metis append_eq_conv_conj)+
  have parse: "parseMessage ?out = Inr \<lparr> hm_raw = ?out, hm_headerEnd = n, hm_header = ?h,
      hm_keys = headerOrder (render ?ls @ CRLF) \<rparr>"
    using assms(11)[folded n_def] by (simp add: parseMessage_def fin takes(1) h)
  have "\<forall>f\<in>set ?h. fst f = ?k \<longrightarrow> snd f = v"
    using edited_groups_value[OF assms(1,2,4,6-10)] by auto
  moreover have "(?k, v) \<in> set ?h"
    using edited_groups_present[OF assms(1,4,6,5)]
      read_group_clean[OF edits_okD(1,2)[OF assms(2,4)] assms(7,6,8,9)] by (force simp: image_iff)
  ultimately have "header_Get ?h key = v" by (rule header_Get_unique) simp
  then show ?thesis using parse takes(2) by (simp add: message_Get_def message_Body_def)
qed

section \<open>Scenarios and witnesses\<close>

definition sample_raw :: string where
  "sample_raw = ''from: printer@lan'' @ CRLF @ ''Subject: scan'' @ CRLF @ '' page 1'' @ CRLF @ CRLF @ ''body''"

definition sample_edits :: "headerEdit list" where
  "sample_edits =
    [\<lparr> he_Key = ''Received'', he_Value = ''by proxy'', he_Prepend = True \<rparr>,
     \<lparr> he_Key = ''From'', he_Value = ''sales@example.com'', he_Prepend = False \<rparr>]"

definition sample_parsed :: message where
  "sample_parsed = (case parseMessage sample_raw of Inr m \<Rightarrow> m
    | Inl _ \<Rightarrow> \<lparr> hm_raw = [], hm_headerEnd = 0, hm_header = [], hm_keys = [] \<rparr>)"

lemma sample_parse: "parseMessage sample_raw = Inr sample_parsed"
  by code_simp

theorem rewrite_keeps_body_witness:
  "\<exists>n. findHeaderEnd (rewriteHeaders [''From''] sample_parsed sample_edits) = Inr n \<and>
     drop n (rewriteHeaders [''From''] sample_parsed sample_edits) = ''body''"
proof -
  have "edits_named sample_edits" "list_ex he_Prepend sample_edits" "message_Body sample_parsed = ''body''"
    by code_simp+
  then show ?thesis using rewrite_keeps_body[of sample_edits "[''From'']" sample_parsed] by simp
qed

theorem rewritten_field_reads_back_witness:
  "\<exists>m'. parseMessage (rewriteHeaders [''From''] sample_parsed sample_edits) = Inr m' \<and>
     message_Get m' ''From'' = ''sales@example.com'' \<and> message_Get sample_parsed ''From'' = ''printer@lan''"
proof -
  have e: "edits_ok sample_edits" "list_ex he_Prepend sample_edits"
    "map_of (replacements sample_edits) (CanonicalMIMEHeaderKey ''From'') = Some ''sales@example.com''"
    "CanonicalMIMEHeaderKey ''From'' \<in> set [''From'']" "''sales@example.com'' \<noteq> []"
    "list_all validHeaderValueByte ''sales@example.com''" "\<not> is_blank (hd ''sales@example.com'')"
    "\<not> is_blank (last ''sales@example.com'')"
    "\<forall>e\<in>set sample_edits. he_Prepend e \<longrightarrow> CanonicalMIMEHeaderKey (he_Key e) \<noteq> CanonicalMIMEHeaderKey ''From''"
    by code_simp+
  have "length (render (edited_lines [''From''] sample_parsed sample_edits)) = 69" by code_simp
  then have "int (length (render (edited_lines [''From''] sample_parsed sample_edits)) + 2) \<le> maxHeaderBytes"
    by (simp add: maxHeaderBytes_def)
  moreover have "message_Get sample_parsed ''From'' = ''printer@lan''" by code_simp
  ultimately show ?thesis using rewritten_field_reads_back[OF sample_parse e] by blast
qed

text \<open>With bare LF line endings in the header block and an empty CRLF line later in the body, the
  header block is taken to reach into the body; rewriting stops at the first empty line and drops
  the text up to the later one.\<close>

theorem mixed_line_endings_lose_text:
  "parseMessage (''From: a@lan'' @ [LF, LF] @ ''one'' @ CRLF @ CRLF @ ''two'') \<noteq> Inl ErrMalformed \<and>
   (\<exists>m. parseMessage (''From: a@lan'' @ [LF, LF] @ ''one'' @ CRLF @ CRLF @ ''two'') = Inr m \<and>
     rewriteHeaders [''From''] m sample_edits =
       ''Received: by proxy'' @ CRLF @ ''From: sales@example.com'' @ CRLF @ CRLF @ ''two'')"
proof -
  let ?raw = "''From: a@lan'' @ [LF, LF] @ ''one'' @ CRLF @ CRLF @ ''two''"
  have "case parseMessage ?raw of Inl _ \<Rightarrow> False | Inr m \<Rightarrow> rewriteHeaders [''From''] m sample_edits =
       ''Received: by proxy'' @ CRLF @ ''From: sales@example.com'' @ CRLF @ CRLF @ ''two''"
    by code_simp
  then show ?thesis by (cases "parseMessage ?raw") auto
qed

end
