(* ===== verification/Gate.thy ===== *)
theory Gate
  imports Policy "HOL-Library.AList" "HOL-Library.Multiset"
begin

text \<open>
  The connection gate in front of the SMTP server: the connection limiter
  (\<^verbatim>\<open>src/internal/smtpsrv/limits.go\<close>), the PROXY protocol
  (\<^verbatim>\<open>proxyproto.go\<close>) and the accepting listener with its once-only release
  (\<^verbatim>\<open>server.go\<close>).

  A raw connection is its peer address and the bytes the peer sends; \<open>parse_ip\<close> and
  \<open>show_ip\<close> are \<^verbatim>\<open>net.ParseIP\<close> and \<^verbatim>\<open>net.IP.String\<close>.  The interface the
  listener needs of the limiter is the locale \<open>slot_pool\<close>, interpreted on the limiter of the code.
\<close>

section \<open>Addresses\<close>

datatype net_addr = TCPAddr ip int | OtherAddr string

text \<open>\<^verbatim>\<open>net.SplitHostPort\<close>.\<close>

definition SplitHostPort :: "string \<Rightarrow> (string \<times> string) option" where
  "SplitHostPort hp =
    (case LastIndexByte hp CHR '':'' of
       None \<Rightarrow> None
     | Some i \<Rightarrow>
         (let res = (if hp ! 0 = CHR ''[''
            then (case IndexByte hp CHR '']'' of
                    None \<Rightarrow> None
                  | Some e \<Rightarrow> if e + 1 = i then Some (take (e - 1) (drop 1 hp), 1, e + 1) else None)
            else (if CHR '':'' \<in> set (take i hp) then None else Some (take i hp, 0, 0)))
          in (case res of
                None \<Rightarrow> None
              | Some (host, j, k) \<Rightarrow>
                  if CHR ''['' \<in> set (drop j hp) \<or> CHR '']'' \<in> set (drop k hp) then None
                  else Some (host, drop (i + 1) hp))))"

text \<open>The host of a TCP address is its printed IP, whatever the port.\<close>

definition addrKey :: "(ip \<Rightarrow> string) \<Rightarrow> net_addr option \<Rightarrow> string" where
  "addrKey show_ip a =
    (case a of
       None \<Rightarrow> ''unknown''
     | Some (TCPAddr i _) \<Rightarrow> show_ip i
     | Some (OtherAddr s) \<Rightarrow> (case SplitHostPort s of None \<Rightarrow> s | Some (host, _) \<Rightarrow> host))"

definition remoteIP :: "(string \<Rightarrow> ip option) \<Rightarrow> net_addr option \<Rightarrow> ip option" where
  "remoteIP parse_ip a =
    (case a of
       None \<Rightarrow> None
     | Some (TCPAddr i _) \<Rightarrow> Some i
     | Some (OtherAddr s) \<Rightarrow> (case SplitHostPort s of None \<Rightarrow> parse_ip s | Some (host, _) \<Rightarrow> parse_ip host))"

section \<open>The connection limiter\<close>

record connLimiter =
  cl_perIP :: "(string \<times> int) list"
  cl_total :: int
  cl_maxIP :: int
  cl_maxAll :: int

definition newConnLimiter :: "int \<Rightarrow> int \<Rightarrow> connLimiter" where
  "newConnLimiter maxPerIP maxTotal =
    \<lparr> cl_perIP = [], cl_total = 0, cl_maxIP = maxPerIP, cl_maxAll = maxTotal \<rparr>"

definition per_ip :: "connLimiter \<Rightarrow> string \<Rightarrow> int" where
  "per_ip l key = (case map_of (cl_perIP l) key of None \<Rightarrow> 0 | Some n \<Rightarrow> n)"

definition cl_acquire :: "string \<Rightarrow> connLimiter \<Rightarrow> connLimiter option" where
  "cl_acquire key l =
    (if cl_maxAll l > 0 \<and> cl_total l \<ge> cl_maxAll l then None
     else if cl_maxIP l > 0 \<and> per_ip l key \<ge> cl_maxIP l then None
     else Some (l\<lparr> cl_perIP := AList.update key (per_ip l key + 1) (cl_perIP l), cl_total := cl_total l + 1 \<rparr>))"

definition cl_release :: "string \<Rightarrow> connLimiter \<Rightarrow> connLimiter" where
  "cl_release key l =
    l\<lparr> cl_perIP := (if per_ip l key \<le> 1 then AList.delete key (cl_perIP l)
                    else AList.update key (per_ip l key - 1) (cl_perIP l)),
       cl_total := (if cl_total l > 0 then cl_total l - 1 else cl_total l) \<rparr>"

definition cl_counts :: "connLimiter \<Rightarrow> int \<times> nat" where
  "cl_counts l = (cl_total l, length (cl_perIP l))"

section \<open>The PROXY protocol\<close>

datatype proxy_error = ErrProxyUntrusted string | ErrProxyMalformed | ErrProxyTimeout

text \<open>How the bytes a peer sends before it waits for an answer end: it closes its side, or the
  read deadline \<^verbatim>\<open>proxyReadTimeout\<close> passes.\<close>

datatype stream_end = StreamEOF | StreamDeadline

definition proxyV1Prefix :: string where "proxyV1Prefix = ''PROXY ''"

definition proxyV2Sig :: string where
  "proxyV2Sig = map char_of [0x0D, 0x0A, 0x0D, 0x0A, 0x00, 0x0D, 0x0A, 0x51, 0x55, 0x49, 0x54, 0x0A :: nat]"

definition proxyV1MaxLen :: nat where "proxyV1MaxLen = 107"
definition proxyV2HeaderLen :: nat where "proxyV2HeaderLen = 16"

definition newProxyHandshake :: "(string \<Rightarrow> IPNet option) \<Rightarrow> string list \<Rightarrow> (string, IPNet list) result" where
  "newProxyHandshake parse_cidr cidrs =
    (case those (map parse_cidr cidrs) of
       None \<Rightarrow> Inl ''smtpsrv: invalid trusted network''
     | Some ns \<Rightarrow> if ns = [] then Inl ''smtpsrv: PROXY protocol needs at least one trusted network'' else Inr ns)"

definition trusts :: "(string \<Rightarrow> ip option) \<Rightarrow> IPNet list \<Rightarrow> net_addr option \<Rightarrow> bool" where
  "trusts parse_ip trusted a =
    (case remoteIP parse_ip a of None \<Rightarrow> False | Some i \<Rightarrow> list_ex (\<lambda>n. net_Contains n i) trusted)"

text \<open>The scan of \<^verbatim>\<open>splitFields\<close>: the field being read, and the rest of the line.\<close>

fun scanFields :: "string \<Rightarrow> string \<Rightarrow> string list" where
  "scanFields cur [] = (if cur = [] then [] else [cur])"
| "scanFields cur (c # cs) =
    (if c = CHR '' '' then (if cur = [] then [] else [cur]) @ scanFields [] cs
     else scanFields (cur @ [c]) cs)"

definition TrimNewlines :: "string \<Rightarrow> string" where
  "TrimNewlines s = rev (dropWhile (\<lambda>c. c = CR \<or> c = LF) (rev s))"

definition splitFields :: "string \<Rightarrow> string list" where
  "splitFields line = scanFields [] (TrimNewlines line)"

text \<open>A reader returns the value read and the bytes after it.\<close>

type_synonym 'a reader = "string \<Rightarrow> (proxy_error, 'a \<times> string) result"

definition parseProxyV1 :: "(string \<Rightarrow> ip option) \<Rightarrow> net_addr option reader" where
  "parseProxyV1 parse_ip input =
    (case IndexByte input LF of
       None \<Rightarrow> Inl ErrProxyMalformed
     | Some n \<Rightarrow>
         (let line = take (n + 1) input; rest = drop (n + 1) input in
          if length line > proxyV1MaxLen then Inl ErrProxyMalformed
          else
            (let fields = splitFields line in
             if length fields \<ge> 2 \<and> fields ! 1 = ''UNKNOWN'' then Inr (None, rest)
             else if length fields \<noteq> 6 \<or> fields ! 0 \<noteq> ''PROXY'' then Inl ErrProxyMalformed
             else
               (case parse_ip (fields ! 2) of
                  None \<Rightarrow> Inl ErrProxyMalformed
                | Some i \<Rightarrow>
                    (case Atoi (fields ! 4) of
                       None \<Rightarrow> Inl ErrProxyMalformed
                     | Some port \<Rightarrow>
                         if port < 0 \<or> port > 65535 then Inl ErrProxyMalformed
                         else Inr (Some (TCPAddr i port), rest))))))"

definition byte_word :: "char \<Rightarrow> 8 word" where "byte_word c = of_nat (byte c)"

definition be16 :: "string \<Rightarrow> nat" where
  "be16 s = byte (s ! 0) * 256 + byte (s ! 1)"

definition parseProxyV2 :: "net_addr option reader" where
  "parseProxyV2 input =
    (if length input < proxyV2HeaderLen then Inl ErrProxyMalformed
     else
       (let header = take 16 input;
            versionCommand = byte (header ! 12);
            command = versionCommand mod 16;
            family = byte (header ! 13);
            len = be16 (take 2 (drop 14 header));
            rest = drop 16 input
        in if versionCommand div 16 \<noteq> 2 then Inl ErrProxyMalformed
           else if length rest < len then Inl ErrProxyMalformed
           else
             (let body = take len rest; after_body = drop len rest in
              if command = 0 then Inr (None, after_body)
              else if command \<noteq> 1 then Inl ErrProxyMalformed
              else if family = 0x11 \<or> family = 0x12
              then (if length body < 12 then Inl ErrProxyMalformed
                    else Inr (Some (TCPAddr (map byte_word (take 4 body)) (int (be16 (drop 8 body)))), after_body))
              else if family = 0x21 \<or> family = 0x22
              then (if length body < 36 then Inl ErrProxyMalformed
                    else Inr (Some (TCPAddr (map byte_word (take 16 body)) (int (be16 (drop 32 body)))), after_body))
              else if family = 0 then Inr (None, after_body)
              else Inl ErrProxyMalformed)))"

text \<open>The handshake on the bytes the peer sends: the address to report and the bytes left to the
  SMTP server.\<close>

definition handshake ::
  "(string \<Rightarrow> ip option) \<Rightarrow> (ip \<Rightarrow> string) \<Rightarrow> IPNet list \<Rightarrow> net_addr option \<Rightarrow> stream_end \<Rightarrow> net_addr option reader" where
  "handshake parse_ip show_ip trusted peer ending input =
    (let peeked = take (length proxyV2Sig) input;
         hasV1 = (take (length proxyV1Prefix) peeked = proxyV1Prefix);
         hasV2 = (peeked = proxyV2Sig)
     in if length peeked < length proxyV2Sig \<and> ending = StreamDeadline then Inl ErrProxyTimeout
        else if \<not> hasV1 \<and> \<not> hasV2 then Inr (peer, input)
        else if \<not> trusts parse_ip trusted peer then Inl (ErrProxyUntrusted (addrKey show_ip peer))
        else
          (case (if hasV1 then parseProxyV1 parse_ip input else parseProxyV2 input) of
             Inl e \<Rightarrow> Inl e
           | Inr (source, rest) \<Rightarrow> Inr (case source of None \<Rightarrow> peer | Some a \<Rightarrow> Some a, rest)))"

section \<open>The listener\<close>

text \<open>Open connections by their number, with the key under which each holds its slot.\<close>

record gate =
  gt_limiter :: connLimiter
  gt_open :: "(nat \<times> string) list"

datatype gate_result =
    Refused
  | RejectedProxy proxy_error
  | Accepted "net_addr option" string

definition gate_Accept ::
  "(string \<Rightarrow> ip option) \<Rightarrow> (ip \<Rightarrow> string) \<Rightarrow> IPNet list option \<Rightarrow> nat \<Rightarrow> net_addr option \<Rightarrow> stream_end \<Rightarrow> string \<Rightarrow>
    gate \<Rightarrow> gate_result \<times> gate" where
  "gate_Accept parse_ip show_ip proxy conn peer ending input g =
    (let key = addrKey show_ip peer in
     (case cl_acquire key (gt_limiter g) of
        None \<Rightarrow> (Refused, g)
      | Some l \<Rightarrow>
          (case proxy of
             None \<Rightarrow> (Accepted peer input, g\<lparr> gt_limiter := l, gt_open := (conn, key) # gt_open g \<rparr>)
           | Some trusted \<Rightarrow>
               (case handshake parse_ip show_ip trusted peer ending input of
                  Inl e \<Rightarrow> (RejectedProxy e, g\<lparr> gt_limiter := cl_release key l \<rparr>)
                | Inr (addr, rest) \<Rightarrow>
                    (Accepted addr rest, g\<lparr> gt_limiter := l, gt_open := (conn, key) # gt_open g \<rparr>)))))"

text \<open>\<^verbatim>\<open>limitedConn.Close\<close>: the slot is released the first time only.\<close>

definition gate_Close :: "nat \<Rightarrow> gate \<Rightarrow> gate" where
  "gate_Close conn g =
    (case map_of (gt_open g) conn of
       None \<Rightarrow> g
     | Some key \<Rightarrow> g\<lparr> gt_limiter := cl_release key (gt_limiter g), gt_open := AList.delete conn (gt_open g) \<rparr>)"

section \<open>The limiter as a pool of slots\<close>

text \<open>What the listener relies on: an acquired slot is held until it is released.\<close>

locale slot_pool =
  fixes acquire :: "'k \<Rightarrow> 's \<Rightarrow> 's option" and release :: "'k \<Rightarrow> 's \<Rightarrow> 's"
    and held :: "'s \<Rightarrow> 'k multiset" and invar :: "'s \<Rightarrow> bool"
  assumes acquire_held: "invar s \<Longrightarrow> acquire k s = Some s' \<Longrightarrow> invar s' \<and> held s' = add_mset k (held s)"
    and release_held: "invar s \<Longrightarrow> k \<in># held s \<Longrightarrow> invar (release k s) \<and> held (release k s) = held s - {#k#}"
begin

lemma acquire_release:
  assumes "invar s" "acquire k s = Some s'"
  shows "invar (release k s') \<and> held (release k s') = held s"
  using acquire_held[OF assms] release_held[of s' k] by simp

text \<open>The connections a listener has open are exactly the slots held.\<close>

definition tracks :: "'s \<Rightarrow> ('c \<times> 'k) list \<Rightarrow> bool" where
  "tracks s conns = (invar s \<and> held s = mset (map snd conns))"

lemma tracks_open:
  assumes "tracks s conns" "acquire k s = Some s'"
  shows "tracks s' ((c, k) # conns)"
  using assms acquire_held[of s k s'] by (simp add: tracks_def)

lemma tracks_refused:
  assumes "tracks s conns" "acquire k s = Some s'"
  shows "tracks (release k s') conns"
  using assms acquire_release[of s k s'] by (simp add: tracks_def)

lemma tracks_close:
  assumes "tracks s conns" "(c, k) \<in> set conns"
  shows "tracks (release k s) (remove1 (c, k) conns)"
proof -
  have "k \<in># held s" using assms by (force simp: tracks_def)
  then have "invar (release k s)" "held (release k s) = mset (map snd conns) - {#k#}"
    using assms(1) release_held[of s k] by (auto simp: tracks_def)
  moreover have "mset (map snd (remove1 (c, k) conns)) = mset (map snd conns) - {#k#}"
    using assms(2) by (simp add: image_mset_Diff)
  ultimately show ?thesis by (simp add: tracks_def)
qed

end

definition cl_held :: "connLimiter \<Rightarrow> string multiset" where
  "cl_held l = mset (concat (map (\<lambda>(k, n). replicate (nat n) k) (cl_perIP l)))"

definition cl_ok :: "connLimiter \<Rightarrow> bool" where
  "cl_ok l =
    (distinct (map fst (cl_perIP l)) \<and> list_all (\<lambda>(k, n). 1 \<le> n \<and> (cl_maxIP l > 0 \<longrightarrow> n \<le> cl_maxIP l)) (cl_perIP l) \<and>
     cl_total l = int (size (cl_held l)) \<and> (cl_maxAll l > 0 \<longrightarrow> cl_total l \<le> cl_maxAll l))"

lemma count_cl_held:
  assumes "distinct (map fst (cl_perIP l))"
  shows "count (cl_held l) k = nat (per_ip l k)"
proof -
  have "count (mset (concat (map (\<lambda>(k, n). replicate (nat n) k) al))) k =
      nat (case map_of al k of None \<Rightarrow> 0 | Some n \<Rightarrow> n)"
    if "distinct (map fst al)" for al :: "(string \<times> int) list"
    using that
  proof (induction al)
    case (Cons x al)
    obtain k' n where x: "x = (k', n)" by (cases x)
    have "map_of al k = None" if "k = k'" using Cons.prems that x by (simp add: map_of_eq_None_iff)
    then show ?case using Cons by (auto simp: x)
  qed simp
  then show ?thesis using assms by (simp add: cl_held_def per_ip_def)
qed

lemma per_ip_nonneg: "cl_ok l \<Longrightarrow> 0 \<le> per_ip l k"
  by (force simp: cl_ok_def per_ip_def list_all_iff split: option.split dest: map_of_SomeD)

lemma per_ip_bound: "cl_ok l \<Longrightarrow> cl_maxIP l > 0 \<Longrightarrow> per_ip l k \<le> cl_maxIP l"
  by (force simp: cl_ok_def per_ip_def list_all_iff split: option.split dest: map_of_SomeD)

lemma set_update_subset: "set (AList.update k v al) \<subseteq> insert (k, v) (set al)"
  by (induction al) auto

lemma cl_acquire_held:
  assumes "cl_ok l" "cl_acquire k l = Some l'"
  shows "cl_ok l' \<and> cl_held l' = add_mset k (cl_held l)"
proof -
  let ?al = "AList.update k (per_ip l k + 1) (cl_perIP l)"
  have l': "l' = l\<lparr> cl_perIP := ?al, cl_total := cl_total l + 1 \<rparr>"
    and room: "cl_maxAll l > 0 \<Longrightarrow> cl_total l < cl_maxAll l" "cl_maxIP l > 0 \<Longrightarrow> per_ip l k < cl_maxIP l"
    using assms(2) by (auto simp: cl_acquire_def split: if_splits)
  have dist: "distinct (map fst ?al)" using assms(1) by (simp add: cl_ok_def distinct_update)
  have per: "per_ip l' x = (if x = k then per_ip l k + 1 else per_ip l x)" for x
    by (simp add: per_ip_def l' update_conv')
  have dl: "distinct (map fst (cl_perIP l))" "distinct (map fst (cl_perIP l'))"
    using assms(1) dist by (simp_all add: cl_ok_def l')
  have held: "cl_held l' = add_mset k (cl_held l)"
    using dl per_ip_nonneg[OF assms(1), of k]
    by (intro multiset_eqI) (auto simp: count_cl_held per Suc_nat_eq_nat_zadd1 add.commute)
  moreover have "list_all (\<lambda>(k, n). 1 \<le> n \<and> (cl_maxIP l > 0 \<longrightarrow> n \<le> cl_maxIP l)) ?al"
    using assms(1) room(2) per_ip_nonneg[OF assms(1), of k] set_update_subset[of k "per_ip l k + 1" "cl_perIP l"]
    by (fastforce simp: cl_ok_def list_all_iff)
  ultimately show ?thesis using assms(1) dist room(1) by (auto simp: cl_ok_def l')
qed

lemma cl_release_held:
  assumes "cl_ok l" "k \<in># cl_held l"
  shows "cl_ok (cl_release k l) \<and> cl_held (cl_release k l) = cl_held l - {#k#}"
proof -
  let ?l' = "cl_release k l"
  have dist: "distinct (map fst (cl_perIP l))" using assms(1) by (simp add: cl_ok_def)
  then have pos: "1 \<le> per_ip l k" using assms(2) count_cl_held[of l k] by (simp add: count_greater_zero_iff[symmetric] del: count_greater_zero_iff)
  have dist': "distinct (map fst (cl_perIP ?l'))" using dist by (simp add: cl_release_def distinct_update distinct_delete)
  have per: "per_ip ?l' x = (if x = k then per_ip l k - 1 else per_ip l x)" for x
    using pos by (auto simp: per_ip_def cl_release_def update_conv' delete_conv' split: option.splits)
  have held: "cl_held ?l' = cl_held l - {#k#}"
    using dist dist' pos by (intro multiset_eqI) (auto simp: count_cl_held per nat_diff_distrib)
  have tot: "cl_total l > 0" using assms by (auto simp: cl_ok_def size_eq_0_iff_empty intro: gr0I)
  have "set (cl_perIP ?l') \<subseteq> insert (k, per_ip l k - 1) (set (cl_perIP l)) \<and>
      (per_ip l k \<le> 1 \<longrightarrow> set (cl_perIP ?l') \<subseteq> set (cl_perIP l))"
    using set_update_subset[of k "per_ip l k - 1" "cl_perIP l"] by (auto simp: cl_release_def AList.delete_eq)
  then have "list_all (\<lambda>(k, n). 1 \<le> n \<and> (cl_maxIP l > 0 \<longrightarrow> n \<le> cl_maxIP l)) (cl_perIP ?l')"
    using assms(1) per_ip_bound[OF assms(1), of k] pos by (cases "per_ip l k \<le> 1") (fastforce simp: cl_ok_def list_all_iff)+
  then show ?thesis
    using held dist' tot assms by (auto simp: cl_ok_def cl_release_def[of k l] size_Diff_singleton of_nat_diff)
qed

interpretation cl: slot_pool cl_acquire cl_release cl_held cl_ok
  using cl_acquire_held cl_release_held by unfold_locales blast+

section \<open>The listener under any traffic\<close>

text \<open>Connections arrive and close in any order; a connection number is not reused while open.\<close>

inductive gate_run ::
  "(string \<Rightarrow> ip option) \<Rightarrow> (ip \<Rightarrow> string) \<Rightarrow> IPNet list option \<Rightarrow> int \<Rightarrow> int \<Rightarrow> gate \<Rightarrow> bool"
  for parse_ip show_ip proxy maxPerIP maxTotal where
  start: "gate_run parse_ip show_ip proxy maxPerIP maxTotal
            \<lparr> gt_limiter = newConnLimiter maxPerIP maxTotal, gt_open = [] \<rparr>"
| accept: "gate_run parse_ip show_ip proxy maxPerIP maxTotal g \<Longrightarrow> conn \<notin> fst ` set (gt_open g) \<Longrightarrow>
            gate_run parse_ip show_ip proxy maxPerIP maxTotal
              (snd (gate_Accept parse_ip show_ip proxy conn peer ending input g))"
| close: "gate_run parse_ip show_ip proxy maxPerIP maxTotal g \<Longrightarrow>
            gate_run parse_ip show_ip proxy maxPerIP maxTotal (gate_Close conn g)"

lemma newConnLimiter_ok: "cl_ok (newConnLimiter maxPerIP maxTotal) \<and> cl_held (newConnLimiter maxPerIP maxTotal) = {#}"
  by (simp add: cl_ok_def cl_held_def newConnLimiter_def)

lemma cl_limits_fixed [simp]:
  "cl_maxIP (cl_release k l) = cl_maxIP l" "cl_maxAll (cl_release k l) = cl_maxAll l"
  by (simp_all add: cl_release_def)

lemma cl_acquire_limits:
  "cl_acquire k l = Some l' \<Longrightarrow> cl_maxIP l' = cl_maxIP l \<and> cl_maxAll l' = cl_maxAll l"
  by (auto simp: cl_acquire_def split: if_splits)

lemma delete_remove1:
  assumes "distinct (map fst al)" "map_of al c = Some k"
  shows "AList.delete c al = remove1 (c, k) al"
  using assms
proof (induction al)
  case (Cons x al)
  show ?case
  proof (cases "fst x = c")
    case True
    then have "c \<notin> fst ` set al" using Cons.prems(1) by auto
    then show ?thesis using True Cons.prems(2) by (cases x) auto
  next
    case False
    then show ?thesis using Cons by (cases x) auto
  qed
qed simp

definition gate_ok :: "int \<Rightarrow> int \<Rightarrow> gate \<Rightarrow> bool" where
  "gate_ok maxPerIP maxTotal g =
    (cl.tracks (gt_limiter g) (gt_open g) \<and> distinct (map fst (gt_open g)) \<and>
     cl_maxIP (gt_limiter g) = maxPerIP \<and> cl_maxAll (gt_limiter g) = maxTotal)"

lemma gate_Accept_ok:
  assumes "gate_ok maxPerIP maxTotal g" "conn \<notin> fst ` set (gt_open g)"
  shows "gate_ok maxPerIP maxTotal (snd (gate_Accept parse_ip show_ip proxy conn peer ending input g))"
proof (cases "cl_acquire (addrKey show_ip peer) (gt_limiter g)")
  case None
  then show ?thesis using assms by (simp add: gate_Accept_def)
next
  case (Some l)
  let ?key = "addrKey show_ip peer"
  have "cl.tracks l ((conn, ?key) # gt_open g)" "cl.tracks (cl_release ?key l) (gt_open g)"
    using assms(1) cl.tracks_open[OF _ Some] cl.tracks_refused[OF _ Some] by (auto simp: gate_ok_def)
  then show ?thesis
    using assms cl_acquire_limits[OF Some]
    by (auto simp: gate_Accept_def gate_ok_def Some Let_def split: option.split sum.split)
qed

lemma gate_Close_ok:
  assumes "gate_ok maxPerIP maxTotal g"
  shows "gate_ok maxPerIP maxTotal (gate_Close conn g)"
proof (cases "map_of (gt_open g) conn")
  case None
  then show ?thesis using assms by (simp add: gate_Close_def)
next
  case (Some k)
  have "AList.delete conn (gt_open g) = remove1 (conn, k) (gt_open g)"
    using assms Some by (simp add: gate_ok_def delete_remove1)
  moreover have "cl.tracks (cl_release k (gt_limiter g)) (remove1 (conn, k) (gt_open g))"
    using assms Some by (intro cl.tracks_close) (auto simp: gate_ok_def dest: map_of_SomeD)
  moreover have "distinct (map fst (AList.delete conn (gt_open g)))"
    using assms by (simp add: gate_ok_def distinct_delete)
  ultimately show ?thesis using assms by (simp add: gate_Close_def gate_ok_def Some)
qed

lemma gate_run_ok: "gate_run parse_ip show_ip proxy maxPerIP maxTotal g \<Longrightarrow> gate_ok maxPerIP maxTotal g"
proof (induction rule: gate_run.induct)
  case start
  show ?case using newConnLimiter_ok[of maxPerIP maxTotal]
    by (simp add: gate_ok_def cl.tracks_def newConnLimiter_def)
qed (simp_all add: gate_Accept_ok gate_Close_ok)

text \<open>C28: In every state the listener can reach, through any sequence of accepted, refused and closed
  connections, the limiter's counters are exactly the open connections, in total and for every client
  address, so no slot leaks and none is released twice, and neither the total limit nor the limit per
  address, when set, is exceeded.\<close>

theorem gate_limits:
  assumes "gate_run parse_ip show_ip proxy maxPerIP maxTotal g"
  shows "cl_total (gt_limiter g) = int (length (gt_open g)) \<and>
    per_ip (gt_limiter g) key = int (length (filter (\<lambda>c. snd c = key) (gt_open g))) \<and>
    (maxTotal > 0 \<longrightarrow> int (length (gt_open g)) \<le> maxTotal) \<and>
    (maxPerIP > 0 \<longrightarrow> int (length (filter (\<lambda>c. snd c = key) (gt_open g))) \<le> maxPerIP)"
proof -
  have ok: "cl_ok (gt_limiter g)" and held: "cl_held (gt_limiter g) = mset (map snd (gt_open g))"
    and lim: "cl_maxIP (gt_limiter g) = maxPerIP" "cl_maxAll (gt_limiter g) = maxTotal"
    using gate_run_ok[OF assms] by (auto simp: gate_ok_def cl.tracks_def)
  have "count (mset (map snd (gt_open g))) key = length (filter (\<lambda>c. snd c = key) (gt_open g))"
    by (simp add: count_mset count_list_eq_length_filter filter_map comp_def eq_commute del: mset_map)
  then have "nat (per_ip (gt_limiter g) key) = length (filter (\<lambda>c. snd c = key) (gt_open g))"
    using ok held count_cl_held[of "gt_limiter g" key] by (simp add: cl_ok_def)
  then have per: "per_ip (gt_limiter g) key = int (length (filter (\<lambda>c. snd c = key) (gt_open g)))"
    using per_ip_nonneg[OF ok, of key] by linarith
  have tot: "cl_total (gt_limiter g) = int (length (gt_open g))"
    using ok held by (simp add: cl_ok_def)
  have "maxPerIP > 0 \<Longrightarrow> per_ip (gt_limiter g) key \<le> maxPerIP"
    using per_ip_bound[OF ok, of key] lim by simp
  moreover have "maxTotal > 0 \<Longrightarrow> cl_total (gt_limiter g) \<le> maxTotal" using ok lim by (simp add: cl_ok_def)
  ultimately show ?thesis using tot per by simp
qed

definition sample_gate_states :: "gate list" where
  "sample_gate_states =
    (let show_ip = (\<lambda>_. ''10.0.0.9'');
         g0 = \<lparr> gt_limiter = newConnLimiter 2 3, gt_open = [] \<rparr>;
         accept = (\<lambda>c g. snd (gate_Accept (\<lambda>_. None) show_ip None c (Some (TCPAddr [10, 0, 0, 9] 5000)) StreamEOF [] g));
         g1 = accept 1 g0; g2 = accept 2 g1; g3 = accept 3 g2; g4 = gate_Close 1 g3; g5 = gate_Close 1 g4
     in [g1, g2, g3, g4, g5])"

theorem gate_limits_witness:
  "map (\<lambda>g. map fst (gt_open g)) sample_gate_states = [[1], [2, 1], [2, 1], [2], [2]] \<and>
   (\<exists>g. g = sample_gate_states ! 4 \<and> cl_total (gt_limiter g) = int (length (gt_open g)))"
proof -
  let ?g0 = "\<lparr> gt_limiter = newConnLimiter 2 3, gt_open = [] \<rparr>"
  let ?p = "Some (TCPAddr [10, 0, 0, 9] 5000)"
  let ?run = "gate_run (\<lambda>_. None) (\<lambda>_. ''10.0.0.9'') None 2 3"
  let ?acc = "\<lambda>c g. snd (gate_Accept (\<lambda>_. None) (\<lambda>_. ''10.0.0.9'') None c ?p StreamEOF [] g)"
  have opens: "map (\<lambda>g. map fst (gt_open g)) sample_gate_states = [[1], [2, 1], [2, 1], [2], [2]]" by code_simp
  have g: "sample_gate_states ! 0 = ?acc 1 ?g0" "sample_gate_states ! 1 = ?acc 2 (sample_gate_states ! 0)"
    "sample_gate_states ! 2 = ?acc 3 (sample_gate_states ! 1)"
    "sample_gate_states ! 3 = gate_Close 1 (sample_gate_states ! 2)"
    "sample_gate_states ! 4 = gate_Close 1 (sample_gate_states ! 3)"
    by (simp_all add: sample_gate_states_def Let_def)
  have o: "map fst (gt_open (sample_gate_states ! 0)) = [1]" "map fst (gt_open (sample_gate_states ! 1)) = [2, 1]"
    by code_simp+
  have r0: "?run (sample_gate_states ! 0)" unfolding g(1) by (rule gate_run.accept[OF gate_run.start]) simp
  have r1: "?run (sample_gate_states ! 1)" unfolding g(2)
    by (rule gate_run.accept[OF r0]) (simp only: set_map[symmetric] o; simp)
  have r2: "?run (sample_gate_states ! 2)" unfolding g(3)
    by (rule gate_run.accept[OF r1]) (simp only: set_map[symmetric] o; simp)
  have "?run (sample_gate_states ! 4)" unfolding g(4,5) by (intro gate_run.close r2)
  from gate_limits[OF this] opens show ?thesis by blast
qed

section \<open>Who may set the client address\<close>

text \<open>C29: With the PROXY protocol on, a peer outside the trusted networks cannot choose the address it is
  seen with: if its connection is accepted at all, the address reported is its own, its bytes reach the
  SMTP server unchanged, and they do not begin with a PROXY header.\<close>

theorem proxy_only_trusted:
  assumes "fst (gate_Accept parse_ip show_ip (Some trusted) conn peer ending input g) = Accepted addr rest"
    and "\<not> trusts parse_ip trusted peer"
  shows "addr = peer \<and> rest = input \<and> \<not> HasPrefix input proxyV1Prefix \<and> \<not> HasPrefix input proxyV2Sig"
proof -
  have sig: "length proxyV2Sig = 12" "length proxyV1Prefix = 6" by (simp_all add: proxyV2Sig_def proxyV1Prefix_def)
  have "handshake parse_ip show_ip trusted peer ending input = Inr (addr, rest)"
    using assms(1) by (auto simp: gate_Accept_def Let_def split: option.splits sum.splits)
  then show ?thesis
    using assms(2) by (auto simp: handshake_def Let_def HasPrefix_def sig min_def split: if_splits)
qed

definition sample_trusted :: "IPNet list" where
  "sample_trusted = [\<lparr> net_IP = [10, 0, 0, 0], net_Mask = [255, 255, 255, 0] \<rparr>]"

theorem proxy_only_trusted_witness:
  "fst (gate_Accept (\<lambda>_. None) (\<lambda>_. ''192.0.2.1'') (Some sample_trusted) 1 (Some (TCPAddr [192, 0, 2, 1] 4000)) StreamEOF
      ''EHLO device.example'' \<lparr> gt_limiter = newConnLimiter 2 3, gt_open = [] \<rparr>) =
      Accepted (Some (TCPAddr [192, 0, 2, 1] 4000)) ''EHLO device.example'' \<and>
   \<not> HasPrefix ''EHLO device.example'' proxyV1Prefix"
proof -
  have 1: "fst (gate_Accept (\<lambda>_. None) (\<lambda>_. ''192.0.2.1'') (Some sample_trusted) 1 (Some (TCPAddr [192, 0, 2, 1] 4000)) StreamEOF
      ''EHLO device.example'' \<lparr> gt_limiter = newConnLimiter 2 3, gt_open = [] \<rparr>) =
      Accepted (Some (TCPAddr [192, 0, 2, 1] 4000)) ''EHLO device.example''" by code_simp
  have 2: "\<not> trusts (\<lambda>_. None) sample_trusted (Some (TCPAddr [192, 0, 2, 1] 4000))" by code_simp
  from proxy_only_trusted[OF 1 2] 1 show ?thesis by blast
qed

section \<open>Reading the headers back\<close>

text \<open>The headers a proxy writes, by the PROXY protocol's specification.\<close>

definition proxy_v1_header :: "string \<Rightarrow> string \<Rightarrow> string \<Rightarrow> nat \<Rightarrow> nat \<Rightarrow> string" where
  "proxy_v1_header proto src dst sport dport =
    ''PROXY '' @ proto @ '' '' @ src @ '' '' @ dst @ '' '' @ Itoa sport @ '' '' @ Itoa dport @ [CR, LF]"

definition word16 :: "nat \<Rightarrow> string" where
  "word16 n = [char_of (n div 256), char_of (n mod 256)]"

definition proxy_v2_header :: "ip \<Rightarrow> ip \<Rightarrow> nat \<Rightarrow> nat \<Rightarrow> string \<Rightarrow> string" where
  "proxy_v2_header src dst sport dport tlvs =
    (let body = map (\<lambda>w. char_of (unat w)) (src @ dst) @ word16 sport @ word16 dport @ tlvs
     in proxyV2Sig @ [char_of (0x21 :: nat), char_of (if length src = 4 then 0x11 else 0x21 :: nat)] @
        word16 (length body) @ body)"

definition plain_field :: "string \<Rightarrow> bool" where
  "plain_field s = (s \<noteq> [] \<and> list_all (\<lambda>c. c \<noteq> CHR '' '' \<and> c \<noteq> CR \<and> c \<noteq> LF) s)"

lemma scanFields_plain:
  "list_all (\<lambda>c. c \<noteq> CHR '' '') f \<Longrightarrow> scanFields cur (f @ rest) = scanFields (cur @ f) rest"
  by (induction f arbitrary: cur) auto

lemma scanFields_field: "plain_field f \<Longrightarrow> scanFields [] (f @ CHR '' '' # rest) = f # scanFields [] rest"
  by (simp add: scanFields_plain plain_field_def list_all_iff)

lemma scanFields_last: "plain_field f \<Longrightarrow> scanFields [] f = [f]"
  using scanFields_plain[of f "[]" "[]"] by (simp add: plain_field_def list_all_iff)

lemma plain_Itoa: "plain_field (Itoa n)"
proof -
  have "c \<noteq> CHR '' '' \<and> c \<noteq> CR \<and> c \<noteq> LF" if "is_digit c" for c
    using that by (auto simp: is_digit_def CR_def LF_def)
  then show ?thesis using Itoa_digits[of n] by (simp add: plain_field_def list_all_iff del: Itoa_digits)
qed

lemma Atoi_Itoa: "n \<le> 65535 \<Longrightarrow> Atoi (Itoa n) = Some (int n)"
proof -
  assume n: "n \<le> 65535"
  obtain c cs where c: "Itoa n = c # cs" by (cases "Itoa n") auto
  then have "is_digit c" using Itoa_digits[of n] by (simp del: Itoa_digits)
  then have "c \<noteq> CHR ''-''" "c \<noteq> CHR ''+''" by (auto simp: is_digit_def)
  then show ?thesis using n c ParseDigits_Itoa[of n]
    by (simp add: Atoi_def HasPrefix_def int64_min_def int64_max_def del: ParseDigits_Itoa)
qed

lemma TrimNewlines_snoc: "plain_field f \<Longrightarrow> TrimNewlines (a @ f @ [CR, LF]) = a @ f"
proof -
  assume "plain_field f"
  then obtain g c where "f = g @ [c]" "c \<noteq> CR" "c \<noteq> LF"
    by (cases f rule: rev_cases) (auto simp: plain_field_def)
  then show ?thesis by (simp add: TrimNewlines_def)
qed

lemma splitFields_v1:
  assumes "plain_field proto" "plain_field src" "plain_field dst"
  shows "splitFields (proxy_v1_header proto src dst sport dport) =
    [''PROXY'', proto, src, dst, Itoa sport, Itoa dport]"
proof -
  let ?a = "''PROXY'' @ CHR '' '' # proto @ CHR '' '' # src @ CHR '' '' # dst @ CHR '' '' # Itoa sport @ '' ''"
  have "proxy_v1_header proto src dst sport dport = ?a @ Itoa dport @ [CR, LF]"
    by (simp add: proxy_v1_header_def)
  then have "splitFields (proxy_v1_header proto src dst sport dport) = scanFields [] (?a @ Itoa dport)"
    using TrimNewlines_snoc[OF plain_Itoa] unfolding splitFields_def by metis
  also have "?a @ Itoa dport = ''PROXY'' @ CHR '' '' # proto @ CHR '' '' # src @ CHR '' '' # dst @ CHR '' '' #
      Itoa sport @ CHR '' '' # Itoa dport" by simp
  also have "scanFields [] \<dots> = ''PROXY'' # scanFields [] (proto @ CHR '' '' # src @ CHR '' '' # dst @ CHR '' '' #
      Itoa sport @ CHR '' '' # Itoa dport)" by (rule scanFields_field) code_simp
  finally show ?thesis
    by (simp only: scanFields_field[OF assms(1)] scanFields_field[OF assms(2)] scanFields_field[OF assms(3)]
        scanFields_field[OF plain_Itoa] scanFields_last[OF plain_Itoa])
qed

lemma LF_first: "plain_field proto \<Longrightarrow> plain_field src \<Longrightarrow> plain_field dst \<Longrightarrow>
  IndexByte (proxy_v1_header proto src dst sport dport @ rest) LF =
    Some (length (proxy_v1_header proto src dst sport dport) - 1)"
proof -
  assume f: "plain_field proto" "plain_field src" "plain_field dst"
  have no: "LF \<notin> set s" if "plain_field s" for s using that by (auto simp: plain_field_def list_all_iff)
  let ?l = "''PROXY '' @ proto @ '' '' @ src @ '' '' @ dst @ '' '' @ Itoa sport @ '' '' @ Itoa dport @ [CR]"
  have *: "IndexByte (a @ c # b) c = Some (length a)" if "c \<notin> set a" for a b c
    using that by (induction a) auto
  have "LF \<notin> set ''PROXY ''" "LF \<noteq> CR" by code_simp+
  then have "LF \<notin> set ?l" using no[OF f(1)] no[OF f(2)] no[OF f(3)] no[OF plain_Itoa[of sport]] no[OF plain_Itoa[of dport]]
    by simp
  then have "IndexByte (?l @ LF # rest) LF = Some (length ?l)" by (rule *)
  moreover have "proxy_v1_header proto src dst sport dport @ rest = ?l @ LF # rest"
    "length (proxy_v1_header proto src dst sport dport) - 1 = length ?l" by (simp_all add: proxy_v1_header_def)
  ultimately show ?thesis by metis
qed

lemma header_lengths: "length proxyV2Sig = 12" "length proxyV1Prefix = 6"
  by (simp_all add: proxyV2Sig_def proxyV1Prefix_def)

lemma handshake_v1:
  assumes "trusts parse_ip trusted peer" "12 \<le> length input" "take 6 input = proxyV1Prefix"
    and "parseProxyV1 parse_ip input = Inr (Some a, rest)"
  shows "handshake parse_ip show_ip trusted peer ending input = Inr (Some a, rest)"
  using assms by (simp add: handshake_def Let_def header_lengths)

lemma handshake_v2:
  assumes "trusts parse_ip trusted peer" "take 12 input = proxyV2Sig"
    and "parseProxyV2 input = Inr (Some a, rest)"
  shows "handshake parse_ip show_ip trusted peer ending input = Inr (Some a, rest)"
proof -
  have "take 6 proxyV2Sig \<noteq> proxyV1Prefix" by code_simp
  moreover have "take 6 input = take 6 proxyV2Sig" unfolding assms(2)[symmetric] by (simp add: min_def)
  moreover have "12 \<le> length input" using arg_cong[OF assms(2), of length] by (simp add: header_lengths)
  ultimately show ?thesis using assms by (simp add: handshake_def Let_def header_lengths)
qed

lemma v1_header_Cons: "proxy_v1_header proto src dst sport dport \<noteq> []"
  by (simp add: proxy_v1_header_def)

text \<open>A version 1 header written by a trusted proxy is read back exactly: the connection is seen with
  the source address and port the header names, and the SMTP server reads the bytes after the header.\<close>

theorem proxy_v1_roundtrip:
  assumes "trusts parse_ip trusted peer" and "plain_field proto" "plain_field src" "plain_field dst"
    and "proto \<noteq> ''UNKNOWN''" and "parse_ip src = Some i" and "sport \<le> 65535"
    and "length (proxy_v1_header proto src dst sport dport) \<le> 107"
  shows "handshake parse_ip show_ip trusted peer ending (proxy_v1_header proto src dst sport dport @ rest) =
    Inr (Some (TCPAddr i (int sport)), rest)"
proof -
  let ?h = "proxy_v1_header proto src dst sport dport"
  have n: "length ?h - 1 + 1 = length ?h" using v1_header_Cons[of proto src dst sport dport] by (cases ?h) auto
  have "parseProxyV1 parse_ip (?h @ rest) = Inr (Some (TCPAddr i (int sport)), rest)"
    unfolding parseProxyV1_def LF_first[OF assms(2-4)] using assms(5-8)
    by (simp only: option.case n Let_def) (simp add: splitFields_v1[OF assms(2-4)] proxyV1MaxLen_def Atoi_Itoa)
  moreover have "length ?h \<ge> 12" using assms(2-4)
    by (cases proto; cases src; cases dst; cases "Itoa sport"; cases "Itoa dport")
      (simp_all add: proxy_v1_header_def plain_field_def)
  moreover have "take 6 (?h @ rest) = ''PROXY ''" by (simp add: proxy_v1_header_def)
  ultimately show ?thesis
    by (intro handshake_v1 assms(1)) (simp_all add: proxyV1Prefix_def del: take_append)
qed

theorem proxy_v1_roundtrip_witness:
  "handshake (\<lambda>_. Some [192, 0, 2, 1]) (\<lambda>_. ''10.0.0.2'') sample_trusted (Some (TCPAddr [10, 0, 0, 2] 9)) StreamDeadline
     (''PROXY TCP4 192.0.2.1 198.51.100.1 56324 587'' @ [CR, LF] @ ''EHLO a'') =
   Inr (Some (TCPAddr [192, 0, 2, 1] 56324), ''EHLO a'')"
proof -
  have h: "proxy_v1_header ''TCP4'' ''192.0.2.1'' ''198.51.100.1'' 56324 587 =
      ''PROXY TCP4 192.0.2.1 198.51.100.1 56324 587'' @ [CR, LF]"
    by (simp add: proxy_v1_header_def Itoa.simps digit_char_def) code_simp
  have t: "trusts (\<lambda>_. Some [192, 0, 2, 1]) sample_trusted (Some (TCPAddr [10, 0, 0, 2] 9))" by code_simp
  have f: "plain_field ''TCP4''" "plain_field ''192.0.2.1''" "plain_field ''198.51.100.1''" by code_simp+
  show ?thesis
    using proxy_v1_roundtrip[OF t f, of "[192, 0, 2, 1]" 56324 587 "\<lambda>_. ''10.0.0.2''" StreamDeadline "''EHLO a''"] h by simp
qed

lemma byte_roundtrip: "(of_nat (unat w mod 256) :: 8 word) = w"
proof -
  have "unat w < 256" using unsigned_less[of w] by simp
  then show ?thesis by simp
qed

text \<open>A version 2 header written by a trusted proxy for a TCP connection over IPv4 or IPv6, with any
  extension data after the addresses, is read back exactly.\<close>

theorem proxy_v2_roundtrip:
  assumes "trusts parse_ip trusted peer" and "length src = 4 \<or> length src = 16" and "length dst = length src"
    and "sport \<le> 65535" "dport \<le> 65535" and "length tlvs \<le> 65000"
  shows "handshake parse_ip show_ip trusted peer ending (proxy_v2_header src dst sport dport tlvs @ rest) =
    Inr (Some (TCPAddr src (int sport)), rest)"
proof -
  define body where "body = map (\<lambda>w. char_of (unat w)) (src @ dst) @ word16 sport @ word16 dport @ tlvs"
  define fam where "fam = (if length src = 4 then 0x11 else 0x21 :: nat)"
  let ?h = "proxyV2Sig @ [char_of (0x21 :: nat), char_of fam] @ word16 (length body) @ body"
  have h: "proxy_v2_header src dst sport dport tlvs = ?h" by (simp add: proxy_v2_header_def body_def fam_def Let_def)
  have len: "length body < 65536" "length body \<ge> 2 * length src + 4"
    using assms(2,3,6) by (auto simp: body_def word16_def)
  have be: "be16 (word16 n @ s) = n" if "n < 65536" for n s
    using that by (simp add: be16_def word16_def)
  have "map byte_word (take (length src) body) = src"
    by (simp add: body_def byte_word_def comp_def byte_roundtrip)
  moreover have "be16 (drop (2 * length src) body) = sport"
    using assms(3,4) be[of sport "word16 dport @ tlvs"] by (simp add: body_def)
  moreover have "be16 (take 2 (drop 14 (take 16 (?h @ rest)))) = length body"
    using be[OF len(1), of "[]"] by (simp add: proxyV2Sig_def word16_def)
  ultimately have "parseProxyV2 (?h @ rest) = Inr (Some (TCPAddr src (int sport)), rest)"
    using assms(2) len
    by (auto simp: parseProxyV2_def Let_def proxyV2HeaderLen_def proxyV2Sig_def word16_def fam_def)
  then show ?thesis unfolding h by (intro handshake_v2 assms(1)) (simp_all add: header_lengths)
qed

theorem proxy_v2_roundtrip_witness:
  "handshake (\<lambda>_. None) (\<lambda>_. ''10.0.0.2'') sample_trusted (Some (TCPAddr [10, 0, 0, 2] 9)) StreamDeadline
     (proxy_v2_header [192, 0, 2, 1] [198, 51, 100, 1] 56324 587 ''tlv'' @ ''EHLO a'') =
   Inr (Some (TCPAddr [192, 0, 2, 1] 56324), ''EHLO a'')"
proof -
  have t: "trusts (\<lambda>_. None) sample_trusted (Some (TCPAddr [10, 0, 0, 2] 9))" by code_simp
  show ?thesis
    using proxy_v2_roundtrip[OF t, of "[192, 0, 2, 1]" "[198, 51, 100, 1]" 56324 587 "''tlv''" "\<lambda>_. ''10.0.0.2''" StreamDeadline
      "''EHLO a''"] by simp
qed

text \<open>A client that connects directly and, as SMTP asks, waits for the greeting before it speaks sends no
  bytes before the deadline: with the PROXY protocol on it is rejected, although the comment on
  \<^verbatim>\<open>handshake\<close> says that a connection without a header is fine.\<close>

theorem waiting_client_rejected:
  assumes "length input < 12"
  shows "fst (gate_Accept parse_ip show_ip (Some trusted) conn peer StreamDeadline input g) \<in>
    {Refused, RejectedProxy ErrProxyTimeout}"
  using assms by (auto simp: gate_Accept_def Let_def handshake_def header_lengths split: option.split)

end
