(* ===== verification/SmtpSession.thy ===== *)
theory SmtpSession
  imports Policy Headers Gate
begin

text \<open>
  One SMTP connection: \<^verbatim>\<open>src/internal/smtpsrv/session.go\<close>, \<^verbatim>\<open>auth.go\<close>,
  \<^verbatim>\<open>sasl_login.go\<close>, \<^verbatim>\<open>submission.go\<close> and the parts of \<^verbatim>\<open>server.go\<close> a session reads.

  The fields of \<^verbatim>\<open>session\<close> are the record \<open>session\<close>; what it reads from the connection
  (TLS state, HELO name) is kept there too, and closing the connection sets \<open>sn_closed\<close>.  The
  \<^verbatim>\<open>Authenticator\<close> and the \<^verbatim>\<open>Submitter\<close> are arguments that act on a state of any
  type.  The standard library's address and IP functions, the clock's formatting and the version
  string and the text of errors are the record \<open>env\<close>.  A handler returns Go's error as an \<^typ>\<open>'a option\<close>.

  The library that speaks the protocol calls the handlers; the relation \<open>session_step\<close> allows
  every order of calls that SMTP allows.
\<close>

section \<open>Types\<close>

datatype smtp_err =
    SMTPError int "(int \<times> int \<times> int) option" string
  | ErrAuthFailed
  | LoginFinished
  | SessionPanic

record Identity =
  id_AccountID :: string
  id_Username :: string
  id_Account :: Account
  id_Mailboxes :: "Mailbox list"

record Submission =
  sub_Identity :: Identity
  sub_Mailbox :: Mailbox
  sub_EnvelopeFrom :: Address
  sub_HeaderFrom :: Address
  sub_Recipients :: "string list"
  sub_Raw :: string
  sub_Subject :: string
  sub_MessageID :: string
  sub_ClientIP :: "ip option"
  sub_ClientHelo :: string
  sub_TLS :: bool
  sub_ReceivedAt :: instant

record server =
  sv_hostname :: string
  sv_allowInsecureAuth :: bool
  sv_requireTLS :: bool
  sv_recordSubjects :: bool
  sv_maxMessageBytes :: int
  sv_maxRecipients :: int
  sv_maxAuthFailures :: int

record session =
  sn_remote :: "net_addr option"
  sn_tls :: bool
  sn_helo :: string
  sn_closed :: bool
  sn_identity :: "Identity option"
  sn_authFailures :: int
  sn_envelopeFrom :: Address
  sn_recipients :: "string list"

record env =
  ev_parse_ip :: "string \<Rightarrow> ip option"
  ev_show_ip :: "ip \<Rightarrow> string"
  ev_mail_parse :: "string \<Rightarrow> mail_address option"
  ev_mail_parse_list :: "string \<Rightarrow> mail_address list option"
  ev_mail_string :: "mail_address \<Rightarrow> string"
  ev_UserAgent :: string
  ev_RFC1123Z :: "instant \<Rightarrow> string"
  ev_header_Error :: "header_error \<Rightarrow> string"
  ev_policy_Error :: "policy_error \<Rightarrow> string"

type_synonym ('e, 'w) Authenticator = "string \<Rightarrow> string \<Rightarrow> ip option \<Rightarrow> 'w \<Rightarrow> ('e, Identity) result \<times> 'w"
type_synonym ('f, 'w) Submitter = "Submission \<Rightarrow> 'w \<Rightarrow> ('f, string) result \<times> 'w"

section \<open>The server\<close>

text \<open>\<^verbatim>\<open>New\<close>: the checks on the options, and the settings the sessions read.\<close>

datatype ListenerTLS = TLSNone | TLSStartTLS | TLSImplicit

record Listener =
  li_Address :: string
  li_TLS :: ListenerTLS
  li_RequireTLS :: bool

record ServerOptions =
  opt_Hostname :: string
  opt_Listeners :: "Listener list"
  opt_TLSConfig :: bool
  opt_MaxMessageBytes :: int
  opt_MaxRecipients :: int
  opt_MaxConnections :: int
  opt_MaxConnectionsPerIP :: int
  opt_MaxAuthFailures :: int
  opt_AllowInsecureAuth :: bool
  opt_RecordSubjects :: bool
  opt_Auth :: bool
  opt_Submitter :: bool

definition Server_New :: "ServerOptions \<Rightarrow> (string, server \<times> connLimiter) result" where
  "Server_New opts =
    (if \<not> opt_Auth opts then Inl ''smtpsrv: an Authenticator is required''
     else if \<not> opt_Submitter opts then Inl ''smtpsrv: a Submitter is required''
     else if opt_Listeners opts = [] then Inl ''smtpsrv: at least one listener is required''
     else
       (case find (\<lambda>l. li_TLS l \<noteq> TLSNone \<and> \<not> opt_TLSConfig opts) (opt_Listeners opts) of
          Some l \<Rightarrow> Inl (''smtpsrv: listener '' @ li_Address l @ '' uses TLS but no certificate was provided'')
        | None \<Rightarrow>
            Inr (\<lparr> sv_hostname = opt_Hostname opts, sv_allowInsecureAuth = opt_AllowInsecureAuth opts,
                   sv_requireTLS = list_ex li_RequireTLS (opt_Listeners opts),
                   sv_recordSubjects = opt_RecordSubjects opts, sv_maxMessageBytes = opt_MaxMessageBytes opts,
                   sv_maxRecipients = opt_MaxRecipients opts, sv_maxAuthFailures = opt_MaxAuthFailures opts \<rparr>,
                 newConnLimiter (opt_MaxConnectionsPerIP opts) (opt_MaxConnections opts))))"

definition NewSession :: "net_addr option \<Rightarrow> bool \<Rightarrow> string \<Rightarrow> session" where
  "NewSession remote tls helo =
    \<lparr> sn_remote = remote, sn_tls = tls, sn_helo = helo, sn_closed = False, sn_identity = None,
      sn_authFailures = 0, sn_envelopeFrom = empty_address, sn_recipients = [] \<rparr>"

section \<open>Authentication\<close>

definition AuthMechanisms :: "server \<Rightarrow> session \<Rightarrow> string list" where
  "AuthMechanisms sv s =
    (if \<not> sn_tls s \<and> \<not> sv_allowInsecureAuth sv then [] else [''PLAIN'', ''LOGIN''])"

definition recordAuthFailure :: "server \<Rightarrow> session \<Rightarrow> session" where
  "recordAuthFailure sv s =
    (let n = sn_authFailures s + 1 in
     s\<lparr> sn_authFailures := n,
        sn_closed := (sn_closed s \<or> (sv_maxAuthFailures sv > 0 \<and> n \<ge> sv_maxAuthFailures sv)) \<rparr>)"

definition authenticate ::
  "('e, 'w) Authenticator \<Rightarrow> env \<Rightarrow> server \<Rightarrow> string \<Rightarrow> string \<Rightarrow> session \<times> 'w \<Rightarrow> smtp_err option \<times> session \<times> 'w" where
  "authenticate auth ev sv username password = (\<lambda>(s, w).
    (case auth username password (remoteIP (ev_parse_ip ev) (sn_remote s)) w of
       (Inl _, w') \<Rightarrow> (Some ErrAuthFailed, recordAuthFailure sv s, w')
     | (Inr identity, w') \<Rightarrow> (None, s\<lparr> sn_identity := Some identity \<rparr>, w')))"

text \<open>The callback given to the library's PLAIN server.\<close>

definition plainCallback ::
  "('e, 'w) Authenticator \<Rightarrow> env \<Rightarrow> server \<Rightarrow> string \<Rightarrow> string \<Rightarrow> string \<Rightarrow> session \<times> 'w \<Rightarrow>
    smtp_err option \<times> session \<times> 'w" where
  "plainCallback auth ev sv identity username password = (\<lambda>(s, w).
    if identity \<noteq> '''' \<and> identity \<noteq> username then (Some ErrAuthFailed, recordAuthFailure sv s, w)
    else authenticate auth ev sv username password (s, w))"

datatype loginState = loginStateUsername | loginStatePassword | loginStateDone

record loginServer =
  ls_state :: loginState
  ls_username :: string

definition newLoginServer :: loginServer where
  "newLoginServer = \<lparr> ls_state = loginStateUsername, ls_username = '''' \<rparr>"

definition maxLoginFieldLen :: int where "maxLoginFieldLen = 1024"

definition response_len :: "string option \<Rightarrow> int" where
  "response_len r = (case r of None \<Rightarrow> 0 | Some s \<Rightarrow> int (length s))"

definition response_bytes :: "string option \<Rightarrow> string" where
  "response_bytes r = (case r of None \<Rightarrow> [] | Some s \<Rightarrow> s)"

text \<open>The challenge, whether the exchange is over, the error, and the new states.\<close>

definition Next ::
  "('e, 'w) Authenticator \<Rightarrow> env \<Rightarrow> server \<Rightarrow> string option \<Rightarrow> loginServer \<Rightarrow> session \<times> 'w \<Rightarrow>
    (string \<times> bool \<times> smtp_err option) \<times> loginServer \<times> session \<times> 'w" where
  "Next auth ev sv response ls c =
    (case ls_state ls of
       loginStateUsername \<Rightarrow>
         if response = None then ((''Username:'', False, None), ls, c)
         else if response_len response > maxLoginFieldLen
         then (([], True, Some ErrAuthFailed), ls\<lparr> ls_state := loginStateDone \<rparr>, c)
         else ((''Password:'', False, None),
               ls\<lparr> ls_username := response_bytes response, ls_state := loginStatePassword \<rparr>, c)
     | loginStatePassword \<Rightarrow>
         if response_len response > maxLoginFieldLen
         then (([], True, Some ErrAuthFailed), ls\<lparr> ls_state := loginStateDone \<rparr>, c)
         else
           (case authenticate auth ev sv (ls_username ls) (response_bytes response) c of
              (e, c') \<Rightarrow> (([], True, e), ls\<lparr> ls_state := loginStateDone \<rparr>, c'))
     | loginStateDone \<Rightarrow> (([], True, Some LoginFinished), ls, c))"

text \<open>The library passes the client's responses to \<^verbatim>\<open>Next\<close> until the exchange is done; a
  client that stops answering leaves it unfinished.\<close>

fun loginExchange ::
  "('e, 'w) Authenticator \<Rightarrow> env \<Rightarrow> server \<Rightarrow> string option list \<Rightarrow> loginServer \<Rightarrow> session \<times> 'w \<Rightarrow>
    smtp_err option option \<times> session \<times> 'w" where
  "loginExchange auth ev sv [] ls c = (None, c)"
| "loginExchange auth ev sv (r # rs) ls c =
    (case Next auth ev sv r ls c of
       ((_, done, e), ls', c') \<Rightarrow> if done then (Some e, c') else loginExchange auth ev sv rs ls' c')"

text \<open>What a client answers to AUTH: the three fields of a PLAIN response, or the responses of a
  LOGIN exchange.\<close>

datatype auth_attempt =
    PlainAuth string string string
  | LoginAuth "string option list"
  | OtherMech string

definition saslServers ::
  "('e, 'w) Authenticator \<Rightarrow> env \<Rightarrow> server \<Rightarrow> auth_attempt \<Rightarrow> session \<times> 'w \<Rightarrow> smtp_err option option \<times> session \<times> 'w" where
  "saslServers auth ev sv attempt c =
    (case attempt of
       PlainAuth identity username password \<Rightarrow>
         (case plainCallback auth ev sv identity username password c of (e, c') \<Rightarrow> (Some e, c'))
     | LoginAuth responses \<Rightarrow> loginExchange auth ev sv responses newLoginServer c
     | OtherMech _ \<Rightarrow> (Some (Some ErrAuthFailed), c))"

definition Auth ::
  "('e, 'w) Authenticator \<Rightarrow> env \<Rightarrow> server \<Rightarrow> auth_attempt \<Rightarrow> session \<times> 'w \<Rightarrow> smtp_err option option \<times> session \<times> 'w" where
  "Auth auth ev sv attempt = (\<lambda>(s, w).
    if \<not> sn_tls s \<and> \<not> sv_allowInsecureAuth sv
    then (Some (Some (SMTPError 538 (Some (5, 7, 11)) ''Encryption required for requested authentication mechanism'')), s, w)
    else saslServers auth ev sv attempt (s, w))"

section \<open>The envelope\<close>

definition errAuthRequired :: smtp_err where
  "errAuthRequired = SMTPError 530 (Some (5, 7, 0)) ''Authentication required''"

definition Mail :: "env \<Rightarrow> server \<Rightarrow> string \<Rightarrow> session \<Rightarrow> smtp_err option \<times> session" where
  "Mail ev sv from s =
    (if sn_identity s = None then (Some errAuthRequired, s)
     else if sv_requireTLS sv \<and> \<not> sn_tls s
     then (Some (SMTPError 530 (Some (5, 7, 0)) ''Must issue a STARTTLS command first''), s)
     else
       (case ParseAddress (ev_mail_parse ev) from of
          Inl _ \<Rightarrow> (Some (SMTPError 501 (Some (5, 1, 7)) ''Bad sender address syntax''), s)
        | Inr addr \<Rightarrow> (None, s\<lparr> sn_envelopeFrom := addr, sn_recipients := [] \<rparr>)))"

definition Rcpt :: "env \<Rightarrow> server \<Rightarrow> string \<Rightarrow> session \<Rightarrow> smtp_err option \<times> session" where
  "Rcpt ev sv to s =
    (if sn_identity s = None then (Some errAuthRequired, s)
     else if int (length (sn_recipients s)) \<ge> sv_maxRecipients sv
     then (Some (SMTPError 452 (Some (4, 5, 3))
             (''Too many recipients; this server accepts at most '' @ Itoa (nat (sv_maxRecipients sv)))), s)
     else
       (case ParseAddress (ev_mail_parse ev) to of
          Inl _ \<Rightarrow> (Some (SMTPError 501 (Some (5, 1, 3)) ''Bad recipient address syntax''), s)
        | Inr addr \<Rightarrow>
            if IsEmpty addr then (Some (SMTPError 501 (Some (5, 1, 3)) ''Bad recipient address syntax''), s)
            else (None, s\<lparr> sn_recipients := sn_recipients s @ [ad_Original addr] \<rparr>)))"

definition Reset :: "session \<Rightarrow> session" where
  "Reset s = s\<lparr> sn_envelopeFrom := empty_address, sn_recipients := [] \<rparr>"

definition Logout :: "session \<Rightarrow> session" where
  "Logout s = Reset s"

section \<open>Reading the message\<close>

text \<open>The reader the library hands to \<^verbatim>\<open>Data\<close>: the pieces that arrive, how they end, and
  whether the end is reported together with the last piece or by a read of its own (\<^verbatim>\<open>io.Reader\<close>
  allows both).\<close>

datatype read_end = ReadEOF | ReadFailed

record source =
  so_pieces :: "string list"
  so_end :: read_end
  so_joined :: bool

definition reader_Read :: "int \<Rightarrow> source \<Rightarrow> string \<times> read_end option \<times> source" where
  "reader_Read n src =
    (case so_pieces src of
       [] \<Rightarrow> ([], Some (so_end src), src)
     | p # ps \<Rightarrow>
         if int (length p) \<le> n
         then (p, if ps = [] \<and> so_joined src then Some (so_end src) else None, src\<lparr> so_pieces := ps \<rparr>)
         else (take (nat n) p, None, src\<lparr> so_pieces := drop (nat n) p # ps \<rparr>))"

definition readChunk :: int where "readChunk = 32 * 1024"

text \<open>The loop; \<open>left\<close> is what the \<^verbatim>\<open>io.LimitReader\<close> still lets through.\<close>

function readLoop :: "int \<Rightarrow> int \<Rightarrow> string \<Rightarrow> source \<Rightarrow> (smtp_err, string) result" where
  "readLoop limit left buf src =
    (if left \<le> 0 then Inr buf
     else
       (case reader_Read (min readChunk left) src of
          (data, e, src') \<Rightarrow>
            (case e of
               Some ReadEOF \<Rightarrow> Inr (buf @ data)
             | Some ReadFailed \<Rightarrow>
                 Inl (SMTPError 451 (Some (4, 4, 2)) ''Connection error while reading the message'')
             | None \<Rightarrow>
                 if int (length (buf @ data)) > limit
                 then Inl (SMTPError 552 (Some (5, 3, 4))
                        (''Message exceeds the '' @ Itoa (nat limit) @ '' byte limit''))
                 else readLoop limit (left - int (length data)) (buf @ data) src')))"
  by pat_completeness auto

termination
  by (relation "measure (\<lambda>(limit, left, buf, src). sum_list (map (\<lambda>p. length p + 1) (so_pieces src)))")
    (auto simp: reader_Read_def readChunk_def split: list.splits if_splits)

declare readLoop.simps [simp del]

definition readMessage :: "server \<Rightarrow> source \<Rightarrow> (smtp_err, string) result" where
  "readMessage sv src = readLoop (sv_maxMessageBytes sv) (sv_maxMessageBytes sv + 1) [] src"

section \<open>Accepting a message\<close>

definition receivedHeader :: "env \<Rightarrow> server \<Rightarrow> instant \<Rightarrow> session \<Rightarrow> Identity \<Rightarrow> string" where
  "receivedHeader ev sv now s identity =
    ''from '' @ (if sn_helo s \<noteq> '''' then sanitizeHeaderValue (sn_helo s) else ''unknown'') @
    (case remoteIP (ev_parse_ip ev) (sn_remote s) of None \<Rightarrow> '''' | Some i \<Rightarrow> '' ('' @ ev_show_ip ev i @ '')'') @
    '' by '' @ sv_hostname sv @ '' ('' @ ev_UserAgent ev @ '') with '' @
    (if sn_tls s then ''ESMTPSA'' else ''ESMTPA'') @
    '' id '' @ id_Username identity @ ''; '' @ ev_RFC1123Z ev now"

definition decisionEdits ::
  "env \<Rightarrow> server \<Rightarrow> instant \<Rightarrow> session \<Rightarrow> Identity \<Rightarrow> message \<Rightarrow> Decision \<Rightarrow> Address \<Rightarrow> headerEdit list" where
  "decisionEdits ev sv now s identity parsed d headerFrom =
    [\<lparr> he_Key = ''Received'', he_Value = receivedHeader ev sv now s identity, he_Prepend = True \<rparr>] @
    (if dec_Action d = ActionRewrite
     then [\<lparr> he_Key = ''From'', he_Value = dec_RewriteFrom d, he_Prepend = False \<rparr>,
           \<lparr> he_Key = ''X-Original-From'', he_Value = Address_String (ev_mail_string ev) headerFrom, he_Prepend = False \<rparr>] @
          (if message_Get parsed ''Reply-To'' = '''' \<and> \<not> IsEmpty headerFrom
           then [\<lparr> he_Key = ''Reply-To'', he_Value = Address_String (ev_mail_string ev) headerFrom, he_Prepend = False \<rparr>]
           else [])
     else [])"

text \<open>\<open>order\<close> is the order in which Go iterates over the map of edited fields; \<^const>\<open>None\<close> is the
  panic of \<^verbatim>\<open>MustParseAddress\<close>.\<close>

definition applyDecision ::
  "env \<Rightarrow> server \<Rightarrow> instant \<Rightarrow> string list \<Rightarrow> session \<Rightarrow> Identity \<Rightarrow> message \<Rightarrow> Decision \<Rightarrow> Address \<Rightarrow>
    (string \<times> Address) option" where
  "applyDecision ev sv now order s identity parsed d headerFrom =
    (case (if dec_Action d = ActionRewrite then MustParseAddress (ev_mail_parse ev) (dec_RewriteFrom d)
           else Some headerFrom) of
       None \<Rightarrow> None
     | Some finalFrom \<Rightarrow>
         Some (rewriteHeaders order parsed (decisionEdits ev sv now s identity parsed d headerFrom), finalFrom))"

text \<open>\<^const>\<open>None\<close> is \<^verbatim>\<open>EnhancedCodeNotSet\<close>.\<close>

definition parseEnhanced :: "string \<Rightarrow> (int \<times> int \<times> int) option" where
  "parseEnhanced s =
    (case SplitByte s CHR ''.'' of
       [a, b, c] \<Rightarrow>
         if list_all is_digit a \<and> list_all is_digit b \<and> list_all is_digit c
         then Some (digits_val a, digits_val b, digits_val c) else None
     | _ \<Rightarrow> None)"

text \<open>\<^verbatim>\<open>Data\<close> up to the call of the submitter.\<close>

definition prepareSubmission ::
  "env \<Rightarrow> server \<Rightarrow> instant \<Rightarrow> string list \<Rightarrow> source \<Rightarrow> session \<Rightarrow> (smtp_err, Submission) result" where
  "prepareSubmission ev sv now order src s =
    (case sn_identity s of
       None \<Rightarrow> Inl errAuthRequired
     | Some identity \<Rightarrow>
         if sn_recipients s = [] then Inl (SMTPError 554 (Some (5, 5, 1)) ''No valid recipients'')
         else
           (case readMessage sv src of
              Inl e \<Rightarrow> Inl e
            | Inr raw \<Rightarrow>
                (case parseMessage raw of
                   Inl e \<Rightarrow> Inl (SMTPError 550 (Some (5, 6, 0)) (''Message could not be parsed: '' @ ev_header_Error ev e))
                 | Inr parsed \<Rightarrow>
                     (case (case ParseHeaderFrom (ev_mail_parse ev) (ev_mail_parse_list ev) (message_Get parsed ''From'') of
                              Inl ErrNoAddress \<Rightarrow> Inr empty_address
                            | r \<Rightarrow> r) of
                        Inl e \<Rightarrow> Inl (SMTPError 550 (Some (5, 7, 1)) (''Bad From header: '' @ ev_policy_Error ev e))
                      | Inr headerFrom \<Rightarrow>
                          (case Resolve \<lparr> in_Account = id_Account identity, in_Mailboxes = id_Mailboxes identity,
                                          in_EnvelopeFrom = sn_envelopeFrom s, in_HeaderFrom = headerFrom \<rparr> of
                             None \<Rightarrow> Inl SessionPanic
                           | Some d \<Rightarrow>
                               if Rejected d then Inl (SMTPError (dec_Code d) (parseEnhanced (dec_Enhanced d)) (dec_Reason d))
                               else
                                 (case (applyDecision ev sv now order s identity parsed d headerFrom, dec_Mailbox d) of
                                    (Some (final, finalFrom), Some mb) \<Rightarrow>
                                      Inr \<lparr> sub_Identity = identity, sub_Mailbox = mb, sub_EnvelopeFrom = sn_envelopeFrom s,
                                            sub_HeaderFrom = finalFrom, sub_Recipients = sn_recipients s, sub_Raw = final,
                                            sub_Subject = (if sv_recordSubjects sv then message_Get parsed ''Subject'' else ''''),
                                            sub_MessageID = Trim (message_Get parsed ''Message-Id'') ''<>'',
                                            sub_ClientIP = remoteIP (ev_parse_ip ev) (sn_remote s),
                                            sub_ClientHelo = sn_helo s, sub_TLS = sn_tls s, sub_ReceivedAt = now \<rparr>
                                  | _ \<Rightarrow> Inl SessionPanic))))))"

definition Data ::
  "('f, 'w) Submitter \<Rightarrow> env \<Rightarrow> server \<Rightarrow> instant \<Rightarrow> string list \<Rightarrow> source \<Rightarrow> session \<times> 'w \<Rightarrow>
    smtp_err option \<times> session \<times> 'w" where
  "Data submit ev sv now order src = (\<lambda>(s, w).
    (case prepareSubmission ev sv now order src s of
       Inl e \<Rightarrow> (Some e, s, w)
     | Inr sub \<Rightarrow>
         (case submit sub w of
            (Inl _, w') \<Rightarrow> (Some (SMTPError 451 (Some (4, 3, 0)) ''Could not queue the message; please retry''), s, w')
          | (Inr _, w') \<Rightarrow> (None, s, w'))))"

section \<open>Reading\<close>

lemma reader_Read_cases:
  assumes "0 < n" "reader_Read n src = (data, e, src')"
  obtains (End) "so_pieces src = []" "data = []" "e = Some (so_end src)"
  | (More) "concat (so_pieces src) = data @ concat (so_pieces src')" "e = None" "so_end src' = so_end src"
      "so_joined src' = so_joined src" "int (length data) \<le> n"
  | (Joined) "so_joined src" "data = concat (so_pieces src)" "e = Some (so_end src)" "int (length data) \<le> n"
  using assms by (auto simp: reader_Read_def split: list.splits if_splits)

lemma readLoop_iff:
  assumes "\<not> so_joined src" "int (length buf) \<le> limit" "left = limit + 1 - int (length buf)"
  shows "readLoop limit left buf src = Inr r \<longleftrightarrow>
    so_end src = ReadEOF \<and> r = buf @ concat (so_pieces src) \<and> int (length r) \<le> limit"
  using assms
proof (induction limit left buf src rule: readLoop.induct)
  case (1 limit left buf src)
  obtain data e src' where r: "reader_Read (min readChunk left) src = (data, e, src')" by (cases "reader_Read (min readChunk left) src")
  have pos: "0 < min readChunk left" "0 < left" using 1 by (auto simp: readChunk_def)
  from pos(1) r show ?case
  proof (cases rule: reader_Read_cases)
    case End
    then show ?thesis using 1 r pos(2) by (subst readLoop.simps) (auto split: read_end.splits)
  next
    case More
    show ?thesis
    proof (cases "int (length (buf @ data)) > limit")
      case True
      then show ?thesis using More r pos(2) by (subst readLoop.simps) auto
    next
      case False
      then show ?thesis
        using More 1 r pos(2) by (subst readLoop.simps) auto
    qed
  next
    case Joined
    then show ?thesis using 1 by simp
  qed
qed


text \<open>A reader may report the end together with the last bytes, and the loop looks for the end before
  it looks at the size: a message one byte over the limit is then accepted.\<close>

theorem joined_end_over_limit:
  assumes "0 \<le> sv_maxMessageBytes sv" "sv_maxMessageBytes sv < readChunk"
    and "int (length raw) = sv_maxMessageBytes sv + 1"
  shows "readMessage sv \<lparr> so_pieces = [raw], so_end = ReadEOF, so_joined = True \<rparr> = Inr raw"
  using assms by (simp add: readMessage_def readLoop.simps reader_Read_def)

section \<open>AUTH LOGIN\<close>

lemma loginExchange_prompts:
  "ls_state ls = loginStateUsername \<Longrightarrow>
    loginExchange auth ev sv (replicate n None @ rs) ls c = loginExchange auth ev sv rs ls c"
  by (induction n) (simp_all add: Next_def)

lemma loginExchange_credentials:
  assumes "int (length u) \<le> maxLoginFieldLen" "int (length p) \<le> maxLoginFieldLen"
  shows "loginExchange auth ev sv (Some u # Some p # rs) newLoginServer c =
    (case authenticate auth ev sv u p c of (e, c') \<Rightarrow> (Some e, c'))"
  using assms by (simp add: Next_def newLoginServer_def response_len_def response_bytes_def split: prod.split)

text \<open>C24: AUTH LOGIN and AUTH PLAIN are the same check.  With a username and a password of at most 1024
  bytes, the LOGIN exchange (with the username sent at once or after any number of prompts) ends after
  the password, and its outcome, its effect on the session and its effect on the account database are
  those of PLAIN with the same credentials.\<close>

theorem login_is_plain:
  assumes "int (length u) \<le> maxLoginFieldLen" "int (length p) \<le> maxLoginFieldLen" and "identity = '''' \<or> identity = u"
  shows "Auth auth ev sv (LoginAuth (replicate n None @ Some u # Some p # rs)) c =
    Auth auth ev sv (PlainAuth identity u p) c"
proof (cases c)
  case (Pair s w)
  have "ls_state newLoginServer = loginStateUsername" by (simp add: newLoginServer_def)
  then show ?thesis using assms(3)
    by (auto simp: Auth_def saslServers_def plainCallback_def Pair loginExchange_prompts
        loginExchange_credentials[OF assms(1,2)] simp del: loginExchange.simps split: prod.split)
qed

section \<open>What a session submits\<close>

definition authorised :: "env \<Rightarrow> Submission \<Rightarrow> bool" where
  "authorised ev sub =
    (let account = id_Account (sub_Identity sub); mb = sub_Mailbox sub; from = ad_Normalized (sub_HeaderFrom sub) in
     pa_Enabled account \<and> mb \<in> set (id_Mailboxes (sub_Identity sub)) \<and> mb_Enabled mb \<and>
     (EqualFold (mb_Address mb) from \<or> matchesAny from (pa_AllowedSenders account) \<or>
      pa_Policy account = FromPolicyPassthrough \<or>
      (pa_Policy account = FromPolicyRewrite \<and>
       MustParseAddress (ev_mail_parse ev) (mb_Address mb) = Some (sub_HeaderFrom sub))))"

lemma prepareSubmission_Inr:
  assumes "prepareSubmission ev sv now order src s = Inr sub"
  obtains raw parsed headerFrom d where
    "sn_identity s = Some (sub_Identity sub)" "sn_recipients s \<noteq> []" "readMessage sv src = Inr raw" "parseMessage raw = Inr parsed"
    "Resolve \<lparr> in_Account = id_Account (sub_Identity sub), in_Mailboxes = id_Mailboxes (sub_Identity sub),
       in_EnvelopeFrom = sn_envelopeFrom s, in_HeaderFrom = headerFrom \<rparr> = Some d" "\<not> Rejected d"
    "applyDecision ev sv now order s (sub_Identity sub) parsed d headerFrom = Some (sub_Raw sub, sub_HeaderFrom sub)"
    "dec_Mailbox d = Some (sub_Mailbox sub)" "sub_Recipients sub = sn_recipients s" "sub_TLS sub = sn_tls s"
    "sub_ClientIP sub = remoteIP (ev_parse_ip ev) (sn_remote s)" "sub_EnvelopeFrom sub = sn_envelopeFrom s"
  using assms unfolding prepareSubmission_def
  by (simp split: option.splits if_splits sum.splits prod.splits) fastforce+

lemma decisionEdits_named: "edits_named (decisionEdits ev sv now s identity parsed d headerFrom)"
proof -
  have "list_all validHeaderFieldByte ''Received''" "list_all validHeaderFieldByte ''From''"
    "list_all validHeaderFieldByte ''X-Original-From''" "list_all validHeaderFieldByte ''Reply-To''" by code_simp+
  then show ?thesis by (simp add: decisionEdits_def edits_named_def)
qed

lemma decisionEdits_prepend: "list_ex he_Prepend (decisionEdits ev sv now s identity parsed d headerFrom)"
  by (simp add: decisionEdits_def)

lemma applyDecision_Received:
  assumes "applyDecision ev sv now order s identity parsed d headerFrom = Some (final, from)"
  shows "HasPrefix final ''Received: ''"
proof -
  have "CanonicalMIMEHeaderKey ''Received'' = ''Received''" by code_simp
  then show ?thesis using assms
    by (auto simp: applyDecision_def decisionEdits_def rewriteHeaders_def Let_def writeHeaderLine_def HasPrefix_def
        split: option.splits prod.splits)
qed

lemma prepareSubmission_authorised:
  assumes "prepareSubmission ev sv now order src s = Inr sub"
  shows "authorised ev sub"
proof -
  from assms obtain parsed headerFrom d where
    d: "Resolve \<lparr> in_Account = id_Account (sub_Identity sub), in_Mailboxes = id_Mailboxes (sub_Identity sub),
       in_EnvelopeFrom = sn_envelopeFrom s, in_HeaderFrom = headerFrom \<rparr> = Some d" "\<not> Rejected d"
    and a: "applyDecision ev sv now order s (sub_Identity sub) parsed d headerFrom = Some (sub_Raw sub, sub_HeaderFrom sub)"
    and mb: "dec_Mailbox d = Some (sub_Mailbox sub)"
    by (rule prepareSubmission_Inr)
  let ?acc = "id_Account (sub_Identity sub)"
  let ?inp = "\<lparr> in_Account = ?acc, in_Mailboxes = id_Mailboxes (sub_Identity sub),
       in_EnvelopeFrom = sn_envelopeFrom s, in_HeaderFrom = headerFrom \<rparr>"
  have r: "pa_Enabled ?acc \<and> sub_Mailbox sub \<in> set (id_Mailboxes (sub_Identity sub)) \<and> mb_Enabled (sub_Mailbox sub) \<and>
      (EqualFold (mb_Address (sub_Mailbox sub)) (ad_Normalized headerFrom) \<or>
       matchesAny (ad_Normalized headerFrom) (pa_AllowedSenders ?acc) \<or>
       pa_Policy ?acc \<in> {FromPolicyRewrite, FromPolicyPassthrough}) \<and>
      (dec_Action d = ActionRewrite \<longrightarrow> pa_Policy ?acc = FromPolicyRewrite \<and> dec_RewriteFrom d = mb_Address (sub_Mailbox sub))"
    using Resolve_decision[of ?inp] d mb by auto
  have rw: "dec_Action d = ActionRewrite"
    if "pa_Policy ?acc = FromPolicyRewrite" "\<not> EqualFold (mb_Address (sub_Mailbox sub)) (ad_Normalized headerFrom)"
      "\<not> matchesAny (ad_Normalized headerFrom) (pa_AllowedSenders ?acc)"
    using d mb that matchMailbox_Some_D[of "id_Mailboxes (sub_Identity sub)" "ad_Normalized headerFrom"]
    by (auto simp: Resolve_def applyFromPolicy_def Rejected_def split: option.splits if_splits)
  show ?thesis
  proof (cases "dec_Action d = ActionRewrite")
    case True
    then have "MustParseAddress (ev_mail_parse ev) (mb_Address (sub_Mailbox sub)) = Some (sub_HeaderFrom sub)"
      using a r by (auto simp: applyDecision_def split: option.splits)
    then show ?thesis using r True by (simp add: authorised_def Let_def)
  next
    case False
    then have "sub_HeaderFrom sub = headerFrom" using a by (auto simp: applyDecision_def)
    then show ?thesis using r rw False by (auto simp: authorised_def Let_def)
  qed
qed

lemma prepareSubmission_content:
  assumes "prepareSubmission ev sv now order src s = Inr sub"
  shows "HasPrefix (sub_Raw sub) ''Received: '' \<and>
    (\<exists>raw parsed n. readMessage sv src = Inr raw \<and> parseMessage raw = Inr parsed \<and>
       findHeaderEnd (sub_Raw sub) = Inr n \<and> drop n (sub_Raw sub) = message_Body parsed)"
proof -
  from assms obtain raw parsed headerFrom d where p: "readMessage sv src = Inr raw" "parseMessage raw = Inr parsed"
    and a: "applyDecision ev sv now order s (sub_Identity sub) parsed d headerFrom = Some (sub_Raw sub, sub_HeaderFrom sub)"
    by (rule prepareSubmission_Inr)
  have "sub_Raw sub = rewriteHeaders order parsed (decisionEdits ev sv now s (sub_Identity sub) parsed d headerFrom)"
    using a by (auto simp: applyDecision_def split: option.splits)
  then show ?thesis
    using p applyDecision_Received[OF a] rewrite_header_end[OF decisionEdits_named decisionEdits_prepend] by metis
qed

text \<open>C19: What DATA hands to the queue.  Only an authenticated session with a recipient submits; the
  account is enabled and the mailbox is one of its own and enabled; the From address is the mailbox's,
  or an allowed sender, or the account passes every sender through, or it was rewritten to the mailbox's
  address; and the message begins with the trace line of this hop and carries, after its first empty
  line, the body the client sent, byte for byte.\<close>

theorem submission_sound:
  assumes "prepareSubmission ev sv now order src s = Inr sub"
  shows "sn_identity s = Some (sub_Identity sub) \<and> sub_Recipients sub = sn_recipients s \<and> sn_recipients s \<noteq> [] \<and>
    authorised ev sub \<and> HasPrefix (sub_Raw sub) ''Received: '' \<and>
    (\<exists>raw parsed n. readMessage sv src = Inr raw \<and> parseMessage raw = Inr parsed \<and>
       findHeaderEnd (sub_Raw sub) = Inr n \<and> drop n (sub_Raw sub) = message_Body parsed)"
  using prepareSubmission_Inr[OF assms] prepareSubmission_authorised[OF assms] prepareSubmission_content[OF assms] by metis

lemma Resolve_code: "Resolve inp = Some d \<Longrightarrow> Rejected d \<Longrightarrow> dec_Code d \<in> {550, 451}"
  by (auto simp: Resolve_def applyFromPolicy_def Rejected_def rejectDisabled_def split: option.splits if_splits FromPolicy.splits)

lemma Resolve_accepts_mailbox:
  assumes "Resolve inp = Some d" "\<not> Rejected d"
  obtains mb where "mb \<in> set (in_Mailboxes inp)" "dec_Mailbox d = Some mb"
    "dec_Action d = ActionRewrite \<Longrightarrow> dec_RewriteFrom d = mb_Address mb"
  using Resolve_decision[of inp] assms by auto

definition refusal :: "smtp_err \<Rightarrow> bool" where
  "refusal e = (case e of SMTPError code _ _ \<Rightarrow> code \<in> {451, 530, 550, 552, 554} | _ \<Rightarrow> False)"

lemma refusal_SMTPError [simp]: "refusal (SMTPError code enhanced text) \<longleftrightarrow> code \<in> {451, 530, 550, 552, 554}"
  by (simp add: refusal_def)

lemma readLoop_refusal: "readLoop limit left buf src = Inl e \<Longrightarrow> refusal e"
proof (induction limit left buf src rule: readLoop.induct)
  case (1 limit left buf src)
  obtain data e' src' where r: "reader_Read (min readChunk left) src = (data, e', src')" by (cases "reader_Read (min readChunk left) src")
  show ?case
    using 1(2) 1(1)[OF _ r[symmetric] refl] r
    by (subst (asm) readLoop.simps) (auto split: option.splits read_end.splits if_splits)
qed

text \<open>C26: DATA never fails without an answer.  If the addresses of the account's mailboxes can be parsed,
  a message that is not submitted is refused with one of the SMTP replies 451, 530, 550, 552 and 554; the
  unchecked parse of the rewritten address cannot panic.\<close>

theorem data_refusals:
  assumes "prepareSubmission ev sv now order src s = Inl e"
    and "\<forall>identity mb. sn_identity s = Some identity \<and> mb \<in> set (id_Mailboxes identity) \<longrightarrow>
       MustParseAddress (ev_mail_parse ev) (mb_Address mb) \<noteq> None"
  shows "refusal e"
proof (cases "sn_identity s")
  case None
  then show ?thesis using assms(1) by (auto simp: prepareSubmission_def errAuthRequired_def)
next
  case (Some identity)
  show ?thesis
  proof (cases "sn_recipients s = [] \<or> (\<exists>e. readMessage sv src = Inl e)")
    case True
    then show ?thesis using assms(1) Some readLoop_refusal
      by (auto simp: prepareSubmission_def readMessage_def split: if_splits)
  next
    case False
    then obtain raw where raw: "readMessage sv src = Inr raw" by (cases "readMessage sv src") auto
    show ?thesis
    proof (cases "parseMessage raw")
      case (Inl e')
      then show ?thesis using assms(1) Some False raw by (auto simp: prepareSubmission_def)
    next
      case (Inr parsed)
      let ?hf = "case ParseHeaderFrom (ev_mail_parse ev) (ev_mail_parse_list ev) (message_Get parsed ''From'') of
          Inl ErrNoAddress \<Rightarrow> Inr empty_address | r \<Rightarrow> r"
      show ?thesis
      proof (cases ?hf)
        case (Inl e')
        then show ?thesis using assms(1) Some False raw \<open>parseMessage raw = Inr parsed\<close> by (auto simp: prepareSubmission_def)
      next
        case hf: (Inr headerFrom)
        let ?inp = "\<lparr> in_Account = id_Account identity, in_Mailboxes = id_Mailboxes identity,
          in_EnvelopeFrom = sn_envelopeFrom s, in_HeaderFrom = headerFrom \<rparr>"
        obtain d where d: "Resolve ?inp = Some d" using Resolve_decision[of ?inp] by blast
        show ?thesis
        proof (cases "Rejected d")
          case True
          then show ?thesis using assms(1) Some False raw Inr hf d Resolve_code[OF d] by (auto simp: prepareSubmission_def)
        next
          case nr: False
          then obtain mb where mb: "mb \<in> set (id_Mailboxes identity)" "dec_Mailbox d = Some mb"
            "dec_Action d = ActionRewrite \<Longrightarrow> dec_RewriteFrom d = mb_Address mb"
            using Resolve_accepts_mailbox[OF d] by auto
          then have "MustParseAddress (ev_mail_parse ev) (mb_Address mb) \<noteq> None" using assms(2) Some by blast
          then obtain final where "applyDecision ev sv now order s identity parsed d headerFrom = Some final"
            using mb(3) by (cases "dec_Action d = ActionRewrite") (auto simp: applyDecision_def)
          then show ?thesis using assms(1) Some False raw Inr hf d nr mb by (auto simp: prepareSubmission_def split: prod.splits)
        qed
      qed
    qed
  qed
qed

section \<open>A whole connection\<close>

text \<open>The calls a session makes to its backend, in order.\<close>

datatype call =
    AuthCall string "ip option" "Identity option"
  | SubmitCall Submission "string option"

definition logAuth :: "('e, 'w) Authenticator \<Rightarrow> ('e, 'w \<times> call list) Authenticator" where
  "logAuth auth username password remote = (\<lambda>(w, log).
    (case auth username password remote w of
       (r, w') \<Rightarrow> (r, w', log @ [AuthCall username remote (case r of Inl _ \<Rightarrow> None | Inr i \<Rightarrow> Some i)])))"

definition logSubmit :: "('f, 'w) Submitter \<Rightarrow> ('f, 'w \<times> call list) Submitter" where
  "logSubmit submit sub = (\<lambda>(w, log).
    (case submit sub w of
       (r, w') \<Rightarrow> (r, w', log @ [SubmitCall sub (case r of Inl _ \<Rightarrow> None | Inr i \<Rightarrow> Some i)])))"

text \<open>The state of a connection: the session, whether a sender has been accepted, the backend, and the
  calls so far.  RCPT and DATA are only passed on after an accepted MAIL; an upgrade to TLS, possible
  once, keeps the session or replaces it by a new one.  A closed connection takes no further step.\<close>

type_synonym 'w conn = "session \<times> bool \<times> 'w \<times> call list"

inductive session_step ::
  "('e, 'w) Authenticator \<Rightarrow> ('f, 'w) Submitter \<Rightarrow> env \<Rightarrow> server \<Rightarrow> 'w conn \<Rightarrow> 'w conn \<Rightarrow> bool"
  for auth submit ev sv where
  step_helo: "\<not> sn_closed s \<Longrightarrow> session_step auth submit ev sv (s, m, wl) (s\<lparr> sn_helo := h \<rparr>, m, wl)"
| step_starttls: "\<not> sn_closed s \<Longrightarrow> \<not> sn_tls s \<Longrightarrow> session_step auth submit ev sv (s, m, wl) (s\<lparr> sn_tls := True \<rparr>, m, wl)"
| step_renew: "\<not> sn_closed s \<Longrightarrow> \<not> sn_tls s \<Longrightarrow>
    session_step auth submit ev sv (s, m, wl) (NewSession (sn_remote s) True h, False, wl)"
| step_auth: "\<not> sn_closed s \<Longrightarrow> Auth (logAuth auth) ev sv attempt (s, wl) = (e, s', wl') \<Longrightarrow>
    session_step auth submit ev sv (s, m, wl) (s', m, wl')"
| step_mail: "\<not> sn_closed s \<Longrightarrow> Mail ev sv from s = (e, s') \<Longrightarrow>
    session_step auth submit ev sv (s, m, wl) (s', m \<or> e = None, wl)"
| step_rcpt: "\<not> sn_closed s \<Longrightarrow> m \<Longrightarrow> Rcpt ev sv to s = (e, s') \<Longrightarrow> session_step auth submit ev sv (s, m, wl) (s', m, wl)"
| step_data: "\<not> sn_closed s \<Longrightarrow> m \<Longrightarrow> Data (logSubmit submit) ev sv now order src (s, wl) = (e, s', wl') \<Longrightarrow>
    session_step auth submit ev sv (s, m, wl) (s', m, wl')"
| step_reset: "\<not> sn_closed s \<Longrightarrow> session_step auth submit ev sv (s, m, wl) (Reset s, False, wl)"

definition session_run ::
  "('e, 'w) Authenticator \<Rightarrow> ('f, 'w) Submitter \<Rightarrow> env \<Rightarrow> server \<Rightarrow> net_addr option \<Rightarrow> bool \<Rightarrow> 'w \<Rightarrow> 'w conn \<Rightarrow> bool" where
  "session_run auth submit ev sv remote tls w c =
    (\<exists>h. (session_step auth submit ev sv)\<^sup>*\<^sup>* (NewSession remote tls h, False, w, []) c)"

lemma session_run_start: "session_run auth submit ev sv remote tls w (NewSession remote tls h, False, w, [])"
  unfolding session_run_def by blast

lemma session_run_step:
  "session_run auth submit ev sv remote tls w c \<Longrightarrow> session_step auth submit ev sv c c' \<Longrightarrow>
    session_run auth submit ev sv remote tls w c'"
  unfolding session_run_def by (meson rtranclp.rtrancl_into_rtrancl)

subsection \<open>What AUTH does\<close>

lemma loginExchange_cases:
  assumes "loginExchange auth ev sv rs ls c = (x, c')"
  shows "c' = c \<or> (\<exists>u p e. authenticate auth ev sv u p c = (e, c'))"
  using assms
proof (induction rs arbitrary: ls)
  case (Cons r rs)
  show ?case
  proof (cases "ls_state ls")
    case loginStateUsername
    then show ?thesis using Cons by (auto simp: Next_def split: if_splits)
  next
    case loginStatePassword
    then show ?thesis using Cons.prems by (auto simp: Next_def split: if_splits prod.splits)
  next
    case loginStateDone
    then show ?thesis using Cons.prems by (auto simp: Next_def)
  qed
qed simp

lemma Auth_cases:
  assumes "Auth auth ev sv attempt (s, wl) = (e, s', wl')"
  obtains (Unchanged) "s' = s" "wl' = wl"
  | (Failed) "s' = recordAuthFailure sv s" "wl' = wl"
  | (Checked) u p r where "sn_tls s \<or> sv_allowInsecureAuth sv" "authenticate auth ev sv u p (s, wl) = (r, s', wl')"
  using assms
  by (auto simp: Auth_def saslServers_def plainCallback_def split: if_splits auth_attempt.splits prod.splits
      dest!: loginExchange_cases)

lemma Auth_log_cases:
  assumes "Auth (logAuth auth) ev sv attempt (s, w, log) = (e, s', w', log')"
  obtains (Unchanged) "s' = s" "w' = w" "log' = log"
  | (Failed) "s' = recordAuthFailure sv s" "w' = w" "log' = log"
  | (Wrong) u p where "sn_tls s \<or> sv_allowInsecureAuth sv" "s' = recordAuthFailure sv s"
      "w' = snd (auth u p (remoteIP (ev_parse_ip ev) (sn_remote s)) w)"
      "log' = log @ [AuthCall u (remoteIP (ev_parse_ip ev) (sn_remote s)) None]"
  | (Good) u p identity where "sn_tls s \<or> sv_allowInsecureAuth sv" "s' = s\<lparr> sn_identity := Some identity \<rparr>"
      "w' = snd (auth u p (remoteIP (ev_parse_ip ev) (sn_remote s)) w)"
      "fst (auth u p (remoteIP (ev_parse_ip ev) (sn_remote s)) w) = Inr identity"
      "log' = log @ [AuthCall u (remoteIP (ev_parse_ip ev) (sn_remote s)) (Some identity)]"
  using assms
proof (cases rule: Auth_cases)
  case (Checked u p r)
  then show ?thesis
    using Wrong[of u p] Good[of _ u p]
    by (auto simp: authenticate_def logAuth_def split: prod.splits sum.splits)
qed (use Unchanged Failed in auto)

lemma recordAuthFailure_simps [simp]:
  "sn_remote (recordAuthFailure sv s) = sn_remote s" "sn_identity (recordAuthFailure sv s) = sn_identity s"
  "sn_tls (recordAuthFailure sv s) = sn_tls s" "sn_recipients (recordAuthFailure sv s) = sn_recipients s"
  "sn_authFailures (recordAuthFailure sv s) = sn_authFailures s + 1"
  "sn_closed (recordAuthFailure sv s) =
    (sn_closed s \<or> (sv_maxAuthFailures sv > 0 \<and> sn_authFailures s + 1 \<ge> sv_maxAuthFailures sv))"
  by (simp_all add: recordAuthFailure_def Let_def)

lemma Data_log_cases:
  assumes "Data (logSubmit submit) ev sv now order src (s, w, log) = (e, s', w', log')"
  obtains (Refused) err where "s' = s" "w' = w" "log' = log" "e = Some err"
  | (Submitted) sub where "s' = s" "prepareSubmission ev sv now order src s = Inr sub" "w' = snd (submit sub w)"
      "log' = log @ [SubmitCall sub (case fst (submit sub w) of Inl _ \<Rightarrow> None | Inr i \<Rightarrow> Some i)]"
      "e = None \<longleftrightarrow> (\<exists>i. fst (submit sub w) = Inr i)"
  using assms by (fastforce simp: Data_def logSubmit_def split: sum.splits prod.splits)

lemma Mail_cases:
  assumes "Mail ev sv from s = (e, s')"
  obtains (Refused) err where "e = Some err" "s' = s"
  | (Accepted) addr where "e = None" "sn_identity s \<noteq> None" "sv_requireTLS sv \<Longrightarrow> sn_tls s"
      "s' = s\<lparr> sn_envelopeFrom := addr, sn_recipients := [] \<rparr>"
  using assms by (auto simp: Mail_def split: if_splits sum.splits)

lemma Rcpt_cases:
  assumes "Rcpt ev sv to s = (e, s')"
  obtains (Refused) err where "e = Some err" "s' = s"
  | (Accepted) addr where "e = None" "int (length (sn_recipients s)) < sv_maxRecipients sv"
      "ParseAddress (ev_mail_parse ev) to = Inr addr" "\<not> IsEmpty addr"
      "s' = s\<lparr> sn_recipients := sn_recipients s @ [ad_Original addr] \<rparr>"
proof (cases "e = None")
  case False
  then have "s' = s" using assms unfolding Rcpt_def by (simp split: if_splits sum.splits)
  then show ?thesis using False that(1) by blast
next
  case True
  then have ok: "sn_identity s \<noteq> None" "int (length (sn_recipients s)) < sv_maxRecipients sv"
    using assms unfolding Rcpt_def by (simp_all split: if_splits)
  then obtain addr where addr: "ParseAddress (ev_mail_parse ev) to = Inr addr" "\<not> IsEmpty addr"
    using assms True unfolding Rcpt_def by (cases "ParseAddress (ev_mail_parse ev) to") (simp_all split: if_splits)
  then have "s' = s\<lparr> sn_recipients := sn_recipients s @ [ad_Original addr] \<rparr>"
    using ok assms unfolding Rcpt_def by (simp split: if_splits)
  then show ?thesis using that(2) True ok(2) addr by blast
qed

subsection \<open>Invariants\<close>

definition submit_ok :: "env \<Rightarrow> server \<Rightarrow> ip option \<Rightarrow> call list \<Rightarrow> Submission \<Rightarrow> bool" where
  "submit_ok ev sv client before sub =
    ((\<exists>u. AuthCall u client (Some (sub_Identity sub)) \<in> set before) \<and> authorised ev sub \<and>
     sub_ClientIP sub = client \<and> sub_Recipients sub \<noteq> [] \<and> int (length (sub_Recipients sub)) \<le> sv_maxRecipients sv \<and>
     (sv_requireTLS sv \<longrightarrow> sub_TLS sub))"

fun call_ok :: "env \<Rightarrow> server \<Rightarrow> ip option \<Rightarrow> call list \<Rightarrow> call \<Rightarrow> bool" where
  "call_ok ev sv client before (AuthCall _ _ _) = True"
| "call_ok ev sv client before (SubmitCall sub r) = submit_ok ev sv client before sub"

definition calls_ok :: "env \<Rightarrow> server \<Rightarrow> ip option \<Rightarrow> call list \<Rightarrow> bool" where
  "calls_ok ev sv client log = (\<forall>i<length log. call_ok ev sv client (take i log) (log ! i))"

lemma calls_ok_Nil [simp]: "calls_ok ev sv client []"
  by (simp add: calls_ok_def)

lemma calls_ok_snoc:
  "calls_ok ev sv client (log @ [c]) \<longleftrightarrow> calls_ok ev sv client log \<and> call_ok ev sv client log c"
  by (auto simp: calls_ok_def nth_append less_Suc_eq all_conj_distrib)

lemma calls_okD: "calls_ok ev sv client (pre @ SubmitCall sub r # post) \<Longrightarrow> submit_ok ev sv client pre sub"
proof -
  assume ok: "calls_ok ev sv client (pre @ SubmitCall sub r # post)"
  have "length pre < length (pre @ SubmitCall sub r # post)" by simp
  with ok have "call_ok ev sv client (take (length pre) (pre @ SubmitCall sub r # post)) ((pre @ SubmitCall sub r # post) ! length pre)"
    unfolding calls_ok_def by blast
  then show ?thesis by simp
qed

definition conn_ok :: "env \<Rightarrow> server \<Rightarrow> net_addr option \<Rightarrow> 'w conn \<Rightarrow> bool" where
  "conn_ok ev sv remote = (\<lambda>(s, m, w, log).
    sn_remote s = remote \<and> calls_ok ev sv (remoteIP (ev_parse_ip ev) remote) log \<and>
    (\<forall>identity. sn_identity s = Some identity \<longrightarrow>
       (\<exists>u. AuthCall u (remoteIP (ev_parse_ip ev) remote) (Some identity) \<in> set log)) \<and>
    (sv_requireTLS sv \<and> m \<longrightarrow> sn_tls s) \<and>
    (sn_recipients s \<noteq> [] \<longrightarrow> int (length (sn_recipients s)) \<le> sv_maxRecipients sv) \<and>
    (\<not> sn_tls s \<and> \<not> sv_allowInsecureAuth sv \<longrightarrow> log = []))"

lemma conn_okD:
  assumes "conn_ok ev sv remote (s, m, w, log)"
  shows "sn_remote s = remote" "calls_ok ev sv (remoteIP (ev_parse_ip ev) remote) log"
    "sn_identity s = Some identity \<Longrightarrow> \<exists>u. AuthCall u (remoteIP (ev_parse_ip ev) remote) (Some identity) \<in> set log"
    "sv_requireTLS sv \<Longrightarrow> m \<Longrightarrow> sn_tls s"
    "sn_recipients s \<noteq> [] \<Longrightarrow> int (length (sn_recipients s)) \<le> sv_maxRecipients sv"
    "\<not> sn_tls s \<Longrightarrow> \<not> sv_allowInsecureAuth sv \<Longrightarrow> log = []"
  using assms by (simp_all add: conn_ok_def)

lemma conn_ok_Auth:
  assumes "conn_ok ev sv remote (s, m, w, log)" "Auth (logAuth auth) ev sv attempt (s, w, log) = (e, s', w', log')"
  shows "conn_ok ev sv remote (s', m, w', log')"
  using assms(2)
proof (cases rule: Auth_log_cases)
  case (Wrong u p)
  then show ?thesis using assms(1) by (auto simp: conn_ok_def calls_ok_snoc)
next
  case (Good u p identity)
  then show ?thesis using assms(1) by (auto simp: conn_ok_def calls_ok_snoc)
qed (use assms(1) in \<open>auto simp: conn_ok_def\<close>)

lemma conn_ok_Data:
  assumes "conn_ok ev sv remote (s, m, w, log)" m
    and "Data (logSubmit submit) ev sv now order src (s, w, log) = (e, s', w', log')"
  shows "conn_ok ev sv remote (s', m, w', log')"
  using assms(3)
proof (cases rule: Data_log_cases)
  case Refused
  then show ?thesis using assms(1) by simp
next
  case (Submitted sub)
  note ok = conn_okD[OF assms(1)]
  have p: "sn_identity s = Some (sub_Identity sub)" "sub_Recipients sub = sn_recipients s" "sn_recipients s \<noteq> []"
    "sub_TLS sub = sn_tls s" "sub_ClientIP sub = remoteIP (ev_parse_ip ev) (sn_remote s)"
    using prepareSubmission_Inr[OF Submitted(2)] by metis+
  then have "log \<noteq> []" using ok(3)[OF p(1)] by auto
  moreover have "submit_ok ev sv (remoteIP (ev_parse_ip ev) remote) log sub"
    unfolding submit_ok_def p using ok(1) ok(3)[OF p(1)] ok(4) ok(5)[OF p(3)] assms(2) p(3)
      prepareSubmission_authorised[OF Submitted(2)] by simp
  ultimately show ?thesis
    using assms(1) Submitted by (simp add: conn_ok_def calls_ok_snoc)
qed

lemma session_step_ok:
  assumes "session_step auth submit ev sv c c'" "conn_ok ev sv remote c"
  shows "conn_ok ev sv remote c'"
  using assms
proof (cases rule: session_step.cases)
  case (step_auth s attempt wl e s' wl' m)
  then show ?thesis using assms(2) conn_ok_Auth[of ev sv remote s m "fst wl" "snd wl"] by (cases wl; cases wl') auto
next
  case (step_data s m now order src wl e s' wl')
  then show ?thesis using assms(2) conn_ok_Data[of ev sv remote s m "fst wl" "snd wl"] by (cases wl; cases wl') auto
next
  case (step_mail s "from" e s' m wl)
  from step_mail(4) show ?thesis
    by (cases rule: Mail_cases) (use assms(2) step_mail in \<open>auto simp: conn_ok_def\<close>)
next
  case (step_rcpt s m to e s' wl)
  from step_rcpt(5) show ?thesis
    by (cases rule: Rcpt_cases) (use assms(2) step_rcpt in \<open>auto simp: conn_ok_def\<close>)
qed (auto simp: conn_ok_def NewSession_def Reset_def)

lemma session_run_ok:
  assumes "session_run auth submit ev sv remote tls w c"
  shows "conn_ok ev sv remote c"
proof -
  from assms obtain h where "(session_step auth submit ev sv)\<^sup>*\<^sup>* (NewSession remote tls h, False, w, []) c"
    by (auto simp: session_run_def)
  moreover have "conn_ok ev sv remote (NewSession remote tls h, False, w, [])"
    by (simp add: conn_ok_def NewSession_def)
  ultimately show ?thesis by (induction rule: rtranclp_induct) (auto intro: session_step_ok)
qed

text \<open>C2: Whatever a client sends and in whatever order, a session only ever submits mail that some
  earlier AUTH of the same connection authorised: the account was authenticated from the client's address
  before, it is enabled and the sender policy allows the From address on a mailbox of its own; there is at
  least one recipient and at most the configured number; the connection is encrypted when the server
  requires it.\<close>

theorem session_submits_authorised:
  assumes "session_run auth submit ev sv remote tls w (s, m, w', before @ SubmitCall sub r # later)"
  shows "\<exists>username. AuthCall username (remoteIP (ev_parse_ip ev) remote) (Some (sub_Identity sub)) \<in> set before \<and>
    authorised ev sub \<and> sub_ClientIP sub = remoteIP (ev_parse_ip ev) remote \<and>
    sub_Recipients sub \<noteq> [] \<and> int (length (sub_Recipients sub)) \<le> sv_maxRecipients sv \<and>
    (sv_requireTLS sv \<longrightarrow> sub_TLS sub)"
  using calls_okD[OF conn_okD(2)[OF session_run_ok[OF assms]]] by (auto simp: submit_ok_def)

text \<open>C22: On a connection that is not encrypted no credential is ever checked and nothing is submitted,
  unless the operator allowed insecure authentication: whatever the client sends, the session has made no
  call to the backend.\<close>

theorem no_password_in_clear:
  assumes "session_run auth submit ev sv remote tls w (s, m, w', log)" "\<not> sn_tls s" "\<not> sv_allowInsecureAuth sv"
  shows "log = []"
  using conn_okD(6)[OF session_run_ok[OF assms(1)] assms(2,3)] .

subsection \<open>Guessing passwords\<close>

fun is_failure :: "call \<Rightarrow> bool" where
  "is_failure (AuthCall _ _ None) = True"
| "is_failure _ = False"

definition failures :: "call list \<Rightarrow> int" where
  "failures log = int (length (filter is_failure log))"

lemma failures_snoc [simp]: "failures (log @ [c]) = failures log + (if is_failure c then 1 else 0)"
  by (simp add: failures_def)

definition guess_ok :: "server \<Rightarrow> bool \<Rightarrow> 'w conn \<Rightarrow> bool" where
  "guess_ok sv tls = (\<lambda>(s, m, w, log).
    sn_authFailures s \<le> sv_maxAuthFailures sv \<and>
    (\<not> sn_closed s \<longrightarrow> sn_authFailures s \<le> sv_maxAuthFailures sv - 1) \<and>
    (tls \<longrightarrow> sn_tls s) \<and>
    failures log \<le> sn_authFailures s + (if sn_tls s \<and> \<not> tls then sv_maxAuthFailures sv - 1 else 0))"

lemma guess_ok_Auth:
  assumes "guess_ok sv tls (s, m, w, log)" "\<not> sn_closed s" "sv_maxAuthFailures sv > 0"
    and "Auth (logAuth auth) ev sv attempt (s, w, log) = (e, s', w', log')"
  shows "guess_ok sv tls (s', m, w', log')"
  using assms(4) by (cases rule: Auth_log_cases) (use assms(1-3) in \<open>auto simp: guess_ok_def split: if_splits\<close>)

lemma guess_ok_Data:
  assumes "guess_ok sv tls (s, m, w, log)"
    and "Data (logSubmit submit) ev sv now order src (s, w, log) = (e, s', w', log')"
  shows "guess_ok sv tls (s', m, w', log')"
  using assms(2) by (cases rule: Data_log_cases) (use assms(1) in \<open>auto simp: guess_ok_def\<close>)

lemma session_step_guess:
  assumes "session_step auth submit ev sv c c'" "guess_ok sv tls c" "sv_maxAuthFailures sv > 0"
  shows "guess_ok sv tls c'"
  using assms
proof (cases rule: session_step.cases)
  case (step_auth s attempt wl e s' wl' m)
  then show ?thesis using assms(2,3) guess_ok_Auth[of sv tls s m "fst wl" "snd wl"] by (cases wl; cases wl') auto
next
  case (step_data s m now order src wl e s' wl')
  then show ?thesis using assms(2) guess_ok_Data[of sv tls s m "fst wl" "snd wl"] by (cases wl; cases wl') auto
next
  case (step_mail s "from" e s' m wl)
  from step_mail(4) show ?thesis
    by (cases rule: Mail_cases) (use assms(2) step_mail in \<open>auto simp: guess_ok_def\<close>)
next
  case (step_rcpt s m to e s' wl)
  from step_rcpt(5) show ?thesis
    by (cases rule: Rcpt_cases) (use assms(2) step_rcpt in \<open>auto simp: guess_ok_def\<close>)
qed (auto simp: guess_ok_def NewSession_def Reset_def split: if_splits)

text \<open>C23: A client cannot guess passwords on one connection for long.  With a limit set, the number of
  failed credential checks never exceeds the limit on a connection that is encrypted from the start (one
  less than twice the limit if it upgrades in between, because the new session counts from zero), and the
  connection is closed when its session reaches the limit.\<close>

theorem auth_failures_bounded:
  assumes "session_run auth submit ev sv remote tls w (s, m, w', log)" "sv_maxAuthFailures sv > 0"
  shows "failures log \<le> (if tls then sv_maxAuthFailures sv else 2 * sv_maxAuthFailures sv - 1) \<and>
    (sn_authFailures s \<ge> sv_maxAuthFailures sv \<longrightarrow> sn_closed s)"
proof -
  from assms(1) obtain h where run: "(session_step auth submit ev sv)\<^sup>*\<^sup>* (NewSession remote tls h, False, w, []) (s, m, w', log)"
    by (auto simp: session_run_def)
  have "guess_ok sv tls (NewSession remote tls h, False, w, [])"
    using assms(2) by (simp add: guess_ok_def NewSession_def failures_def)
  from run this have "guess_ok sv tls (s, m, w', log)"
    by (induction rule: rtranclp_induct) (auto intro: session_step_guess[OF _ _ assms(2)])
  then show ?thesis using assms(2) by (cases "sn_closed s") (auto simp: guess_ok_def split: if_splits)
qed

section \<open>The backend\<close>

text \<open>What a session relies on: a submission the backend reports as queued is stored, and stays stored
  through every later call; an identity is only granted to who may have it.\<close>

locale smtp_backend =
  fixes auth :: "('e, 'w) Authenticator" and submit :: "('f, 'w) Submitter"
    and stored :: "'w \<Rightarrow> string \<Rightarrow> Submission \<Rightarrow> bool" and valid :: "'w \<Rightarrow> bool"
    and granted :: "string \<Rightarrow> ip option \<Rightarrow> Identity \<Rightarrow> bool"
  assumes auth_granted: "valid w \<Longrightarrow> fst (auth u p ip w) = Inr identity \<Longrightarrow> granted u ip identity"
    and auth_valid: "valid w \<Longrightarrow> valid (snd (auth u p ip w))"
    and auth_stored: "valid w \<Longrightarrow> stored w i sub \<Longrightarrow> stored (snd (auth u p ip w)) i sub"
    and submit_valid: "valid w \<Longrightarrow> valid (snd (submit sub w))"
    and submit_stored: "valid w \<Longrightarrow> fst (submit sub w) = Inr i \<Longrightarrow> stored (snd (submit sub w)) i sub"
    and submit_keeps: "valid w \<Longrightarrow> stored w i sub' \<Longrightarrow> stored (snd (submit sub w)) i sub'"
begin

definition queued :: "'w conn \<Rightarrow> bool" where
  "queued = (\<lambda>(s, m, w, log). valid w \<and> (\<forall>sub i. SubmitCall sub (Some i) \<in> set log \<longrightarrow> stored w i sub) \<and>
    (\<forall>u ip identity. AuthCall u ip (Some identity) \<in> set log \<longrightarrow> granted u ip identity))"

lemma queued_Auth:
  assumes "queued (s, m, w, log)" "Auth (logAuth auth) ev sv attempt (s, w, log) = (e, s', w', log')"
  shows "queued (s', m', w', log')"
  using assms(2) by (cases rule: Auth_log_cases) (use assms(1) auth_valid auth_stored auth_granted in \<open>auto simp: queued_def\<close>)

lemma queued_Data:
  assumes "queued (s, m, w, log)" "Data (logSubmit submit) ev sv now order src (s, w, log) = (e, s', w', log')"
  shows "queued (s', m', w', log')"
  using assms(2)
  by (cases rule: Data_log_cases)
    (use assms(1) submit_valid submit_stored submit_keeps in \<open>auto simp: queued_def split: sum.splits\<close>)

lemma queued_step:
  assumes "session_step auth submit ev sv c c'" "queued c"
  shows "queued c'"
  using assms
proof (cases rule: session_step.cases)
  case (step_auth s attempt wl e s' wl' m)
  then show ?thesis using assms(2) queued_Auth[of s m "fst wl" "snd wl"] by (cases wl; cases wl') auto
next
  case (step_data s m now order src wl e s' wl')
  then show ?thesis using assms(2) queued_Data[of s m "fst wl" "snd wl"] by (cases wl; cases wl') auto
qed (auto simp: queued_def)

lemma run_queued:
  assumes "session_run auth submit ev sv remote tls w (s, m, w', log)" "valid w"
  shows "queued (s, m, w', log)"
proof -
  from assms(1) obtain h where run: "(session_step auth submit ev sv)\<^sup>*\<^sup>* (NewSession remote tls h, False, w, []) (s, m, w', log)"
    by (auto simp: session_run_def)
  have "queued (NewSession remote tls h, False, w, [])" using assms(2) by (simp add: queued_def)
  with run show ?thesis by (induction rule: rtranclp_induct) (auto intro: queued_step)
qed

lemma run_stored:
  assumes "session_run auth submit ev sv remote tls w (s, m, w', log)" "valid w" "SubmitCall sub (Some i) \<in> set log"
  shows "stored w' i sub"
  using run_queued[OF assms(1,2)] assms(3) by (simp add: queued_def)

lemma run_granted:
  assumes "session_run auth submit ev sv remote tls w (s, m, w', log)" "valid w" "AuthCall u ip (Some identity) \<in> set log"
  shows "granted u ip identity"
  using run_queued[OF assms(1,2)] assms(3) by (simp add: queued_def)

lemma run_valid:
  assumes "session_run auth submit ev sv remote tls w (s, m, w', log)" "valid w"
  shows "valid w'"
  using run_queued[OF assms] by (simp add: queued_def)

end

section \<open>Scenarios and witnesses\<close>

definition sample_env :: env where
  "sample_env = \<lparr> ev_parse_ip = (\<lambda>_. None), ev_show_ip = (\<lambda>_. ''192.0.2.1''),
     ev_mail_parse = (\<lambda>a. if CHR ''@'' \<in> set a then Some ([], a) else None),
     ev_mail_parse_list = (\<lambda>a. Some [([], a)]), ev_mail_string = snd, ev_UserAgent = ''proxy/1'',
     ev_RFC1123Z = (\<lambda>_. ''now''), ev_header_Error = (\<lambda>_. ''bad header''), ev_policy_Error = (\<lambda>_. ''bad address'') \<rparr>"

definition sample_server :: server where
  "sample_server = \<lparr> sv_hostname = ''mx'', sv_allowInsecureAuth = False, sv_requireTLS = True, sv_recordSubjects = True,
     sv_maxMessageBytes = 200, sv_maxRecipients = 2, sv_maxAuthFailures = 2 \<rparr>"

definition sample_identity :: Identity where
  "sample_identity = \<lparr> id_AccountID = ''a1'', id_Username = ''printer'', id_Account = in_Account (sample_input FromPolicyReject ''''),
     id_Mailboxes = [sample_mailbox] \<rparr>"

definition sample_auth :: "(unit, nat) Authenticator" where
  "sample_auth u p ip w = (if p = ''pw'' then Inr sample_identity else Inl (), w)"

definition sample_submit :: "(unit, nat) Submitter" where
  "sample_submit sub w = (Inr ''q1'', w + 1)"

definition sample_peer :: "net_addr option" where "sample_peer = Some (TCPAddr [192, 0, 2, 1] 4000)"

definition sample_source :: source where
  "sample_source = \<lparr> so_pieces = [''From: '' @ mb_Address sample_mailbox @ CRLF, CRLF @ ''hello''], so_end = ReadEOF, so_joined = False \<rparr>"

definition exec_auth :: "('e, 'w) Authenticator \<Rightarrow> env \<Rightarrow> server \<Rightarrow> auth_attempt \<Rightarrow> 'w conn \<Rightarrow> 'w conn" where
  "exec_auth auth ev sv a = (\<lambda>(s, m, wl). (case Auth (logAuth auth) ev sv a (s, wl) of (_, s', wl') \<Rightarrow> (s', m, wl')))"

definition exec_mail :: "env \<Rightarrow> server \<Rightarrow> string \<Rightarrow> 'w conn \<Rightarrow> 'w conn" where
  "exec_mail ev sv from = (\<lambda>(s, m, wl). (case Mail ev sv from s of (e, s') \<Rightarrow> (s', m \<or> e = None, wl)))"

definition exec_rcpt :: "env \<Rightarrow> server \<Rightarrow> string \<Rightarrow> 'w conn \<Rightarrow> 'w conn" where
  "exec_rcpt ev sv to = (\<lambda>(s, m, wl). (case Rcpt ev sv to s of (e, s') \<Rightarrow> (s', m, wl)))"

definition exec_data :: "('f, 'w) Submitter \<Rightarrow> env \<Rightarrow> server \<Rightarrow> instant \<Rightarrow> source \<Rightarrow> 'w conn \<Rightarrow> 'w conn" where
  "exec_data submit ev sv now src =
    (\<lambda>(s, m, wl). (case Data (logSubmit submit) ev sv now [] src (s, wl) of (_, s', wl') \<Rightarrow> (s', m, wl')))"

definition open_conn :: "'w conn \<Rightarrow> bool" where "open_conn c = (\<not> sn_closed (fst c))"
definition mailed :: "'w conn \<Rightarrow> bool" where "mailed c = (open_conn c \<and> fst (snd c))"

lemma exec_steps:
  "open_conn c \<Longrightarrow> session_step auth submit ev sv c (exec_auth auth ev sv a c)"
  "open_conn c \<Longrightarrow> session_step auth submit ev sv c (exec_mail ev sv from c)"
  "mailed c \<Longrightarrow> session_step auth submit ev sv c (exec_rcpt ev sv to c)"
  "mailed c \<Longrightarrow> session_step auth submit ev sv c (exec_data submit ev sv now src c)"
  by (auto simp: exec_auth_def exec_mail_def exec_rcpt_def exec_data_def open_conn_def mailed_def
      split: prod.split intro: session_step.intros)

text \<open>A wrong and a right password, MAIL and RCPT: the session is then ready for DATA.\<close>

definition sample_calls :: "call list" where
  "sample_calls = [AuthCall ''printer'' (Some [192, 0, 2, 1]) None, AuthCall ''printer'' (Some [192, 0, 2, 1]) (Some sample_identity)]"

definition sample_start :: session where "sample_start = NewSession sample_peer True ''printer''"
definition sample_failed :: session where "sample_failed = sample_start\<lparr> sn_authFailures := 1 \<rparr>"
definition sample_authed :: session where "sample_authed = sample_failed\<lparr> sn_identity := Some sample_identity \<rparr>"

definition sample_mailed :: session where
  "sample_mailed = sample_authed\<lparr> sn_envelopeFrom :=
     \<lparr> ad_Display = [], ad_Original = ''p@lan'', ad_Normalized = ''p@lan'', ad_Domain = ''lan'' \<rparr> \<rparr>"

definition sample_ready :: session where
  "sample_ready = sample_mailed\<lparr> sn_recipients := [''u@example.org''] \<rparr>"

definition sample_sub :: Submission where
  "sample_sub = (case prepareSubmission sample_env sample_server 5 [] sample_source sample_ready of Inr sub \<Rightarrow> sub)"

lemma sample_prepared_ok: "prepareSubmission sample_env sample_server 5 [] sample_source sample_ready = Inr sample_sub"
proof -
  have "is_ok (prepareSubmission sample_env sample_server 5 [] sample_source sample_ready)" by code_simp
  then show ?thesis unfolding sample_sub_def
    by (cases "prepareSubmission sample_env sample_server 5 [] sample_source sample_ready") (auto simp: is_ok_def)
qed

lemma sample_envelope:
  "Mail sample_env sample_server ''p@lan'' sample_authed = (None, sample_mailed)"
  "Rcpt sample_env sample_server ''u@example.org'' sample_mailed = (None, sample_ready)"
  by code_simp+

lemma sample_sub_parts: "sub_Identity sample_sub = sample_identity" "sub_Mailbox sample_sub = sample_mailbox"
proof -
  have "sn_identity sample_ready = Some sample_identity"
    by (simp add: sample_ready_def sample_mailed_def sample_authed_def)
  then show i: "sub_Identity sample_sub = sample_identity"
    using prepareSubmission_Inr[OF sample_prepared_ok] by (metis option.inject)
  show "sub_Mailbox sample_sub = sample_mailbox"
    using prepareSubmission_authorised[OF sample_prepared_ok] by (simp add: authorised_def Let_def i sample_identity_def)
qed

lemma sample_run:
  "session_run sample_auth sample_submit sample_env sample_server sample_peer True 0
     (sample_ready, True, 1, sample_calls @ [SubmitCall sample_sub (Some ''q1'')])"
proof -
  let ?step = "session_step sample_auth sample_submit sample_env sample_server"
  let ?c0 = "(sample_start, False, 0, []) :: nat conn"
  let ?c1 = "(sample_failed, False, 0, take 1 sample_calls) :: nat conn"
  let ?c2 = "(sample_authed, False, 0, sample_calls) :: nat conn"
  let ?c3 = "(sample_mailed, True, 0, sample_calls) :: nat conn"
  let ?c4 = "(sample_ready, True, 0, sample_calls) :: nat conn"
  have "exec_auth sample_auth sample_env sample_server (PlainAuth '''' ''printer'' ''guess'') ?c0 = ?c1"
    "exec_auth sample_auth sample_env sample_server (LoginAuth [None, Some ''printer'', Some ''pw'']) ?c1 = ?c2"
    by code_simp+
  moreover have "exec_mail sample_env sample_server ''p@lan'' ?c2 = ?c3"
    "exec_rcpt sample_env sample_server ''u@example.org'' ?c3 = ?c4"
    by (simp_all add: exec_mail_def exec_rcpt_def sample_envelope)
  moreover have "exec_data sample_submit sample_env sample_server 5 sample_source ?c4 =
      (sample_ready, True, 1, sample_calls @ [SubmitCall sample_sub (Some ''q1'')])"
    by (simp add: exec_data_def Data_def sample_prepared_ok logSubmit_def sample_submit_def)
  moreover have "open_conn ?c0" "open_conn ?c1" "open_conn ?c2" "mailed ?c3" "mailed ?c4" by code_simp+
  ultimately have steps: "?step ?c0 ?c1" "?step ?c1 ?c2" "?step ?c2 ?c3" "?step ?c3 ?c4"
    "?step ?c4 (sample_ready, True, 1, sample_calls @ [SubmitCall sample_sub (Some ''q1'')])"
    by (metis exec_steps)+
  show ?thesis
    by (rule session_run_step[OF session_run_step[OF session_run_step[OF session_run_step[OF session_run_step[OF
            session_run_start steps(1)[unfolded sample_start_def]] steps(2)] steps(3)] steps(4)] steps(5)])
qed

theorem session_submits_authorised_witness:
  "\<exists>username. AuthCall username (Some [192, 0, 2, 1]) (Some (sub_Identity sample_sub)) \<in> set sample_calls \<and>
     authorised sample_env sample_sub \<and> sub_Recipients sample_sub \<noteq> [] \<and> sub_TLS sample_sub"
proof -
  have "remoteIP (ev_parse_ip sample_env) sample_peer = Some [192, 0, 2, 1]" "sv_requireTLS sample_server" by code_simp+
  then show ?thesis using session_submits_authorised[OF sample_run] by auto
qed

theorem auth_failures_bounded_witness:
  "failures (sample_calls @ [SubmitCall sample_sub (Some ''q1'')]) \<le> sv_maxAuthFailures sample_server \<and>
   failures sample_calls = 1"
proof -
  have "sv_maxAuthFailures sample_server > 0" "failures sample_calls = 1" by code_simp+
  then show ?thesis using auth_failures_bounded[OF sample_run] by simp
qed

definition sample_clear :: "nat conn" where
  "sample_clear = exec_auth sample_auth sample_env sample_server (PlainAuth '''' ''printer'' ''pw'')
     (NewSession sample_peer False ''printer'', False, 0, [])"

theorem no_password_in_clear_witness: "\<exists>s m w log. sample_clear = (s, m, w, log) \<and> \<not> sn_tls s \<and> log = []"
proof -
  obtain s m w log where c: "sample_clear = (s, m, w, log)" by (cases sample_clear) auto
  have "open_conn ((NewSession sample_peer False ''printer'', False, 0, []) :: nat conn)" by code_simp
  from exec_steps(1)[OF this, of sample_auth sample_submit sample_env sample_server]
  have run: "session_run sample_auth sample_submit sample_env sample_server sample_peer False 0 (s, m, w, log)"
    unfolding session_run_def c[symmetric] sample_clear_def by blast
  have "\<not> sn_tls (fst sample_clear)" by code_simp
  then have tls: "\<not> sn_tls s" unfolding c by simp
  have "\<not> sv_allowInsecureAuth sample_server" by code_simp
  from no_password_in_clear[OF run tls this] tls c show ?thesis by blast
qed

theorem submission_sound_witness:
  "authorised sample_env sample_sub \<and> HasPrefix (sub_Raw sample_sub) ''Received: '' \<and>
   (\<exists>n. findHeaderEnd (sub_Raw sample_sub) = Inr n \<and> drop n (sub_Raw sample_sub) = ''hello'')"
proof -
  define raw where "raw = concat (so_pieces sample_source)"
  note p = sample_prepared_ok
  have r: "readMessage sample_server sample_source = Inr raw"
    "map_sum id message_Body (parseMessage raw) = Inr ''hello''" unfolding raw_def by code_simp+
  from submission_sound[OF p] obtain raw' parsed n where
    "authorised sample_env sample_sub" "HasPrefix (sub_Raw sample_sub) ''Received: ''"
    "readMessage sample_server sample_source = Inr raw'" "parseMessage raw' = Inr parsed"
    "findHeaderEnd (sub_Raw sample_sub) = Inr n" "drop n (sub_Raw sample_sub) = message_Body parsed" by blast
  then show ?thesis using r by auto
qed

definition foreign_source :: source where
  "foreign_source = \<lparr> so_pieces = [''From: boss@example.com'' @ CRLF @ CRLF @ ''hi''], so_end = ReadEOF, so_joined = False \<rparr>"

theorem data_refusals_witness:
  "\<exists>e. prepareSubmission sample_env sample_server 5 [] foreign_source sample_ready = Inl e \<and> refusal e"
proof -
  have "\<not> is_ok (prepareSubmission sample_env sample_server 5 [] foreign_source sample_ready)" by code_simp
  then obtain e where e: "prepareSubmission sample_env sample_server 5 [] foreign_source sample_ready = Inl e"
    by (cases "prepareSubmission sample_env sample_server 5 [] foreign_source sample_ready") (auto simp: is_ok_def)
  have i: "sn_identity sample_ready = Some sample_identity" "id_Mailboxes sample_identity = [sample_mailbox]"
    "MustParseAddress (ev_mail_parse sample_env) (mb_Address sample_mailbox) \<noteq> None" by code_simp+
  then have "\<forall>identity mb. sn_identity sample_ready = Some identity \<and> mb \<in> set (id_Mailboxes identity) \<longrightarrow>
       MustParseAddress (ev_mail_parse sample_env) (mb_Address mb) \<noteq> None" by auto
  from data_refusals[OF e this] e show ?thesis by blast
qed


theorem login_is_plain_witness:
  "Auth sample_auth sample_env sample_server (LoginAuth [None, Some ''printer'', Some ''pw'']) (sample_start, 0) =
   Auth sample_auth sample_env sample_server (PlainAuth '''' ''printer'' ''pw'') (sample_start, 0)"
  using login_is_plain[of "''printer''" "''pw''" "''''" sample_auth sample_env sample_server 1 "[]" "(sample_start, 0)"]
  by (simp add: maxLoginFieldLen_def)

text \<open>The policy looks at the first From field only.  A message with a second one is accepted under the
  strict policy and passed on with both, although \<^verbatim>\<open>ParseHeaderFrom\<close> refuses two addresses in one
  field.\<close>

definition second_from_source :: source where
  "second_from_source = \<lparr> so_pieces = [''From: sales@example.com'' @ CRLF @ ''From: boss@example.com'' @ CRLF @ CRLF @ ''hi''],
     so_end = ReadEOF, so_joined = False \<rparr>"

theorem second_From_unchecked:
  "(case prepareSubmission sample_env sample_server 5 [] second_from_source sample_ready of
      Inl _ \<Rightarrow> False
    | Inr sub \<Rightarrow> pa_Policy (id_Account (sub_Identity sub)) = FromPolicyReject \<and>
        Contains (sub_Raw sub) (''From: boss@example.com'' @ CRLF)) \<and>
   \<not> is_ok (prepareSubmission sample_env sample_server 5 [] foreign_source sample_ready)"
  by code_simp

end
