(* ===== verification/Crypto.thy ===== *)
theory Crypto
  imports Prelude
begin

text \<open>
  Secrets at rest (\<^verbatim>\<open>src/internal/crypto\<close>): the keyring that seals and opens stored
  secrets, the PHC-formatted Argon2id password hashes, and random tokens.

  AES-GCM and Argon2 are parameters: an AEAD is a record of its nonce size and its seal and open
  functions, the key derivation is a function of password, salt and cost.  Random bytes are
  arguments.  The encodings around them, base64 (\<^verbatim>\<open>encoding/base64\<close>, unpadded, both
  alphabets, strict or not), the sealed-value format and the PHC string, are modelled byte by
  byte.
\<close>

section \<open>base64\<close>

definition std_alphabet :: string where
  "std_alphabet = ''ABCDEFGHIJKLMNOPQRSTUVWXYZabcdefghijklmnopqrstuvwxyz0123456789+/''"

definition url_alphabet :: string where
  "url_alphabet = ''ABCDEFGHIJKLMNOPQRSTUVWXYZabcdefghijklmnopqrstuvwxyz0123456789-_''"

fun raw_encode :: "string \<Rightarrow> string \<Rightarrow> string" where
  "raw_encode al [] = []"
| "raw_encode al [a] = [al ! (byte a div 4), al ! (byte a mod 4 * 16)]"
| "raw_encode al [a, b] =
    [al ! (byte a div 4), al ! (byte a mod 4 * 16 + byte b div 16), al ! (byte b mod 16 * 4)]"
| "raw_encode al (a # b # c # r) =
    al ! (byte a div 4) # al ! (byte a mod 4 * 16 + byte b div 16) #
    al ! (byte b mod 16 * 4 + byte c div 64) # al ! (byte c mod 64) # raw_encode al r"

text \<open>\<open>strict\<close> is the decoder's strict mode: unused trailing bits must be zero.\<close>

fun decode_values :: "bool \<Rightarrow> nat list \<Rightarrow> string option" where
  "decode_values strict [] = Some []"
| "decode_values strict [w] = None"
| "decode_values strict [w, x] =
    (if strict \<and> x mod 16 \<noteq> 0 then None else Some [char_of (w * 4 + x div 16)])"
| "decode_values strict [w, x, y] =
    (if strict \<and> y mod 4 \<noteq> 0 then None
     else Some [char_of (w * 4 + x div 16), char_of (x mod 16 * 16 + y div 4)])"
| "decode_values strict (w # x # y # z # r) =
    map_option (\<lambda>t. char_of (w * 4 + x div 16) # char_of (x mod 16 * 16 + y div 4) #
      char_of (y mod 4 * 64 + z) # t) (decode_values strict r)"

text \<open>The decoder of the standard library skips CR and LF anywhere in its input, in strict mode too.\<close>

definition raw_decode :: "string \<Rightarrow> bool \<Rightarrow> string \<Rightarrow> string option" where
  "raw_decode al strict s =
    Option.bind (those (map (IndexByte al) (filter (\<lambda>c. c \<noteq> CR \<and> c \<noteq> LF) s))) (decode_values strict)"

section \<open>The keyring\<close>

datatype crypto_error =
    ErrNoKeys
  | ErrUnknownKey string
  | ErrMalformed
  | ErrDecryptFailed
  | ErrKeySpec
  | ErrDuplicateKey string
  | ErrInvalidHash
  | ErrIncompatible
  | ErrPasswordTooLong

record aead =
  ae_NonceSize :: nat
  ae_Seal :: "string \<Rightarrow> string \<Rightarrow> string \<Rightarrow> string"
  ae_Open :: "string \<Rightarrow> string \<Rightarrow> string \<Rightarrow> string option"

record Keyring =
  kr_primaryID :: string
  kr_keys :: "(string \<times> aead) list"

definition sealedVersion :: string where "sealedVersion = ''v1''"
definition keyLen :: nat where "keyLen = 32"
definition maxKeyIDLen :: nat where "maxKeyIDLen = 32"

definition TrimRightEq :: "string \<Rightarrow> string" where
  "TrimRightEq s = rev (dropWhile (\<lambda>c. c = CHR ''='') (rev s))"

definition decodeKey :: "string \<Rightarrow> (crypto_error, string) result" where
  "decodeKey encoded =
    (let trimmed = TrimRightEq encoded in
     (case (case raw_decode url_alphabet False trimmed of
              Some k \<Rightarrow> Some k | None \<Rightarrow> raw_decode std_alphabet False trimmed) of
        None \<Rightarrow> Inl ErrKeySpec
      | Some key \<Rightarrow> if length key \<noteq> keyLen then Inl ErrKeySpec else Inr key))"

definition valid_key_id :: "string \<Rightarrow> bool" where
  "valid_key_id i = (i \<noteq> [] \<and> length i \<le> maxKeyIDLen \<and> \<not> ContainsAny i ''.:'')"

text \<open>\<open>gcm\<close> is \<^verbatim>\<open>cipher.NewGCM\<close> over \<^verbatim>\<open>aes.NewCipher\<close>, which accept every key of 32
  bytes.\<close>

definition parseKeySpec :: "(string \<Rightarrow> aead) \<Rightarrow> string \<Rightarrow> (crypto_error, string \<times> aead) result" where
  "parseKeySpec gcm spec =
    (case Cut spec '':'' of
       None \<Rightarrow> Inl ErrKeySpec
     | Some (i, encoded) \<Rightarrow>
         if i = [] \<or> length i > maxKeyIDLen then Inl ErrKeySpec
         else if ContainsAny i ''.:'' then Inl ErrKeySpec
         else (case decodeKey encoded of Inl e \<Rightarrow> Inl e | Inr key \<Rightarrow> Inr (i, gcm key)))"

fun addKeys :: "(string \<Rightarrow> aead) \<Rightarrow> string list \<Rightarrow> (string \<times> aead) list \<Rightarrow>
    (crypto_error, (string \<times> aead) list) result" where
  "addKeys gcm [] keys = Inr keys"
| "addKeys gcm (spec # specs) keys =
    (case parseKeySpec gcm spec of
       Inl e \<Rightarrow> Inl e
     | Inr (i, a) \<Rightarrow>
         if i \<in> fst ` set keys then Inl (ErrDuplicateKey i) else addKeys gcm specs (keys @ [(i, a)]))"

definition NewKeyring :: "(string \<Rightarrow> aead) \<Rightarrow> string list \<Rightarrow> (crypto_error, Keyring) result" where
  "NewKeyring gcm specs =
    (if specs = [] then Inl ErrNoKeys
     else (case addKeys gcm specs [] of
             Inl e \<Rightarrow> Inl e
           | Inr keys \<Rightarrow> Inr \<lparr> kr_primaryID = fst (hd keys), kr_keys = keys \<rparr>))"

text \<open>\<open>nonce\<close> is what the random source delivers.\<close>

definition Encrypt :: "string \<Rightarrow> Keyring \<Rightarrow> string \<Rightarrow> string \<Rightarrow> (crypto_error, string) result" where
  "Encrypt nonce k plaintext context =
    (case map_of (kr_keys k) (kr_primaryID k) of
       None \<Rightarrow> Inl ErrNoKeys
     | Some a \<Rightarrow> Inr (sealedVersion @ ''.'' @ kr_primaryID k @ ''.'' @
         raw_encode url_alphabet (nonce @ ae_Seal a nonce plaintext context)))"

definition splitSealed :: "string \<Rightarrow> (crypto_error, string \<times> string) result" where
  "splitSealed sealed =
    (case Cut sealed ''.'' of
       None \<Rightarrow> Inl ErrMalformed
     | Some (version, rest) \<Rightarrow>
         if version \<noteq> sealedVersion then Inl ErrMalformed
         else (case Cut rest ''.'' of
                 None \<Rightarrow> Inl ErrMalformed
               | Some (keyID, payload) \<Rightarrow>
                   if keyID = [] \<or> payload = [] then Inl ErrMalformed else Inr (keyID, payload)))"

definition Decrypt :: "Keyring \<Rightarrow> string \<Rightarrow> string \<Rightarrow> (crypto_error, string) result" where
  "Decrypt k sealed context =
    (case splitSealed sealed of
       Inl e \<Rightarrow> Inl e
     | Inr (keyID, payload) \<Rightarrow>
         (case map_of (kr_keys k) keyID of
            None \<Rightarrow> Inl (ErrUnknownKey keyID)
          | Some a \<Rightarrow>
              (case raw_decode url_alphabet True payload of
                 None \<Rightarrow> Inl ErrMalformed
               | Some raw \<Rightarrow>
                   if length raw < ae_NonceSize a then Inl ErrMalformed
                   else (case ae_Open a (take (ae_NonceSize a) raw) (drop (ae_NonceSize a) raw) context of
                           None \<Rightarrow> Inl ErrDecryptFailed
                         | Some plaintext \<Rightarrow> Inr plaintext))))"

definition KeyIDOf :: "string \<Rightarrow> (crypto_error, string) result" where
  "KeyIDOf sealed = (case splitSealed sealed of Inl e \<Rightarrow> Inl e | Inr (keyID, _) \<Rightarrow> Inr keyID)"

definition NeedsRotation :: "Keyring \<Rightarrow> string \<Rightarrow> bool" where
  "NeedsRotation k sealed = (case KeyIDOf sealed of Inl _ \<Rightarrow> False | Inr i \<Rightarrow> i \<noteq> kr_primaryID k)"

definition GenerateKey :: "string \<Rightarrow> string \<Rightarrow> (crypto_error, string) result" where
  "GenerateKey key i =
    (if i = [] \<or> length i > maxKeyIDLen \<or> ContainsAny i ''.:'' then Inl ErrKeySpec
     else Inr (i @ '':'' @ raw_encode url_alphabet key))"

section \<open>Passwords\<close>

definition MaxPasswordLen :: int where "MaxPasswordLen = 1024"

record Argon2Params =
  ap_Memory :: int
  ap_Iterations :: int
  ap_Parallelism :: int
  ap_SaltLength :: int
  ap_KeyLength :: int

definition DefaultArgon2Params :: "int \<Rightarrow> Argon2Params" where
  "DefaultArgon2Params cpus =
    \<lparr> ap_Memory = 64 * 1024, ap_Iterations = 3, ap_Parallelism = (if cpus < 2 then cpus else 2),
      ap_SaltLength = 16, ap_KeyLength = 32 \<rparr>"

type_synonym idkey = "string \<Rightarrow> string \<Rightarrow> int \<Rightarrow> int \<Rightarrow> int \<Rightarrow> int \<Rightarrow> string"

definition argon2_Version :: int where "argon2_Version = 19"

definition dec :: "int \<Rightarrow> string" where "dec n = Itoa (nat n)"

definition format_hash :: "Argon2Params \<Rightarrow> string \<Rightarrow> string \<Rightarrow> string" where
  "format_hash p salt key =
    ''$argon2id$v='' @ dec argon2_Version @ ''$m='' @ dec (ap_Memory p) @ '',t='' @ dec (ap_Iterations p) @
    '',p='' @ dec (ap_Parallelism p) @ ''$'' @ raw_encode std_alphabet salt @ ''$'' @
    raw_encode std_alphabet key"

definition HashPasswordWith :: "idkey \<Rightarrow> string \<Rightarrow> string \<Rightarrow> Argon2Params \<Rightarrow> (crypto_error, string) result" where
  "HashPasswordWith kdf salt password p =
    (if int (length password) > MaxPasswordLen then Inl ErrPasswordTooLong
     else Inr (format_hash p salt
       (kdf password salt (ap_Iterations p) (ap_Memory p) (ap_Parallelism p) (ap_KeyLength p))))"

definition HashPassword :: "idkey \<Rightarrow> int \<Rightarrow> string \<Rightarrow> string \<Rightarrow> (crypto_error, string) result" where
  "HashPassword kdf cpus salt password = HashPasswordWith kdf salt password (DefaultArgon2Params cpus)"

text \<open>\<^verbatim>\<open>strconv.ParseUint(value, 10, 32)\<close>.\<close>

definition ParseUint32 :: "string \<Rightarrow> int option" where
  "ParseUint32 s = (case ParseDigits s of None \<Rightarrow> None | Some n \<Rightarrow> if n < 2 ^ 32 then Some n else None)"

fun parseFields :: "string list \<Rightarrow> Argon2Params \<Rightarrow> bool \<times> bool \<times> bool \<Rightarrow>
    (crypto_error, Argon2Params) result" where
  "parseFields [] p (m, t, q) = (if m \<and> t \<and> q then Inr p else Inl ErrInvalidHash)"
| "parseFields (field # fs) p (m, t, q) =
    (case Cut field ''='' of
       None \<Rightarrow> Inl ErrInvalidHash
     | Some (name, value) \<Rightarrow>
         (case ParseUint32 value of
            None \<Rightarrow> Inl ErrInvalidHash
          | Some n \<Rightarrow>
              if n = 0 then Inl ErrInvalidHash
              else if name = ''m'' then parseFields fs (p\<lparr> ap_Memory := n \<rparr>) (True, t, q)
              else if name = ''t'' then parseFields fs (p\<lparr> ap_Iterations := n \<rparr>) (m, True, q)
              else if name = ''p''
              then (if n > 255 then Inl ErrInvalidHash
                    else parseFields fs (p\<lparr> ap_Parallelism := n \<rparr>) (m, t, True))
              else Inl ErrInvalidHash))"

definition zero_params :: Argon2Params where
  "zero_params = \<lparr> ap_Memory = 0, ap_Iterations = 0, ap_Parallelism = 0, ap_SaltLength = 0, ap_KeyLength = 0 \<rparr>"

definition parseParams :: "string \<Rightarrow> (crypto_error, Argon2Params) result" where
  "parseParams s = parseFields (SplitByte s CHR '','') zero_params (False, False, False)"

text \<open>\<^verbatim>\<open>fmt.Sscanf(s, "v=%d", &version)\<close>: blanks before the number and anything after it are
  accepted.\<close>

definition scan_version :: "string \<Rightarrow> int option" where
  "scan_version s =
    (case CutPrefix s ''v='' of
       None \<Rightarrow> None
     | Some r \<Rightarrow>
         (let r1 = dropWhile (\<lambda>c. is_space c \<and> c \<noteq> LF) r;
              (neg, r2) = (case r1 of [] \<Rightarrow> (False, []) | c # cs \<Rightarrow>
                 if c = CHR ''-'' then (True, cs) else if c = CHR ''+'' then (False, cs) else (False, r1));
              ds = takeWhile is_digit r2
          in if ds = [] then None
             else (let n = (if neg then - digits_val ds else digits_val ds) in
                   if int64_min \<le> n \<and> n \<le> int64_max then Some n else None)))"

definition decodeHash :: "string \<Rightarrow> (crypto_error, Argon2Params \<times> string \<times> string) result" where
  "decodeHash encoded =
    (case SplitByte encoded CHR ''$'' of
       [p0, p1, p2, p3, p4, p5] \<Rightarrow>
         if p0 \<noteq> [] then Inl ErrInvalidHash
         else if p1 \<noteq> ''argon2id'' then Inl ErrIncompatible
         else (case scan_version p2 of
                 None \<Rightarrow> Inl ErrInvalidHash
               | Some version \<Rightarrow>
                   if version \<noteq> argon2_Version then Inl ErrIncompatible
                   else (case parseParams p3 of
                           Inl e \<Rightarrow> Inl e
                         | Inr p \<Rightarrow>
                             (case raw_decode std_alphabet True p4 of
                                None \<Rightarrow> Inl ErrInvalidHash
                              | Some salt \<Rightarrow>
                                  (case raw_decode std_alphabet True p5 of
                                     None \<Rightarrow> Inl ErrInvalidHash
                                   | Some key \<Rightarrow>
                                       if salt = [] \<or> key = [] then Inl ErrInvalidHash
                                       else Inr (p\<lparr> ap_SaltLength := int (length salt),
                                                    ap_KeyLength := int (length key) \<rparr>, salt, key)))))
     | _ \<Rightarrow> Inl ErrInvalidHash)"

definition weakerThanDefault :: "int \<Rightarrow> Argon2Params \<Rightarrow> bool" where
  "weakerThanDefault cpus p =
    (let d = DefaultArgon2Params cpus in
     ap_Memory p < ap_Memory d \<or> ap_Iterations p < ap_Iterations d \<or>
     ap_KeyLength p < ap_KeyLength d \<or> ap_SaltLength p < ap_SaltLength d)"

definition VerifyPassword :: "idkey \<Rightarrow> int \<Rightarrow> string \<Rightarrow> string \<Rightarrow> (crypto_error, bool \<times> bool) result" where
  "VerifyPassword kdf cpus encoded password =
    (if int (length password) > MaxPasswordLen then Inl ErrPasswordTooLong
     else (case decodeHash encoded of
             Inl e \<Rightarrow> Inl e
           | Inr (p, salt, want) \<Rightarrow>
               (let got = kdf password salt (ap_Iterations p) (ap_Memory p) (ap_Parallelism p) (ap_KeyLength p)
                in if got \<noteq> want then Inr (False, False) else Inr (True, weakerThanDefault cpus p))))"

section \<open>Random strings\<close>

definition passwordEntropyBytes :: nat where "passwordEntropyBytes = 24"
definition tokenEntropyBytes :: nat where "tokenEntropyBytes = 32"

text \<open>\<open>random\<close> is what the random source delivers.\<close>

definition randomString :: "(nat \<Rightarrow> string) \<Rightarrow> nat \<Rightarrow> string" where
  "randomString random n = raw_encode url_alphabet (random n)"

definition GeneratePassword :: "(nat \<Rightarrow> string) \<Rightarrow> string" where
  "GeneratePassword random = randomString random passwordEntropyBytes"

definition GenerateToken :: "(nat \<Rightarrow> string) \<Rightarrow> string" where
  "GenerateToken random = randomString random tokenEntropyBytes"

definition ConstantTimeEqual :: "string \<Rightarrow> string \<Rightarrow> bool" where
  "ConstantTimeEqual a b = (a = b)"

section \<open>Encoding round trips\<close>

fun enc_values :: "string \<Rightarrow> nat list" where
  "enc_values [] = []"
| "enc_values [a] = [byte a div 4, byte a mod 4 * 16]"
| "enc_values [a, b] = [byte a div 4, byte a mod 4 * 16 + byte b div 16, byte b mod 16 * 4]"
| "enc_values (a # b # c # r) =
    (byte a div 4) # (byte a mod 4 * 16 + byte b div 16) # (byte b mod 16 * 4 + byte c div 64) #
    (byte c mod 64) # enc_values r"

lemma raw_encode_values: "raw_encode al s = map ((!) al) (enc_values s)"
  by (induction s rule: enc_values.induct) simp_all

lemma byte_less: "byte c < 256"
  by (rule nat_of_char_less_256)

lemma byte_div: "byte c div 4 < 64" "byte c div 16 < 16" "byte c div 64 < 4"
  using byte_less[of c] by (rule less_mult_imp_div_less[of _ 64 4, simplified],
    use byte_less[of c] in \<open>rule less_mult_imp_div_less[of _ 16 16, simplified]\<close>,
    use byte_less[of c] in \<open>rule less_mult_imp_div_less[of _ 4 64, simplified]\<close>)

lemma sextet_less: "x < 16 \<Longrightarrow> a mod 4 * 16 + x < 64" "y < 4 \<Longrightarrow> b mod 16 * 4 + y < 64" for a b x y :: nat
  using mod_less_divisor[of 4 a] mod_less_divisor[of 16 b] by linarith+

lemma enc_values_less: "v \<in> set (enc_values s) \<Longrightarrow> v < 64"
proof (induction s rule: enc_values.induct)
  case (2 a) then show ?case using sextet_less(1)[of 0 "byte a"] by (auto simp: byte_div)
next
  case (3 a b) then show ?case using sextet_less(2)[of 0 "byte b"] by (auto simp: byte_div sextet_less)
next
  case (4 a b c r) then show ?case by (auto simp: byte_div sextet_less)
qed simp

lemma sextet_split:
  "x < 16 \<Longrightarrow> (a mod 4 * 16 + x) div 16 = a mod 4" "x < 16 \<Longrightarrow> (a mod 4 * 16 + x) mod 16 = x"
  "y < 4 \<Longrightarrow> (b mod 16 * 4 + y) div 4 = b mod 16" "y < 4 \<Longrightarrow> (b mod 16 * 4 + y) mod 4 = y"
  for a b x y :: nat
  by auto

lemma decode_enc_values: "decode_values strict (enc_values s) = Some s"
proof (induction s rule: enc_values.induct)
  case (2 a)
  have "byte a div 4 * 4 + byte a mod 4 * 16 div 16 = byte a" by simp
  then show ?case by simp
next
  case (3 a b)
  have "byte a div 4 * 4 + byte a mod 4 = byte a" "byte b div 16 * 16 + byte b mod 16 = byte b" by simp_all
  then show ?case by (simp add: sextet_split byte_div)
next
  case (4 a b c r)
  have "byte a div 4 * 4 + byte a mod 4 = byte a" "byte b div 16 * 16 + byte b mod 16 = byte b"
    "byte c div 64 * 64 + byte c mod 64 = byte c" by simp_all
  then show ?case using 4 by (simp add: sextet_split byte_div)
qed simp

lemma IndexByte_nth: "distinct al \<Longrightarrow> n < length al \<Longrightarrow> IndexByte al (al ! n) = Some n"
  by (induction al arbitrary: n) (auto simp: less_Suc_eq_0_disj)

definition alphabet_ok :: "string \<Rightarrow> bool" where
  "alphabet_ok al = (distinct al \<and> length al = 64 \<and> CR \<notin> set al \<and> LF \<notin> set al)"

lemma alphabets_ok [simp]: "alphabet_ok std_alphabet" "alphabet_ok url_alphabet"
  by code_simp+

lemma set_raw_encode: "alphabet_ok al \<Longrightarrow> set (raw_encode al s) \<subseteq> set al"
  using enc_values_less[of _ s] by (auto simp: raw_encode_values alphabet_ok_def)

lemma raw_decode_encode:
  assumes "alphabet_ok al"
  shows "raw_decode al strict (raw_encode al s) = Some s"
proof -
  have clean: "filter (\<lambda>c. c \<noteq> CR \<and> c \<noteq> LF) (raw_encode al s) = raw_encode al s"
    using set_raw_encode[OF assms, of s] assms by (intro filter_True) (auto simp: alphabet_ok_def)
  have "map (IndexByte al) (raw_encode al s) = map Some (enc_values s)"
    using enc_values_less[of _ s] assms by (auto simp: raw_encode_values alphabet_ok_def IndexByte_nth)
  moreover have "those (map Some xs) = Some xs" for xs :: "nat list" by (induction xs) simp_all
  ultimately show ?thesis by (simp add: raw_decode_def clean decode_enc_values)
qed

lemma raw_encode_Nil_iff [simp]: "raw_encode al s = [] \<longleftrightarrow> s = []"
  by (induction s rule: enc_values.induct) simp_all

lemma Index_single:
  "c \<notin> set a \<Longrightarrow> Index (a @ c # b) [c] = Some (length a)"
  by (induction a) (auto simp: HasPrefix_def)

lemma Cut_single: "c \<notin> set a \<Longrightarrow> Cut (a @ c # b) [c] = Some (a, b)"
  by (simp add: Cut_def Index_single)

lemma splitSealed_format:
  assumes "valid_key_id i" "payload \<noteq> []"
  shows "splitSealed (sealedVersion @ ''.'' @ i @ ''.'' @ payload) = Inr (i, payload)"
proof -
  have "CHR ''.'' \<notin> set i" "i \<noteq> []"
    using assms(1) by (auto simp: valid_key_id_def ContainsAny_def list_ex_iff)
  moreover have "CHR ''.'' \<notin> set sealedVersion" by (simp add: sealedVersion_def)
  ultimately show ?thesis
    using assms(2) by (simp add: splitSealed_def Cut_single)
qed

section \<open>Sealing and opening\<close>

text \<open>What the code relies on of AES-GCM: opening a sealed value with the same nonce and context
  returns the plaintext.\<close>

definition aead_opens :: "aead \<Rightarrow> bool" where
  "aead_opens a = (\<forall>nonce p c. ae_Open a nonce (ae_Seal a nonce p c) c = Some p)"

definition keyring_ok :: "Keyring \<Rightarrow> bool" where
  "keyring_ok k =
    (distinct (map fst (kr_keys k)) \<and> kr_primaryID k \<in> fst ` set (kr_keys k) \<and>
     list_all valid_key_id (map fst (kr_keys k)))"

lemma parseKeySpec_valid: "parseKeySpec gcm spec = Inr (i, a) \<Longrightarrow> valid_key_id i"
  by (auto simp: parseKeySpec_def valid_key_id_def split: option.splits if_splits sum.splits)

lemma addKeys_ok:
  assumes "addKeys gcm specs keys = Inr keys'" "distinct (map fst keys)" "list_all valid_key_id (map fst keys)"
  shows "distinct (map fst keys') \<and> list_all valid_key_id (map fst keys') \<and> (\<exists>more. keys' = keys @ more \<and> length more = length specs)"
  using assms
proof (induction gcm specs keys rule: addKeys.induct)
  case (2 gcm spec specs keys)
  obtain i a where ia: "parseKeySpec gcm spec = Inr (i, a)" "i \<notin> fst ` set keys"
    "addKeys gcm specs (keys @ [(i, a)]) = Inr keys'"
    using 2(2) by (auto split: sum.splits if_splits)
  then have "distinct (map fst keys') \<and> list_all valid_key_id (map fst keys') \<and>
      (\<exists>more. keys' = (keys @ [(i, a)]) @ more \<and> length more = length specs)"
    using 2 parseKeySpec_valid[OF ia(1)] by (intro 2(1)[OF ia(1) refl ia(2,3)]) auto
  then show ?case by auto
qed simp

text \<open>A keyring built from the configuration is well formed: its key identifiers are distinct and
  of the shape a sealed value can name, and the first specification is the primary key, which is
  present.\<close>

theorem NewKeyring_ok:
  assumes "NewKeyring gcm specs = Inr k"
  shows "keyring_ok k \<and> length (kr_keys k) = length specs"
proof -
  obtain keys where keys: "addKeys gcm specs [] = Inr keys" "k = \<lparr> kr_primaryID = fst (hd keys), kr_keys = keys \<rparr>"
    and ne: "specs \<noteq> []"
    using assms by (auto simp: NewKeyring_def split: if_splits sum.splits)
  have "distinct (map fst keys) \<and> list_all valid_key_id (map fst keys) \<and> length keys = length specs"
    using addKeys_ok[OF keys(1)] by auto
  moreover from this ne have "keys \<noteq> []" by auto
  ultimately show ?thesis by (auto simp: keyring_ok_def keys(2))
qed

lemma Encrypt_payload:
  assumes "keyring_ok k" "Encrypt nonce k p c = Inr sealed"
  obtains a where "map_of (kr_keys k) (kr_primaryID k) = Some a"
    and "nonce @ ae_Seal a nonce p c \<noteq> [] \<Longrightarrow>
      splitSealed sealed = Inr (kr_primaryID k, raw_encode url_alphabet (nonce @ ae_Seal a nonce p c))"
proof -
  obtain a where a: "map_of (kr_keys k) (kr_primaryID k) = Some a"
    "sealed = sealedVersion @ ''.'' @ kr_primaryID k @ ''.'' @ raw_encode url_alphabet (nonce @ ae_Seal a nonce p c)"
    using assms(2) by (auto simp: Encrypt_def split: option.splits)
  have "valid_key_id (kr_primaryID k)" using assms(1) by (auto simp: keyring_ok_def list_all_iff)
  then have "nonce @ ae_Seal a nonce p c \<noteq> [] \<Longrightarrow>
      splitSealed sealed = Inr (kr_primaryID k, raw_encode url_alphabet (nonce @ ae_Seal a nonce p c))"
    unfolding a(2) by (intro splitSealed_format) simp_all
  with a(1) show thesis by (rule that)
qed

lemma Encrypt_opens:
  assumes "keyring_ok k" "Encrypt nonce k plaintext context = Inr sealed"
    and "map_of (kr_keys k) (kr_primaryID k) = Some a" "map_of (kr_keys k') (kr_primaryID k) = Some a"
    and "aead_opens a" "length nonce = ae_NonceSize a" "ae_NonceSize a > 0"
  shows "Decrypt k' sealed context = Inr plaintext \<and>
    NeedsRotation k' sealed = (kr_primaryID k' \<noteq> kr_primaryID k)"
proof -
  obtain a' where a': "map_of (kr_keys k) (kr_primaryID k) = Some a'" and
    split': "nonce @ ae_Seal a' nonce plaintext context \<noteq> [] \<Longrightarrow> splitSealed sealed =
      Inr (kr_primaryID k, raw_encode url_alphabet (nonce @ ae_Seal a' nonce plaintext context))"
    using Encrypt_payload[OF assms(1,2)] by blast
  have "a' = a" using a' assms(3) by simp
  then have split: "splitSealed sealed =
      Inr (kr_primaryID k, raw_encode url_alphabet (nonce @ ae_Seal a nonce plaintext context))"
    using split' assms(6,7) by fastforce
  have "raw_decode url_alphabet True (raw_encode url_alphabet (nonce @ ae_Seal a nonce plaintext context)) =
      Some (nonce @ ae_Seal a nonce plaintext context)"
    by (rule raw_decode_encode) simp
  then show ?thesis
    using split assms(4-6)
    by (auto simp: Decrypt_def NeedsRotation_def KeyIDOf_def aead_opens_def)
qed

text \<open>C30: A sealed secret opens again with the same context, also after the primary key has been
  rotated: any keyring that still holds the key under its identifier returns the plaintext, and it
  reports the value for rotation exactly when its primary key is another one.\<close>

theorem seal_open_rotation:
  assumes "keyring_ok k" "Encrypt nonce k plaintext context = Inr sealed"
    and "map_of (kr_keys k) (kr_primaryID k) = Some a" "map_of (kr_keys k') (kr_primaryID k) = Some a"
    and "aead_opens a" "length nonce = ae_NonceSize a" "ae_NonceSize a > 0"
  shows "Decrypt k' sealed context = Inr plaintext \<and>
    NeedsRotation k' sealed = (kr_primaryID k' \<noteq> kr_primaryID k)"
  using Encrypt_opens[OF assms] .

text \<open>A generated key specification is always accepted: it parses to its identifier and the very
  key bytes that were drawn.\<close>

theorem GenerateKey_accepted:
  assumes "GenerateKey key i = Inr spec" "length key = keyLen"
  shows "parseKeySpec gcm spec = Inr (i, gcm key)"
proof -
  have spec: "spec = i @ CHR '':'' # raw_encode url_alphabet key" and i: "i \<noteq> []" "length i \<le> maxKeyIDLen"
    "\<not> ContainsAny i ''.:''"
    using assms(1) by (auto simp: GenerateKey_def split: if_splits)
  have "CHR '':'' \<notin> set i" using i(3) by (auto simp: ContainsAny_def list_ex_iff)
  then have cut: "Cut spec '':'' = Some (i, raw_encode url_alphabet key)" by (simp add: spec Cut_single)
  have "CHR ''='' \<notin> set (raw_encode url_alphabet key)"
  proof -
    have "CHR ''='' \<notin> set url_alphabet" by code_simp
    then show ?thesis using set_raw_encode[of url_alphabet key] by auto
  qed
  then have "TrimRightEq (raw_encode url_alphabet key) = raw_encode url_alphabet key"
    by (cases "raw_encode url_alphabet key" rule: rev_cases) (auto simp: TrimRightEq_def)
  then have "decodeKey (raw_encode url_alphabet key) = Inr key"
    using assms(2) by (simp add: decodeKey_def raw_decode_encode Let_def)
  then show ?thesis using cut i by (simp add: parseKeySpec_def)
qed

text \<open>The comment of \<^verbatim>\<open>Decrypt\<close> gives strict base64 as the defence against altered stored
  values that still decode.  The decoder skips line breaks in strict mode too, so a value with a
  line break added anywhere in its payload still opens.\<close>

theorem sealed_value_malleable:
  assumes "Decrypt k (sealedVersion @ ''.'' @ i @ ''.'' @ p1 @ p2) context = Inr plaintext"
    and "valid_key_id i" "p1 @ p2 \<noteq> []"
  shows "Decrypt k (sealedVersion @ ''.'' @ i @ ''.'' @ p1 @ [LF] @ p2) context = Inr plaintext"
proof -
  have "raw_decode url_alphabet True (p1 @ [LF] @ p2) = raw_decode url_alphabet True (p1 @ p2)"
    by (simp add: raw_decode_def)
  then show ?thesis
    using assms splitSealed_format[OF assms(2), of "p1 @ p2"] splitSealed_format[OF assms(2), of "p1 @ [LF] @ p2"]
    by (cases "map_of (kr_keys k) i") (simp_all add: Decrypt_def)
qed

section \<open>Hashes\<close>

lemma SplitByte_none: "c \<notin> set a \<Longrightarrow> SplitByte a c = [a]"
  by (induction a) auto

lemma SplitByte_cons: "c \<notin> set a \<Longrightarrow> SplitByte (a @ c # b) c = a # SplitByte b c"
  by (induction a) auto

lemma dec_digits: "list_all is_digit (dec n)"
  by (simp add: dec_def)

lemma dec_not: "\<not> is_digit c \<Longrightarrow> c \<notin> set (dec n)"
  using dec_digits[of n] by (auto simp: list_all_iff)

lemma separators_not_digits [simp]:
  "\<not> is_digit CHR ''$''" "\<not> is_digit CHR '',''" "\<not> is_digit CHR ''=''"
  by code_simp+

lemma ParseUint32_dec: "0 \<le> n \<Longrightarrow> n < 2 ^ 32 \<Longrightarrow> ParseUint32 (dec n) = Some n"
  by (simp add: ParseUint32_def dec_def)

definition params_ok :: "Argon2Params \<Rightarrow> bool" where
  "params_ok p =
    (0 < ap_Memory p \<and> ap_Memory p < 2 ^ 32 \<and> 0 < ap_Iterations p \<and> ap_Iterations p < 2 ^ 32 \<and>
     0 < ap_Parallelism p \<and> ap_Parallelism p \<le> 255)"

lemma parseParams_format:
  assumes "params_ok p"
  shows "parseParams (''m='' @ dec (ap_Memory p) @ '',t='' @ dec (ap_Iterations p) @ '',p='' @ dec (ap_Parallelism p)) =
    Inr \<lparr> ap_Memory = ap_Memory p, ap_Iterations = ap_Iterations p, ap_Parallelism = ap_Parallelism p,
      ap_SaltLength = 0, ap_KeyLength = 0 \<rparr>"
proof -
  let ?M = "dec (ap_Memory p)" and ?T = "dec (ap_Iterations p)" and ?P = "dec (ap_Parallelism p)"
  have "SplitByte (''m='' @ ?M @ '',t='' @ ?T @ '',p='' @ ?P) CHR '','' = [''m='' @ ?M, ''t='' @ ?T, ''p='' @ ?P]"
    using SplitByte_cons[of "CHR '',''" "''m='' @ ?M" "''t='' @ ?T @ '',p='' @ ?P"]
      SplitByte_cons[of "CHR '',''" "''t='' @ ?T" "''p='' @ ?P"] SplitByte_none[of "CHR '',''" "''p='' @ ?P"]
    by (simp add: dec_not)
  moreover have "Cut (x # CHR ''='' # v) ''='' = Some ([x], v)" if "x \<noteq> CHR ''=''" for x v
    using Cut_single[of "CHR ''=''" "[x]" v] that by simp
  ultimately show ?thesis
    using assms by (simp add: parseParams_def ParseUint32_dec params_ok_def zero_params_def)
qed

lemma decodeHash_format:
  assumes "params_ok p" "salt \<noteq> []" "key \<noteq> []"
  shows "decodeHash (format_hash p salt key) =
    Inr (p\<lparr> ap_SaltLength := int (length salt), ap_KeyLength := int (length key) \<rparr>, salt, key)"
proof -
  let ?params = "''m='' @ dec (ap_Memory p) @ '',t='' @ dec (ap_Iterations p) @ '',p='' @ dec (ap_Parallelism p)"
  let ?s = "raw_encode std_alphabet salt" and ?k = "raw_encode std_alphabet key"
  have "CHR ''$'' \<notin> set std_alphabet" by code_simp
  then have b64: "CHR ''$'' \<notin> set (raw_encode std_alphabet x)" for x
    using set_raw_encode[of std_alphabet x] by auto
  have v: "CHR ''$'' \<notin> set (''v='' @ dec argon2_Version)" "CHR ''$'' \<notin> set ?params" by (simp_all add: dec_not)
  have fmt: "format_hash p salt key = [] @ CHR ''$'' # ''argon2id'' @ CHR ''$'' # (''v='' @ dec argon2_Version) @
      CHR ''$'' # ?params @ CHR ''$'' # ?s @ CHR ''$'' # ?k"
    by (simp add: format_hash_def)
  have "SplitByte (format_hash p salt key) CHR ''$'' =
      [[], ''argon2id'', ''v='' @ dec argon2_Version, ?params, ?s, ?k]"
    unfolding fmt
    by (subst SplitByte_cons, simp, subst SplitByte_cons, simp, subst SplitByte_cons, rule v,
      subst SplitByte_cons, rule v, subst SplitByte_cons, rule b64, subst SplitByte_none, rule b64, rule refl)
  moreover have "scan_version (''v='' @ dec argon2_Version) = Some argon2_Version" by code_simp
  ultimately show ?thesis
    using parseParams_format[OF assms(1)] assms(2,3)
    by (simp add: decodeHash_def raw_decode_encode)
qed

lemma hash_verifies:
  assumes "HashPasswordWith kdf salt password p = Inr encoded" "params_ok p" "salt \<noteq> []"
    and "length salt = nat (ap_SaltLength p)" "0 < ap_SaltLength p" "0 < ap_KeyLength p"
    and "\<And>pw s t m q n. length (kdf pw s t m q n) = nat n" "int (length other) \<le> MaxPasswordLen"
  shows "VerifyPassword kdf cpus encoded password = Inr (True, weakerThanDefault cpus p) \<and>
    VerifyPassword kdf cpus encoded other =
      (if kdf other salt (ap_Iterations p) (ap_Memory p) (ap_Parallelism p) (ap_KeyLength p) =
          kdf password salt (ap_Iterations p) (ap_Memory p) (ap_Parallelism p) (ap_KeyLength p)
       then Inr (True, weakerThanDefault cpus p) else Inr (False, False))"
proof -
  let ?key = "kdf password salt (ap_Iterations p) (ap_Memory p) (ap_Parallelism p) (ap_KeyLength p)"
  have enc: "encoded = format_hash p salt ?key" and len: "int (length password) \<le> MaxPasswordLen"
    using assms(1) by (auto simp: HashPasswordWith_def split: if_splits)
  have key: "length ?key = nat (ap_KeyLength p)" by (rule assms(7))
  then have "?key \<noteq> []" using assms(6) by auto
  then have "decodeHash encoded = Inr (p\<lparr> ap_SaltLength := int (length salt), ap_KeyLength := int (length ?key) \<rparr>, salt, ?key)"
    unfolding enc using assms(2,3) by (intro decodeHash_format)
  moreover have "p\<lparr> ap_SaltLength := int (length salt), ap_KeyLength := int (length ?key) \<rparr> = p"
    using assms(4,5,6) key by simp
  ultimately show ?thesis using len assms(8) by (simp add: VerifyPassword_def Let_def)
qed

text \<open>C31: A password verifies against its own hash.  For every cost the default parameters or a
  caller may use, hashing a password of at most 1024 bytes gives a string from which verification
  reads back the same cost, salt and key: the password matches, any other password matches exactly
  when the key derivation gives the same key, and a rehash is asked for exactly when the stored
  cost is below the defaults.\<close>

theorem hash_verify:
  assumes "HashPasswordWith kdf salt password p = Inr encoded" "params_ok p" "salt \<noteq> []"
    and "length salt = nat (ap_SaltLength p)" "0 < ap_SaltLength p" "0 < ap_KeyLength p"
    and "\<And>pw s t m q n. length (kdf pw s t m q n) = nat n" "int (length other) \<le> MaxPasswordLen"
  shows "VerifyPassword kdf cpus encoded password = Inr (True, weakerThanDefault cpus p) \<and>
    VerifyPassword kdf cpus encoded other =
      (if kdf other salt (ap_Iterations p) (ap_Memory p) (ap_Parallelism p) (ap_KeyLength p) =
          kdf password salt (ap_Iterations p) (ap_Memory p) (ap_Parallelism p) (ap_KeyLength p)
       then Inr (True, weakerThanDefault cpus p) else Inr (False, False))"
  using assms by (rule hash_verifies)

section \<open>Witnesses\<close>

definition toy_aead :: "string \<Rightarrow> aead" where
  "toy_aead key = \<lparr> ae_NonceSize = 2, ae_Seal = (\<lambda>n p c. p @ c),
     ae_Open = (\<lambda>n ct c. if HasSuffix ct c then Some (take (length ct - length c) ct) else None) \<rparr>"

lemma toy_aead_opens: "aead_opens (toy_aead key)"
  by (simp add: aead_opens_def toy_aead_def HasSuffix_def)

definition sample_keyring :: "string \<Rightarrow> Keyring" where
  "sample_keyring i = \<lparr> kr_primaryID = i, kr_keys = [(''k1'', toy_aead ''a''), (''k2'', toy_aead ''b'')] \<rparr>"

definition sample_sealed :: string where
  "sample_sealed = (case Encrypt ''nn'' (sample_keyring ''k1'') ''secret'' ''ctx'' of Inr s \<Rightarrow> s | Inl _ \<Rightarrow> [])"

theorem seal_open_rotation_witness:
  "Decrypt (sample_keyring ''k2'') sample_sealed ''ctx'' = Inr ''secret'' \<and>
   NeedsRotation (sample_keyring ''k2'') sample_sealed"
proof -
  have "Encrypt ''nn'' (sample_keyring ''k1'') ''secret'' ''ctx'' = Inr sample_sealed"
    by (simp add: sample_sealed_def Encrypt_def sample_keyring_def)
  moreover have "keyring_ok (sample_keyring ''k1'')"
    by (simp add: keyring_ok_def sample_keyring_def valid_key_id_def maxKeyIDLen_def ContainsAny_def)
  moreover have "ae_NonceSize (toy_aead ''a'') = 2" by (simp add: toy_aead_def)
  ultimately show ?thesis
    using seal_open_rotation[of "sample_keyring ''k1''" "''nn''" "''secret''" "''ctx''" sample_sealed
        "toy_aead ''a''" "sample_keyring ''k2''"] toy_aead_opens
    by (simp add: sample_keyring_def)
qed

definition sample_specs :: "string list" where
  "sample_specs = [''k1:AAAAAAAAAAAAAAAAAAAAAAAAAAAAAAAAAAAAAAAAAAA='', ''k2:BBBBBBBBBBBBBBBBBBBBBBBBBBBBBBBBBBBBBBBBBBA'']"

theorem NewKeyring_ok_witness:
  "\<exists>k. NewKeyring toy_aead sample_specs = Inr k \<and> keyring_ok k \<and> length (kr_keys k) = 2"
proof -
  have "case addKeys toy_aead sample_specs [] of Inl _ \<Rightarrow> False | Inr _ \<Rightarrow> True" by code_simp
  then obtain k where k: "NewKeyring toy_aead sample_specs = Inr k"
    by (cases "addKeys toy_aead sample_specs []") (auto simp: NewKeyring_def sample_specs_def)
  then show ?thesis using NewKeyring_ok[OF k] by (simp add: sample_specs_def)
qed

definition sample_spec :: string where
  "sample_spec = ''k9:AAAAAAAAAAAAAAAAAAAAAAAAAAAAAAAAAAAAAAAAAAA''"

theorem GenerateKey_accepted_witness:
  "parseKeySpec toy_aead sample_spec = Inr (''k9'', toy_aead (replicate 32 NUL))"
proof -
  have "GenerateKey (replicate 32 NUL) ''k9'' = Inr sample_spec" by code_simp
  then show ?thesis using GenerateKey_accepted[of "replicate 32 NUL" "''k9''" sample_spec toy_aead]
    by (simp add: keyLen_def)
qed

definition toy_kdf :: idkey where
  "toy_kdf pw s t m q n = take (nat n) (pw @ s @ replicate (nat n) NUL)"

definition toy_params :: Argon2Params where
  "toy_params = \<lparr> ap_Memory = 8, ap_Iterations = 1, ap_Parallelism = 1, ap_SaltLength = 2, ap_KeyLength = 6 \<rparr>"

definition toy_hash :: string where
  "toy_hash = format_hash toy_params ''sa'' (toy_kdf ''pw'' ''sa'' 1 8 1 6)"

theorem hash_verify_witness:
  "VerifyPassword toy_kdf 4 toy_hash ''pw'' = Inr (True, True) \<and>
   VerifyPassword toy_kdf 4 toy_hash ''no'' = Inr (False, False)"
proof -
  have "HashPasswordWith toy_kdf ''sa'' ''pw'' toy_params = Inr toy_hash"
    by (simp add: HashPasswordWith_def toy_hash_def toy_params_def MaxPasswordLen_def)
  moreover have "params_ok toy_params" by (simp add: params_ok_def toy_params_def)
  moreover have "length (toy_kdf pw s t m q n) = nat n" for pw s t m q n by (simp add: toy_kdf_def)
  moreover have "toy_kdf ''no'' ''sa'' 1 8 1 6 \<noteq> toy_kdf ''pw'' ''sa'' 1 8 1 6" by (simp add: toy_kdf_def)
  moreover have "weakerThanDefault 4 toy_params" by (simp add: weakerThanDefault_def DefaultArgon2Params_def toy_params_def)
  ultimately show ?thesis
    using hash_verify[of toy_kdf "''sa''" "''pw''" toy_params toy_hash "''no''" 4]
    by (simp add: toy_params_def MaxPasswordLen_def)
qed

end
