(* ===== verification/Messages.thy ===== *)
theory Messages
  imports Models "HOL-Library.Product_Lexorder" "HOL-Library.List_Lexorder" "HOL-Library.Char_ord"
begin

text \<open>
  The message queue of \<^verbatim>\<open>src/internal/store/messages.go\<close> and
  \<^verbatim>\<open>diagnostics.go\<close>: every SQL statement is a function on the tables.  The instant a
  statement reads from the clock and the identifier \<^verbatim>\<open>NewID\<close> would generate are arguments.
  Each statement is atomic, as both engines guarantee; \<^verbatim>\<open>InTx\<close> is the sequential
  composition that keeps the old database when a step fails.

  The theory ends with the queue as a transition system shared by any number of workers,
  operators and the housekeeping loop (\<open>queue_step\<close>), and its invariants.
\<close>

section \<open>Statements\<close>

definition requireOneRow :: "nat \<Rightarrow> DB \<Rightarrow> DB store_result" where
  "requireOneRow n db = (if n = 0 then Inl ErrNotFound else Inr db)"

text \<open>Rows that \<^verbatim>\<open>ON DELETE CASCADE\<close> and \<^verbatim>\<open>ON DELETE SET NULL\<close> reach from a deleted message.\<close>

definition deleteMessages :: "(Message \<Rightarrow> bool) \<Rightarrow> DB \<Rightarrow> DB" where
  "deleteMessages p db =
    (let gone = (\<lambda>i. \<exists>m\<in>set (t_messages db). p m \<and> msg_ID m = i) in
     db\<lparr> t_messages := delete_where p (t_messages db),
         t_blobs := delete_where (\<lambda>b. gone (fst b)) (t_blobs db),
         t_diagnostics := update_where
           (\<lambda>d. case dr_MessageID d of None \<Rightarrow> False | Some i \<Rightarrow> gone i)
           (\<lambda>d. d\<lparr> dr_MessageID := None \<rparr>) (t_diagnostics db) \<rparr>)"

definition updateMessages :: "(Message \<Rightarrow> bool) \<Rightarrow> (Message \<Rightarrow> Message) \<Rightarrow> DB \<Rightarrow> DB" where
  "updateMessages p f db = db\<lparr> t_messages := update_where p f (t_messages db) \<rparr>"

abbreviation messages_affected :: "(Message \<Rightarrow> bool) \<Rightarrow> DB \<Rightarrow> nat" where
  "messages_affected p db \<equiv> rows_affected p (t_messages db)"

section \<open>Enqueue\<close>

text \<open>The defaults \<^verbatim>\<open>enqueueTx\<close> fills in before it writes the row.\<close>

definition enqueueDefaults :: "instant \<Rightarrow> string \<Rightarrow> Message \<Rightarrow> Message" where
  "enqueueDefaults now newID m =
    m\<lparr> msg_Origin := (if msg_Origin m = '''' then ''smtp'' else msg_Origin m),
       msg_ID := (if msg_ID m = '''' then newID else msg_ID m),
       msg_ReceivedAt := (if msg_ReceivedAt m = zero_time then now else msg_ReceivedAt m),
       msg_NextAttemptAt := (if msg_NextAttemptAt m = zero_time then now else msg_NextAttemptAt m),
       msg_UpdatedAt := now,
       msg_Status := (if msg_Status m = StatusUnset then StatusQueued else msg_Status m),
       msg_RecipientCount := int (length (msg_Recipients m)) \<rparr>"

definition foreignKeysHold :: "DB \<Rightarrow> Message \<Rightarrow> bool" where
  "foreignKeysHold db m =
    ((case msg_SMTPAccountID m of None \<Rightarrow> True
      | Some a \<Rightarrow> list_ex (\<lambda>r. acc_ID r = a) (t_accounts db)) \<and>
     (case msg_MailboxID m of None \<Rightarrow> True
      | Some b \<Rightarrow> list_ex (\<lambda>r. mb_ID r = b) (t_mailboxes db)))"

definition enqueueTx ::
  "instant \<Rightarrow> string \<Rightarrow> Message \<Rightarrow> string option \<Rightarrow> DB \<Rightarrow> (Message \<times> DB) store_result" where
  "enqueueTx now newID m0 body db =
    (let m = enqueueDefaults now newID m0 in
     if list_ex (\<lambda>r. msg_ID r = msg_ID m) (t_messages db)
     then Inl (translateError UniqueViolation)
     else if \<not> foreignKeysHold db m then Inl (translateError ForeignKeyViolation)
     else
       (let db1 = db\<lparr> t_messages := t_messages db @ [m] \<rparr> in
        (case body of
           None \<Rightarrow> Inr (m, db1)
         | Some content \<Rightarrow>
             if list_ex (\<lambda>b. fst b = msg_ID m) (t_blobs db1) then Inl ErrDriver
             else Inr (m, db1\<lparr> t_blobs := t_blobs db1 @ [(msg_ID m, content)] \<rparr>))))"

text \<open>\<^verbatim>\<open>InTx\<close>: on an error nothing of the transaction remains, so the caller keeps \<open>db\<close>.\<close>

definition Enqueue ::
  "instant \<Rightarrow> string \<Rightarrow> Message \<Rightarrow> string option \<Rightarrow> DB \<Rightarrow> (Message \<times> DB) store_result" where
  "Enqueue now newID m body db = enqueueTx now newID m body db"

section \<open>Reading\<close>

definition Body :: "DB \<Rightarrow> string \<Rightarrow> string store_result" where
  "Body db i = (case select_one (\<lambda>b. fst b = i) (t_blobs db) of
      None \<Rightarrow> Inl (translateError NoRows)
    | Some b \<Rightarrow> Inr (snd b))"

definition Messages_Get :: "DB \<Rightarrow> string \<Rightarrow> Message store_result" where
  "Messages_Get db i = (case select_one (\<lambda>m. msg_ID m = i) (t_messages db) of
      None \<Rightarrow> Inl (translateError NoRows)
    | Some m \<Rightarrow> Inr m)"

section \<open>Claiming\<close>

text \<open>The WHERE clause of the claim.  A comparison with NULL is not true.\<close>

definition lease_before :: "instant \<Rightarrow> Message \<Rightarrow> bool" where
  "lease_before now m = (case msg_LeaseExpiresAt m of None \<Rightarrow> False | Some t \<Rightarrow> t < now)"

definition claimable :: "instant \<Rightarrow> Message \<Rightarrow> bool" where
  "claimable now m =
    ((msg_Status m \<in> {StatusQueued, StatusDeferred} \<and> msg_NextAttemptAt m \<le> now \<or>
      msg_Status m = StatusSending \<and> lease_before now m) \<and>
     (msg_LeaseOwner m = None \<or> msg_LeaseExpiresAt m = None \<or> lease_before now m))"

definition claimIDs :: "instant \<Rightarrow> int \<Rightarrow> Message list \<Rightarrow> string list" where
  "claimIDs now limit rows =
    map msg_ID (take (nat limit) (sort_key msg_NextAttemptAt (filter (claimable now) rows)))"

definition takeLease :: "string \<Rightarrow> instant \<Rightarrow> instant \<Rightarrow> Message \<Rightarrow> Message" where
  "takeLease owner leaseUntil now m =
    m\<lparr> msg_Status := StatusSending, msg_LeaseOwner := Some owner,
       msg_LeaseExpiresAt := Some leaseUntil, msg_UpdatedAt := now \<rparr>"

definition holdsLease :: "string \<Rightarrow> instant \<Rightarrow> Message \<Rightarrow> bool" where
  "holdsLease owner leaseUntil m =
    (msg_LeaseOwner m = Some owner \<and> msg_LeaseExpiresAt m = Some leaseUntil \<and>
     msg_Status m = StatusSending)"

definition ClaimMessages ::
  "string \<Rightarrow> int \<Rightarrow> duration \<Rightarrow> instant \<Rightarrow> DB \<Rightarrow> (Message list \<times> DB) store_result" where
  "ClaimMessages owner limit leaseFor now db =
    (if owner = '''' then Inl ErrNoWorkerIdentity
     else if limit \<le> 0 then Inr ([], db)
     else
       (let leaseUntil = now + leaseFor;
            ids = claimIDs now limit (t_messages db);
            db1 = updateMessages (\<lambda>m. msg_ID m \<in> set ids) (takeLease owner leaseUntil now) db
        in if ids = [] then Inr ([], db1)
           else Inr (sort_key msg_NextAttemptAt
                       (filter (holdsLease owner leaseUntil) (t_messages db1)), db1)))"

section \<open>Finishing a delivery\<close>

definition ownedBy :: "string \<Rightarrow> string \<Rightarrow> Message \<Rightarrow> bool" where
  "ownedBy i owner m = (msg_ID m = i \<and> msg_LeaseOwner m = Some owner)"

definition updateOwned ::
  "string \<Rightarrow> string \<Rightarrow> (Message \<Rightarrow> Message) \<Rightarrow> DB \<Rightarrow> DB store_result" where
  "updateOwned i owner f db =
    requireOneRow (messages_affected (ownedBy i owner) db) (updateMessages (ownedBy i owner) f db)"

definition ExtendLease :: "string \<Rightarrow> string \<Rightarrow> duration \<Rightarrow> instant \<Rightarrow> DB \<Rightarrow> DB store_result" where
  "ExtendLease i owner leaseFor now db =
    updateOwned i owner
      (\<lambda>m. m\<lparr> msg_LeaseExpiresAt := Some (now + leaseFor), msg_UpdatedAt := now \<rparr>) db"

definition MarkSent :: "string \<Rightarrow> string \<Rightarrow> instant \<Rightarrow> DB \<Rightarrow> DB store_result" where
  "MarkSent i owner now db =
    updateOwned i owner
      (\<lambda>m. m\<lparr> msg_Status := StatusSent, msg_SentAt := Some now, msg_UpdatedAt := now,
              msg_Attempts := msg_Attempts m + 1, msg_LeaseOwner := None,
              msg_LeaseExpiresAt := None, msg_LastError := '''', msg_LastErrorCode := '''' \<rparr>) db"

record Failure =
  fl_Code :: string
  fl_Message :: string
  fl_Permanent :: bool

definition Defer ::
  "string \<Rightarrow> string \<Rightarrow> Failure \<Rightarrow> instant \<Rightarrow> instant \<Rightarrow> DB \<Rightarrow> DB store_result" where
  "Defer i owner f retryAt now db =
    updateOwned i owner
      (\<lambda>m. m\<lparr> msg_Status := StatusDeferred, msg_Attempts := msg_Attempts m + 1,
              msg_NextAttemptAt := retryAt, msg_LastError := fl_Message f,
              msg_LastErrorCode := fl_Code f, msg_LastErrorPermanent := False,
              msg_LeaseOwner := None, msg_LeaseExpiresAt := None, msg_UpdatedAt := now \<rparr>) db"

definition Fail :: "string \<Rightarrow> string \<Rightarrow> Failure \<Rightarrow> instant \<Rightarrow> DB \<Rightarrow> DB store_result" where
  "Fail i owner f now db =
    updateOwned i owner
      (\<lambda>m. m\<lparr> msg_Status := StatusFailed, msg_Attempts := msg_Attempts m + 1,
              msg_LastError := fl_Message f, msg_LastErrorCode := fl_Code f,
              msg_LastErrorPermanent := fl_Permanent f,
              msg_LeaseOwner := None, msg_LeaseExpiresAt := None, msg_UpdatedAt := now \<rparr>) db"

section \<open>Operator actions\<close>

text \<open>\<open>n\<close> is the number of rows the statement changed; the follow-up \<^verbatim>\<open>Get\<close> reads the
  database after it.\<close>

definition requireAction :: "nat \<Rightarrow> string \<Rightarrow> DB \<Rightarrow> DB store_result" where
  "requireAction n i db =
    (if n > 0 then Inr db
     else (case Messages_Get db i of Inl e \<Rightarrow> Inl e | Inr _ \<Rightarrow> Inl ErrStateConflict))"

definition in_status :: "string \<Rightarrow> MessageStatus list \<Rightarrow> Message \<Rightarrow> bool" where
  "in_status i sts m = (msg_ID m = i \<and> msg_Status m \<in> set sts)"

definition Requeue :: "string \<Rightarrow> instant \<Rightarrow> DB \<Rightarrow> DB store_result" where
  "Requeue i now db =
    (let p = in_status i [StatusFailed, StatusDeferred, StatusHeld] in
     requireAction (messages_affected p db) i
       (updateMessages p (\<lambda>m. m\<lparr> msg_Status := StatusQueued, msg_NextAttemptAt := now,
          msg_UpdatedAt := now, msg_LeaseOwner := None, msg_LeaseExpiresAt := None \<rparr>) db))"

definition Hold :: "string \<Rightarrow> instant \<Rightarrow> DB \<Rightarrow> DB store_result" where
  "Hold i now db =
    (let p = in_status i [StatusQueued, StatusDeferred, StatusFailed] in
     requireAction (messages_affected p db) i
       (updateMessages p (\<lambda>m. m\<lparr> msg_Status := StatusHeld, msg_UpdatedAt := now,
          msg_LeaseOwner := None, msg_LeaseExpiresAt := None \<rparr>) db))"

definition Messages_Delete :: "string \<Rightarrow> DB \<Rightarrow> DB store_result" where
  "Messages_Delete i db =
    (let p = (\<lambda>m. msg_ID m = i \<and> msg_Status m \<noteq> StatusSending) in
     requireAction (messages_affected p db) i (deleteMessages p db))"

section \<open>Housekeeping\<close>

definition leaseExpired :: "instant \<Rightarrow> Message \<Rightarrow> bool" where
  "leaseExpired now m = (msg_Status m = StatusSending \<and> lease_before now m)"

definition ReleaseExpiredLeases :: "instant \<Rightarrow> DB \<Rightarrow> nat \<times> DB" where
  "ReleaseExpiredLeases now db =
    (messages_affected (leaseExpired now) db,
     updateMessages (leaseExpired now)
       (\<lambda>m. m\<lparr> msg_Status := StatusQueued, msg_LeaseOwner := None,
               msg_LeaseExpiresAt := None, msg_UpdatedAt := now \<rparr>) db)"

definition purgeable :: "instant \<Rightarrow> instant \<Rightarrow> Message \<Rightarrow> bool" where
  "purgeable sentBefore failedBefore m =
    (msg_Status m = StatusSent \<and> msg_UpdatedAt m < sentBefore \<or>
     msg_Status m = StatusFailed \<and> msg_UpdatedAt m < failedBefore)"

definition Purge :: "instant \<Rightarrow> instant \<Rightarrow> DB \<Rightarrow> nat \<times> DB" where
  "Purge sentBefore failedBefore db =
    (messages_affected (purgeable sentBefore failedBefore) db,
     deleteMessages (purgeable sentBefore failedBefore) db)"

section \<open>Listing\<close>

record MessageFilter =
  mf_Status :: "MessageStatus list"
  mf_MailboxID :: string
  mf_AccountID :: string
  mf_Search :: string
  mf_Since :: instant
  mf_Until :: instant
  mf_Limit :: int
  mf_Offset :: int

text \<open>The rows a filter selects: the conjunction that \<^verbatim>\<open>build\<close> writes as a WHERE clause.
  \<open>like\<close> is the engine's LIKE operator and \<open>json\<close> the encoding of the recipients column.\<close>

definition filterMatches ::
  "(string \<Rightarrow> string \<Rightarrow> bool) \<Rightarrow> (string list \<Rightarrow> string) \<Rightarrow> MessageFilter \<Rightarrow> Message \<Rightarrow> bool" where
  "filterMatches like json f m =
    ((mf_Status f = [] \<or> msg_Status m \<in> set (mf_Status f)) \<and>
     (mf_MailboxID f = '''' \<or> msg_MailboxID m = Some (mf_MailboxID f)) \<and>
     (mf_AccountID f = '''' \<or> msg_SMTPAccountID m = Some (mf_AccountID f)) \<and>
     (mf_Search f = '''' \<or>
        (let pat = ''%'' @ mf_Search f @ ''%'' in
         like pat (msg_EnvelopeFrom m) \<or> like pat (msg_HeaderFrom m) \<or>
         like pat (json (msg_Recipients m)))) \<and>
     (mf_Since f = zero_time \<or> mf_Since f \<le> msg_ReceivedAt m) \<and>
     (mf_Until f = zero_time \<or> msg_ReceivedAt m \<le> mf_Until f))"

definition pageLimit :: "int \<Rightarrow> nat" where
  "pageLimit limit = (if limit \<le> 0 \<or> limit > 500 then 100 else nat limit)"

definition Messages_List ::
  "(string \<Rightarrow> string \<Rightarrow> bool) \<Rightarrow> (string list \<Rightarrow> string) \<Rightarrow> DB \<Rightarrow> MessageFilter \<Rightarrow> Message list" where
  "Messages_List like json db f =
    take (pageLimit (mf_Limit f)) (drop (nat (mf_Offset f))
      (rev (sort_key (\<lambda>m. (msg_ReceivedAt m, msg_ID m))
        (filter (filterMatches like json f) (t_messages db)))))"

definition Messages_Count ::
  "(string \<Rightarrow> string \<Rightarrow> bool) \<Rightarrow> (string list \<Rightarrow> string) \<Rightarrow> DB \<Rightarrow> MessageFilter \<Rightarrow> nat" where
  "Messages_Count like json db f = length (filter (filterMatches like json f) (t_messages db))"

definition CountByStatus :: "DB \<Rightarrow> MessageStatus \<Rightarrow> nat" where
  "CountByStatus db st = length (filter (\<lambda>m. msg_Status m = st) (t_messages db))"

section \<open>The queue invariant\<close>

text \<open>A row is leased exactly while it is being sent, and a lease has both an owner and an
  expiry.\<close>

definition lease_ok :: "Message \<Rightarrow> bool" where
  "lease_ok m =
    (msg_Status m \<noteq> StatusUnset \<and>
     (msg_Status m = StatusSending \<longleftrightarrow> msg_LeaseOwner m \<noteq> None) \<and>
     (msg_LeaseOwner m = None \<longleftrightarrow> msg_LeaseExpiresAt m = None))"

definition queue_ok :: "DB \<Rightarrow> bool" where
  "queue_ok db =
    (unique_key msg_ID (t_messages db) \<and> list_all lease_ok (t_messages db) \<and>
     unique_key fst (t_blobs db) \<and>
     list_all (\<lambda>b. list_ex (\<lambda>m. msg_ID m = fst b) (t_messages db)) (t_blobs db))"

text \<open>What the callers of \<^verbatim>\<open>Enqueue\<close> pass: no status and no lease.\<close>

definition fresh_submission :: "Message \<Rightarrow> bool" where
  "fresh_submission m =
    (msg_Status m = StatusUnset \<and> msg_LeaseOwner m = None \<and> msg_LeaseExpiresAt m = None)"

named_theorems queue_preserve \<open>each queue operation keeps the queue invariant\<close>

lemma queue_ok_update:
  assumes "queue_ok db" "\<And>m. p m \<Longrightarrow> msg_ID (f m) = msg_ID m"
    and "\<And>m. p m \<Longrightarrow> lease_ok m \<Longrightarrow> lease_ok (f m)"
  shows "queue_ok (updateMessages p f db)"
proof -
  have ids: "list_ex (\<lambda>m. msg_ID m = i) (update_where p f (t_messages db)) =
      list_ex (\<lambda>m. msg_ID m = i) (t_messages db)" for i
    using assms(2) by (auto simp: list_ex_iff update_where_def)
  show ?thesis
    using assms
    by (auto simp: queue_ok_def updateMessages_def unique_key_update list_all_iff
        set_update_where ids)
qed

lemma queue_ok_delete:
  assumes "queue_ok db"
  shows "queue_ok (deleteMessages p db)"
proof -
  have "list_ex (\<lambda>m. msg_ID m = fst b) (delete_where p (t_messages db))"
    if b: "b \<in> set (t_blobs db)" "\<not> (\<exists>m\<in>set (t_messages db). p m \<and> msg_ID m = fst b)" for b
  proof -
    have "list_ex (\<lambda>m. msg_ID m = fst b) (t_messages db)"
      using assms b(1) by (auto simp: queue_ok_def list_all_iff)
    with b(2) show ?thesis by (auto simp: list_ex_iff set_delete_where)
  qed
  with assms show ?thesis
    by (auto simp: queue_ok_def deleteMessages_def Let_def unique_key_delete list_all_iff
        set_delete_where)
qed

lemma queue_ok_Enqueue [queue_preserve]:
  assumes "queue_ok db" "fresh_submission m" "Enqueue now newID m body db = Inr (m', db')"
  shows "queue_ok db'"
proof -
  define row where "row = enqueueDefaults now newID m"
  have fresh: "msg_ID row \<notin> msg_ID ` set (t_messages db)" and m': "m' = row"
    and db': "db' = db\<lparr> t_messages := t_messages db @ [row],
        t_blobs := t_blobs db @ (case body of None \<Rightarrow> [] | Some c \<Rightarrow> [(msg_ID row, c)]) \<rparr>"
    and nb: "body \<noteq> None \<Longrightarrow> msg_ID row \<notin> fst ` set (t_blobs db)"
    using assms(3)
    by (auto simp: Enqueue_def enqueueTx_def row_def[symmetric] Let_def list_ex_iff
        split: if_splits option.splits)
  have "lease_ok row"
    using assms(2) by (auto simp: row_def lease_ok_def fresh_submission_def enqueueDefaults_def)
  with assms(1) fresh nb show ?thesis
    unfolding db' by (cases body) (auto simp: queue_ok_def unique_key_snoc list_all_iff list_ex_iff)
qed

lemma queue_ok_Claim [queue_preserve]:
  assumes "queue_ok db" "ClaimMessages owner limit leaseFor now db = Inr (ms, db')"
  shows "queue_ok db'"
proof (cases "limit \<le> 0")
  case True
  with assms show ?thesis by (auto simp: ClaimMessages_def split: if_splits)
next
  case False
  then have "db' = updateMessages (\<lambda>m. msg_ID m \<in> set (claimIDs now limit (t_messages db)))
      (takeLease owner (now + leaseFor) now) db"
    using assms(2) by (auto simp: ClaimMessages_def Let_def split: if_splits)
  then show ?thesis
    using assms(1) by (auto intro!: queue_ok_update simp: takeLease_def lease_ok_def)
qed

lemma updateOwned_cases:
  "updateOwned i owner f db =
    (if list_ex (ownedBy i owner) (t_messages db)
     then Inr (updateMessages (ownedBy i owner) f db) else Inl ErrNotFound)"
  by (auto simp: updateOwned_def requireOneRow_def rows_affected_0_iff list_ex_iff
      dest!: rows_affected_0_iff[THEN iffD1])

lemma queue_ok_updateOwned:
  assumes "queue_ok db" "updateOwned i owner f db = Inr db'" "\<And>m. msg_ID (f m) = msg_ID m"
    and "\<And>m. ownedBy i owner m \<Longrightarrow> lease_ok m \<Longrightarrow> lease_ok (f m)"
  shows "queue_ok db'"
  using assms by (auto simp: updateOwned_cases intro!: queue_ok_update split: if_splits)

lemma queue_ok_ExtendLease [queue_preserve]:
  "queue_ok db \<Longrightarrow> ExtendLease i owner leaseFor now db = Inr db' \<Longrightarrow> queue_ok db'"
  by (auto simp: ExtendLease_def lease_ok_def ownedBy_def elim!: queue_ok_updateOwned)

lemma queue_ok_MarkSent [queue_preserve]:
  "queue_ok db \<Longrightarrow> MarkSent i owner now db = Inr db' \<Longrightarrow> queue_ok db'"
  by (auto simp: MarkSent_def lease_ok_def elim!: queue_ok_updateOwned)

lemma queue_ok_Defer [queue_preserve]:
  "queue_ok db \<Longrightarrow> Defer i owner fl retryAt now db = Inr db' \<Longrightarrow> queue_ok db'"
  by (auto simp: Defer_def lease_ok_def elim!: queue_ok_updateOwned)

lemma queue_ok_Fail [queue_preserve]:
  "queue_ok db \<Longrightarrow> Fail i owner fl now db = Inr db' \<Longrightarrow> queue_ok db'"
  by (auto simp: Fail_def lease_ok_def elim!: queue_ok_updateOwned)

lemma requireAction_Inr_iff: "requireAction n i db = Inr db' \<longleftrightarrow> n > 0 \<and> db' = db"
  by (auto simp: requireAction_def split: sum.splits)

lemma queue_ok_Requeue [queue_preserve]:
  "queue_ok db \<Longrightarrow> Requeue i now db = Inr db' \<Longrightarrow> queue_ok db'"
  by (auto simp: Requeue_def Let_def requireAction_Inr_iff lease_ok_def intro!: queue_ok_update)

lemma queue_ok_Hold [queue_preserve]:
  "queue_ok db \<Longrightarrow> Hold i now db = Inr db' \<Longrightarrow> queue_ok db'"
  by (auto simp: Hold_def Let_def requireAction_Inr_iff lease_ok_def intro!: queue_ok_update)

lemma queue_ok_Delete [queue_preserve]:
  "queue_ok db \<Longrightarrow> Messages_Delete i db = Inr db' \<Longrightarrow> queue_ok db'"
  by (auto simp: Messages_Delete_def Let_def requireAction_Inr_iff intro!: queue_ok_delete)

lemma queue_ok_Release [queue_preserve]:
  "queue_ok db \<Longrightarrow> queue_ok (snd (ReleaseExpiredLeases now db))"
  by (auto simp: ReleaseExpiredLeases_def lease_ok_def intro!: queue_ok_update)

lemma queue_ok_Purge [queue_preserve]:
  "queue_ok db \<Longrightarrow> queue_ok (snd (Purge sb fb db))"
  by (auto simp: Purge_def intro!: queue_ok_delete)

section \<open>What a claim takes\<close>

lemma ClaimMessages_Inr:
  assumes "ClaimMessages owner limit leaseFor now db = Inr (ms, db')" "limit > 0"
  defines "ids \<equiv> claimIDs now limit (t_messages db)"
  shows "owner \<noteq> ''''"
    and "db' = updateMessages (\<lambda>m. msg_ID m \<in> set ids) (takeLease owner (now + leaseFor) now) db"
    and "set ms \<subseteq> {m \<in> set (t_messages db'). holdsLease owner (now + leaseFor) m}"
    and "ids \<noteq> [] \<Longrightarrow> set ms = {m \<in> set (t_messages db'). holdsLease owner (now + leaseFor) m}"
    and "ids = [] \<Longrightarrow> ms = []"
  using assms by (auto simp: ClaimMessages_def Let_def split: if_splits)

lemma claimIDs_subset: "i \<in> set (claimIDs now limit rows) \<Longrightarrow> \<exists>m\<in>set rows. msg_ID m = i \<and> claimable now m"
  by (auto simp: claimIDs_def dest!: in_set_takeD)

lemma claimIDs_Nil_iff: "limit > 0 \<Longrightarrow> claimIDs now limit rows = [] \<longleftrightarrow> (\<forall>m\<in>set rows. \<not> claimable now m)"
proof -
  assume "limit > 0"
  then have "claimIDs now limit rows = [] \<longleftrightarrow> sort_key msg_NextAttemptAt (filter (claimable now) rows) = []"
    by (simp add: claimIDs_def)
  also have "\<dots> \<longleftrightarrow> set (sort_key msg_NextAttemptAt (filter (claimable now) rows)) = {}"
    by (rule set_empty[symmetric])
  finally show ?thesis by auto
qed

lemma length_claimIDs: "length (claimIDs now limit rows) \<le> nat limit"
  by (simp add: claimIDs_def)

lemma claimIDs_unique_claimable:
  assumes "unique_key msg_ID rows" "m \<in> set rows" "msg_ID m \<in> set (claimIDs now limit rows)"
  shows "claimable now m"
  using claimIDs_subset[OF assms(3)] unique_keyD[OF assms(1) _ assms(2)] by auto

lemma sort_key_take_le:
  assumes "x \<in> set (take n (sort_key f xs))" "y \<in> set (drop n (sort_key f xs))"
  shows "f x \<le> f y"
proof -
  let ?s = "sort_key f xs"
  have "sorted (map f (take n ?s @ drop n ?s))" by simp
  then show ?thesis using assms by (auto simp del: append_take_drop_id simp: sorted_append)
qed

lemma claimIDs_earliest:
  assumes "unique_key msg_ID rows" "m \<in> set rows" "msg_ID m \<in> set (claimIDs now limit rows)"
    and "m' \<in> set rows" "claimable now m'" "msg_ID m' \<notin> set (claimIDs now limit rows)"
  shows "msg_NextAttemptAt m \<le> msg_NextAttemptAt m'"
proof -
  let ?s = "sort_key msg_NextAttemptAt (filter (claimable now) rows)"
  obtain x where x: "x \<in> set (take (nat limit) ?s)" "msg_ID x = msg_ID m"
    using assms(3) by (auto simp: claimIDs_def)
  then have "x \<in> set rows" by (auto dest!: in_set_takeD)
  then have "x = m" using x(2) unique_keyD[OF assms(1) _ assms(2)] by simp
  moreover have "m' \<in> set ?s" using assms(4,5) by simp
  then have "m' \<in> set (take (nat limit) ?s) \<union> set (drop (nat limit) ?s)"
    by (metis append_take_drop_id set_append)
  moreover have "m' \<notin> set (take (nat limit) ?s)"
    using assms(6) by (auto simp: claimIDs_def)
  ultimately show ?thesis
    using x(1) sort_key_take_le[of x "nat limit" msg_NextAttemptAt "filter (claimable now) rows" m']
    by simp
qed

lemma ClaimMessages_total:
  "owner \<noteq> [] \<Longrightarrow> \<exists>ms db'. ClaimMessages owner limit leaseFor now db = Inr (ms, db')"
  by (auto simp: ClaimMessages_def Let_def)

lemma claim_not_empty:
  assumes "ClaimMessages owner limit leaseFor now db = Inr (ms, db')" "limit > 0"
    and "list_ex (claimable now) (t_messages db)"
  shows "ms \<noteq> []"
proof -
  note inr = ClaimMessages_Inr[OF assms(1,2)]
  have ne: "claimIDs now limit (t_messages db) \<noteq> []"
    using claimIDs_Nil_iff[OF assms(2)] assms(3) by (auto simp: list_ex_iff)
  define i where "i = hd (claimIDs now limit (t_messages db))"
  have i: "i \<in> set (claimIDs now limit (t_messages db))" using ne by (simp add: i_def)
  then obtain r where r: "r \<in> set (t_messages db)" "msg_ID r = i"
    using claimIDs_subset by fastforce
  then have "takeLease owner (now + leaseFor) now r \<in> set (t_messages db')"
    using i inr(2) by (auto simp: updateMessages_def set_update_where)
  then have "takeLease owner (now + leaseFor) now r \<in> set ms"
    using inr(4)[OF ne] by (simp add: holdsLease_def takeLease_def)
  then show ?thesis by auto
qed

section \<open>The queue shared by workers\<close>

text \<open>A delivery in flight: the worker, the message, and the instant its lease ends.\<close>

type_synonym delivery = "string \<times> string \<times> instant"

record queue_sys =
  qs_db :: DB
  qs_now :: instant
  qs_inflight :: "delivery list"

datatype outcome =
    OSent
  | ODeferred Failure instant
  | OFailed Failure

definition finish :: "outcome \<Rightarrow> string \<Rightarrow> string \<Rightarrow> instant \<Rightarrow> DB \<Rightarrow> DB store_result" where
  "finish oc i owner now db =
    (case oc of
       OSent \<Rightarrow> MarkSent i owner now db
     | ODeferred f retryAt \<Rightarrow> Defer i owner f retryAt now db
     | OFailed f \<Rightarrow> Fail i owner f now db)"

definition outcome_status :: "outcome \<Rightarrow> MessageStatus" where
  "outcome_status oc = (case oc of
      OSent \<Rightarrow> StatusSent | ODeferred _ _ \<Rightarrow> StatusDeferred | OFailed _ \<Rightarrow> StatusFailed)"

definition after :: "DB \<Rightarrow> DB store_result \<Rightarrow> DB" where
  "after db r = (case r of Inl _ \<Rightarrow> db | Inr db' \<Rightarrow> db')"

text \<open>One step of the system.  \<open>orderly\<close> restricts claims to messages the worker is not still
  delivering; without it a worker whose delivery outlived its lease can claim the message
  again while the first delivery is running.\<close>

inductive queue_step :: "bool \<Rightarrow> queue_sys \<Rightarrow> queue_sys \<Rightarrow> bool" for orderly where
  Submit: "fresh_submission m \<Longrightarrow> Enqueue (qs_now s) newID m body (qs_db s) = Inr (m', db') \<Longrightarrow>
     queue_step orderly s (s\<lparr> qs_db := db' \<rparr>)"
| Claim: "ClaimMessages owner limit leaseFor (qs_now s) (qs_db s) = Inr (ms, db') \<Longrightarrow>
     (orderly \<Longrightarrow> \<forall>m\<in>set ms. \<forall>u. (owner, msg_ID m, u) \<notin> set (qs_inflight s)) \<Longrightarrow>
     queue_step orderly s (s\<lparr> qs_db := db', qs_inflight :=
       map (\<lambda>m. (owner, msg_ID m, qs_now s + leaseFor)) ms @ qs_inflight s \<rparr>)"
| Finish: "(owner, i, u) \<in> set (qs_inflight s) \<Longrightarrow>
     queue_step orderly s (s\<lparr> qs_db := after (qs_db s) (finish oc i owner (qs_now s) (qs_db s)),
       qs_inflight := removeAll (owner, i, u) (qs_inflight s) \<rparr>)"
| Crash: "queue_step orderly s
     (s\<lparr> qs_inflight := filter (\<lambda>d. fst d \<noteq> owner) (qs_inflight s) \<rparr>)"
| RequeueMsg: "queue_step orderly s (s\<lparr> qs_db := after (qs_db s) (Requeue i (qs_now s) (qs_db s)) \<rparr>)"
| HoldMsg: "queue_step orderly s (s\<lparr> qs_db := after (qs_db s) (Hold i (qs_now s) (qs_db s)) \<rparr>)"
| DeleteMsg: "queue_step orderly s (s\<lparr> qs_db := after (qs_db s) (Messages_Delete i (qs_db s)) \<rparr>)"
| ReleaseLeases: "queue_step orderly s (s\<lparr> qs_db := snd (ReleaseExpiredLeases (qs_now s) (qs_db s)) \<rparr>)"
| PurgeOld: "queue_step orderly s (s\<lparr> qs_db := snd (Purge sentBefore failedBefore (qs_db s)) \<rparr>)"
| Tick: "0 \<le> dt \<Longrightarrow> queue_step orderly s (s\<lparr> qs_now := qs_now s + dt \<rparr>)"

inductive_cases queue_stepE: "queue_step orderly s s'"

definition queue_init :: "queue_sys \<Rightarrow> bool" where
  "queue_init s = (qs_inflight s = [] \<and> queue_ok (qs_db s))"

definition queue_reach :: "bool \<Rightarrow> queue_sys \<Rightarrow> bool" where
  "queue_reach orderly s = (\<exists>s0. queue_init s0 \<and> (queue_step orderly)\<^sup>*\<^sup>* s0 s)"

text \<open>A row carries the lease of a delivery.\<close>

definition leased :: "DB \<Rightarrow> delivery \<Rightarrow> bool" where
  "leased db d = (case d of (w, i, u) \<Rightarrow>
     list_ex (\<lambda>m. msg_ID m = i \<and> holdsLease w u m) (t_messages db))"

definition inflight_ok :: "queue_sys \<Rightarrow> bool" where
  "inflight_ok s =
    ((\<forall>w i u. (w, i, u) \<in> set (qs_inflight s) \<longrightarrow> qs_now s \<le> u \<longrightarrow> leased (qs_db s) (w, i, u)) \<and>
     (\<forall>w i u u'. (w, i, u) \<in> set (qs_inflight s) \<longrightarrow> (w, i, u') \<in> set (qs_inflight s) \<longrightarrow> u = u'))"

lemma queue_ok_after:
  "queue_ok db \<Longrightarrow> (\<And>db'. r = Inr db' \<Longrightarrow> queue_ok db') \<Longrightarrow> queue_ok (after db r)"
  by (simp add: after_def split: sum.splits)

lemma queue_ok_finish [queue_preserve]:
  "queue_ok db \<Longrightarrow> finish oc i owner now db = Inr db' \<Longrightarrow> queue_ok db'"
  by (cases oc) (auto simp: finish_def intro: queue_preserve)

lemma queue_step_ok: "queue_step orderly s s' \<Longrightarrow> queue_ok (qs_db s) \<Longrightarrow> queue_ok (qs_db s')"
  by (induction rule: queue_step.induct) (auto intro: queue_preserve intro!: queue_ok_after)

lemma leased_update:
  assumes "leased db (w, i, u)" "\<And>m. msg_ID m = i \<Longrightarrow> holdsLease w u m \<Longrightarrow> \<not> p m"
  shows "leased (updateMessages p f db) (w, i, u)"
  using assms by (auto simp: leased_def updateMessages_def list_ex_iff update_where_def)

lemma leased_delete:
  assumes "leased db (w, i, u)" "\<And>m. msg_ID m = i \<Longrightarrow> holdsLease w u m \<Longrightarrow> \<not> p m"
  shows "leased (deleteMessages p db) (w, i, u)"
  using assms by (auto simp: leased_def deleteMessages_def Let_def list_ex_iff set_delete_where)

lemma leased_after:
  "leased db d \<Longrightarrow> (\<And>db'. r = Inr db' \<Longrightarrow> leased db' d) \<Longrightarrow> leased (after db r) d"
  by (simp add: after_def split: sum.splits)

lemma leased_not_claimed:
  assumes "queue_ok db" "leased db (w, i, u)" "now \<le> u"
  shows "i \<notin> set (claimIDs now limit (t_messages db))"
proof
  assume "i \<in> set (claimIDs now limit (t_messages db))"
  then obtain c where c: "c \<in> set (t_messages db)" "msg_ID c = i" "claimable now c"
    by (auto dest: claimIDs_subset)
  obtain m where m: "m \<in> set (t_messages db)" "msg_ID m = i" "holdsLease w u m"
    using assms(2) by (auto simp: leased_def list_ex_iff)
  have "c = m" using assms(1) c m unique_keyD by (fastforce simp: queue_ok_def)
  with c(3) m(3) assms(3) show False
    by (auto simp: claimable_def holdsLease_def lease_before_def)
qed

lemma leased_Claim:
  assumes "queue_ok db" "leased db (w, i, u)" "now \<le> u"
    and "ClaimMessages owner limit leaseFor now db = Inr (ms, db')"
  shows "leased db' (w, i, u)"
proof (cases "limit \<le> 0")
  case True
  with assms(2,4) show ?thesis by (auto simp: ClaimMessages_def split: if_splits)
next
  case False
  then show ?thesis
    using ClaimMessages_Inr(2)[OF assms(4)] leased_not_claimed[OF assms(1-3)] assms(2)
    by (auto intro!: leased_update)
qed

lemma leased_Claim_new:
  assumes "ClaimMessages owner limit leaseFor now db = Inr (ms, db')" "m \<in> set ms"
  shows "leased db' (owner, msg_ID m, now + leaseFor)"
proof -
  have "limit > 0" using assms by (auto simp: ClaimMessages_def split: if_splits)
  then show ?thesis using ClaimMessages_Inr(3)[OF assms(1)] assms(2)
    by (auto simp: leased_def list_ex_iff)
qed

lemma leased_finish_other:
  assumes "leased db (w, i, u)" "(w, i) \<noteq> (owner, j)"
  shows "leased (after db (finish oc j owner now db)) (w, i, u)"
  using assms
  by (cases oc)
    (auto intro!: leased_after leased_update
      simp: finish_def MarkSent_def Defer_def Fail_def updateOwned_cases ownedBy_def holdsLease_def
      split: if_splits)

lemma leased_operator:
  assumes "leased db (w, i, u)"
  shows "leased (after db (Requeue j now db)) (w, i, u)"
    and "leased (after db (Hold j now db)) (w, i, u)"
    and "leased (after db (Messages_Delete j db)) (w, i, u)"
    and "leased (snd (Purge sb fb db)) (w, i, u)"
    and "now \<le> u \<Longrightarrow> leased (snd (ReleaseExpiredLeases now db)) (w, i, u)"
  using assms
  by (auto intro!: leased_after leased_update leased_delete
      simp: Requeue_def Hold_def Messages_Delete_def Purge_def ReleaseExpiredLeases_def Let_def
        requireAction_Inr_iff in_status_def holdsLease_def purgeable_def leaseExpired_def
        lease_before_def)

lemma leased_Enqueue:
  assumes "leased db d" "Enqueue now newID m body db = Inr (m', db')"
  shows "leased db' d"
  using assms
  by (auto simp: leased_def Enqueue_def enqueueTx_def Let_def split: if_splits option.splits)

lemma inflight_okD:
  "inflight_ok s \<Longrightarrow> (w, i, u) \<in> set (qs_inflight s) \<Longrightarrow> qs_now s \<le> u \<Longrightarrow> leased (qs_db s) (w, i, u)"
  by (simp add: inflight_ok_def)

lemma inflight_ok_db:
  assumes "inflight_ok s" "\<And>d. d \<in> set (qs_inflight s) \<Longrightarrow> qs_now s \<le> snd (snd d) \<Longrightarrow>
      leased (qs_db s) d \<Longrightarrow> leased db' d"
  shows "inflight_ok (s\<lparr> qs_db := db' \<rparr>)"
  using assms unfolding inflight_ok_def by fastforce

lemma inflight_ok_Claim:
  assumes "inflight_ok s" "queue_ok (qs_db s)"
    and claim: "ClaimMessages owner limit leaseFor (qs_now s) (qs_db s) = Inr (ms, db')"
    and "\<forall>m\<in>set ms. \<forall>u. (owner, msg_ID m, u) \<notin> set (qs_inflight s)"
  shows "inflight_ok (s\<lparr> qs_db := db', qs_inflight :=
    map (\<lambda>m. (owner, msg_ID m, qs_now s + leaseFor)) ms @ qs_inflight s \<rparr>)"
  using assms(1,4) leased_Claim[OF assms(2) _ _ claim] leased_Claim_new[OF claim]
  unfolding inflight_ok_def by auto

lemma inflight_ok_Finish:
  assumes "inflight_ok s" "(owner, i, u) \<in> set (qs_inflight s)"
  shows "inflight_ok (s\<lparr> qs_db := after (qs_db s) (finish oc i owner (qs_now s) (qs_db s)),
    qs_inflight := removeAll (owner, i, u) (qs_inflight s) \<rparr>)"
proof -
  have "leased (after (qs_db s) (finish oc i owner (qs_now s) (qs_db s))) (w, j, v)"
    if "(w, j, v) \<in> set (qs_inflight s)" "(w, j, v) \<noteq> (owner, i, u)" "qs_now s \<le> v" for w j v
  proof (rule leased_finish_other)
    show "leased (qs_db s) (w, j, v)" using assms(1) that by (simp add: inflight_okD)
    show "(w, j) \<noteq> (owner, i)" using assms that unfolding inflight_ok_def by blast
  qed
  with assms(1) show ?thesis unfolding inflight_ok_def by auto
qed

lemma queue_step_inflight:
  assumes "queue_step True s s'" "queue_ok (qs_db s)" "inflight_ok s"
  shows "inflight_ok s'"
  using assms
proof (induction rule: queue_step.induct)
  case (Tick dt s)
  then show ?case unfolding inflight_ok_def by auto
next
  case (Crash s owner)
  then show ?case unfolding inflight_ok_def by auto
qed (auto intro!: inflight_ok_Claim inflight_ok_Finish inflight_ok_db
       leased_operator intro: leased_Enqueue)

lemma queue_reach_inv:
  assumes "queue_reach True s"
  shows "queue_ok (qs_db s) \<and> inflight_ok s"
proof -
  obtain s0 where s0: "queue_init s0" "(queue_step True)\<^sup>*\<^sup>* s0 s"
    using assms by (auto simp: queue_reach_def)
  from s0(2) show ?thesis
  proof (induction rule: rtranclp_induct)
    case base
    then show ?case using s0(1) by (simp add: queue_init_def inflight_ok_def)
  next
    case (step y z)
    then show ?case using queue_step_ok queue_step_inflight by blast
  qed
qed

lemma finish_as_update:
  obtains f where "finish oc i w now db = updateOwned i w f db"
    and "\<And>m. msg_ID (f m) = msg_ID m" "\<And>m. msg_Status (f m) = outcome_status oc"
    and "\<And>m. msg_Attempts (f m) = msg_Attempts m + 1" "\<And>m. msg_LeaseOwner (f m) = None"
proof (cases oc)
  case OSent
  show thesis
    by (rule that, unfold OSent finish_def outcome.case, rule MarkSent_def)
      (simp_all add: outcome_status_def)
next
  case (ODeferred fl t)
  show thesis
    by (rule that, unfold ODeferred finish_def outcome.case, rule Defer_def)
      (simp_all add: outcome_status_def)
next
  case (OFailed fl)
  show thesis
    by (rule that, unfold OFailed finish_def outcome.case, rule Fail_def)
      (simp_all add: outcome_status_def)
qed

section \<open>Content is kept\<close>

text \<open>What the recipient will see of a row, and the attempt counter.\<close>

definition same_content :: "Message \<Rightarrow> Message \<Rightarrow> bool" where
  "same_content m m' =
    (msg_ID m' = msg_ID m \<and> msg_Recipients m' = msg_Recipients m \<and>
     msg_EnvelopeFrom m' = msg_EnvelopeFrom m \<and> msg_HeaderFrom m' = msg_HeaderFrom m \<and>
     msg_MailboxID m' = msg_MailboxID m \<and> msg_ReceivedAt m' = msg_ReceivedAt m \<and>
     msg_Attempts m \<le> msg_Attempts m')"

text \<open>Both the row and its body survive.\<close>

definition kept :: "DB \<Rightarrow> DB \<Rightarrow> Message \<Rightarrow> bool" where
  "kept db db' m =
    (list_ex (same_content m) (t_messages db') \<and> Body db' (msg_ID m) = Body db (msg_ID m))"

lemma same_content_refl [simp]: "same_content m m"
  by (simp add: same_content_def)

lemma kept_refl: "m \<in> set (t_messages db) \<Longrightarrow> kept db db m"
  by (auto simp: kept_def list_ex_iff intro!: bexI[of _ m])

lemma kept_update:
  assumes "m \<in> set (t_messages db)" "\<And>r. p r \<Longrightarrow> same_content r (f r)"
  shows "kept db (updateMessages p f db) m"
proof -
  have "(if p m then f m else m) \<in> set (update_where p f (t_messages db))"
    using assms(1) by (auto simp: update_where_def)
  then show ?thesis using assms(2)[of m]
    by (auto simp: kept_def updateMessages_def list_ex_iff Body_def split: if_splits
        intro: bexI[rotated] same_content_refl)
qed

lemma kept_delete:
  assumes "queue_ok db" "m \<in> set (t_messages db)" "\<not> p m"
  shows "kept db (deleteMessages p db) m"
proof -
  have "\<not> (\<exists>r\<in>set (t_messages db). p r \<and> msg_ID r = msg_ID m)"
    using assms unique_keyD by (fastforce simp: queue_ok_def)
  then have "select_one (\<lambda>b. fst b = msg_ID m) (t_blobs (deleteMessages p db)) =
      select_one (\<lambda>b. fst b = msg_ID m) (t_blobs db)"
    by (auto simp: deleteMessages_def Let_def intro!: select_one_delete)
  with assms show ?thesis
    by (auto simp: kept_def Body_def deleteMessages_def Let_def list_ex_iff set_delete_where
        intro!: bexI[of _ m])
qed

lemma kept_after:
  "m \<in> set (t_messages db) \<Longrightarrow> (\<And>db'. r = Inr db' \<Longrightarrow> kept db db' m) \<Longrightarrow> kept db (after db r) m"
  by (auto simp: after_def kept_refl split: sum.splits)

lemma kept_Enqueue:
  assumes "queue_ok db" "m \<in> set (t_messages db)" "Enqueue now newID m0 body db = Inr (m', db')"
  shows "kept db db' m"
proof -
  have fresh: "msg_ID m' \<notin> msg_ID ` set (t_messages db)"
    and db': "t_messages db' = t_messages db @ [m']"
      "t_blobs db' = t_blobs db \<or> (\<exists>c. t_blobs db' = t_blobs db @ [(msg_ID m', c)])"
    using assms(3)
    by (auto simp: Enqueue_def enqueueTx_def Let_def list_ex_iff split: if_splits option.splits)
  have "msg_ID m' \<noteq> msg_ID m" using fresh assms(2) by auto
  then have "select_one (\<lambda>b. fst b = msg_ID m) (t_blobs db @ [(msg_ID m', c)]) =
      select_one (\<lambda>b. fst b = msg_ID m) (t_blobs db)" for c
    by (auto simp: select_one_snoc split: option.splits)
  with db' assms(2) show ?thesis
    by (auto simp: kept_def Body_def list_ex_iff intro!: bexI[of _ m])
qed

lemma kept_Claim:
  assumes "m \<in> set (t_messages db)" "ClaimMessages owner limit leaseFor now db = Inr (ms, db')"
  shows "kept db db' m"
proof (cases "limit \<le> 0")
  case True
  with assms show ?thesis by (auto simp: ClaimMessages_def kept_refl split: if_splits)
next
  case False
  then show ?thesis using ClaimMessages_Inr(2)[OF assms(2)] assms(1)
    by (auto intro!: kept_update simp: takeLease_def same_content_def)
qed

lemma kept_finish:
  assumes "m \<in> set (t_messages db)"
  shows "kept db (after db (finish oc i owner now db)) m"
  using assms
  by (cases oc)
    (auto intro!: kept_after kept_update
      simp: finish_def MarkSent_def Defer_def Fail_def updateOwned_cases same_content_def
      split: if_splits)

lemma kept_operator:
  assumes "m \<in> set (t_messages db)"
  shows "kept db (after db (Requeue j now db)) m"
    and "kept db (after db (Hold j now db)) m"
    and "kept db (snd (ReleaseExpiredLeases now db)) m"
  using assms
  by (auto intro!: kept_after kept_update
      simp: Requeue_def Hold_def ReleaseExpiredLeases_def Let_def requireAction_Inr_iff
        same_content_def)

lemma kept_Delete:
  assumes "queue_ok db" "m \<in> set (t_messages db)" "msg_ID m \<noteq> j \<or> msg_Status m = StatusSending"
  shows "kept db (after db (Messages_Delete j db)) m"
  using assms
  by (auto intro!: kept_after kept_delete
      simp: Messages_Delete_def Let_def requireAction_Inr_iff)

lemma kept_Purge:
  assumes "queue_ok db" "m \<in> set (t_messages db)" "msg_Status m \<notin> {StatusSent, StatusFailed}"
  shows "kept db (snd (Purge sb fb db)) m"
  using assms by (auto intro!: kept_delete simp: Purge_def purgeable_def)

section \<open>Properties\<close>

text \<open>C34: In every reachable state of the shared queue, whatever workers, operators and
  housekeeping did and in whatever order, identifiers are unique, a row is leased exactly while
  it is being sent, a lease has an owner and an expiry, and every stored body belongs to exactly
  one message.\<close>

theorem queue_invariant:
  assumes "queue_reach orderly s"
  shows "queue_ok (qs_db s)"
proof -
  obtain s0 where s0: "queue_init s0" "(queue_step orderly)\<^sup>*\<^sup>* s0 s"
    using assms by (auto simp: queue_reach_def)
  from s0(2) show ?thesis
    by (induction rule: rtranclp_induct) (use s0(1) queue_step_ok in \<open>auto simp: queue_init_def\<close>)
qed


text \<open>C8: Accepted mail is never lost: no step of the system removes a message that is not
  finished, its recipients or its body, or lowers its attempt counter, except an operator
  deleting that very message while it is not being sent.\<close>

theorem accepted_mail_kept:
  assumes "queue_step orderly s s'" "queue_ok (qs_db s)"
    and "m \<in> set (t_messages (qs_db s))" "msg_Status m \<notin> {StatusSent, StatusFailed}"
  shows "kept (qs_db s) (qs_db s') m \<or>
    msg_Status m \<noteq> StatusSending \<and>
      qs_db s' = after (qs_db s) (Messages_Delete (msg_ID m) (qs_db s))"
  using assms
proof (induction rule: queue_step.induct)
  case (DeleteMsg s j)
  then show ?case using kept_Delete[of "qs_db s" m j] by auto
qed (auto intro: kept_Enqueue kept_Claim kept_finish kept_operator kept_Purge kept_refl)

text \<open>A delivered message is final: no step of the system changes a row in state sent, it can
  only disappear; in particular it is never claimed and so never delivered again.\<close>

theorem sent_final:
  assumes "queue_step orderly s s'" "queue_ok (qs_db s)"
    and "m \<in> set (t_messages (qs_db s))" "msg_Status m = StatusSent"
  shows "m \<in> set (t_messages (qs_db s')) \<or> msg_ID m \<notin> msg_ID ` set (t_messages (qs_db s'))"
proof -
  have uniq: "r = m" if "r \<in> set (t_messages (qs_db s))" "msg_ID r = msg_ID m" for r
    using assms(2,3) that unique_keyD by (fastforce simp: queue_ok_def)
  have no_owner: "msg_LeaseOwner m = None"
    using assms(2-4) by (auto simp: queue_ok_def list_all_iff lease_ok_def)
  have upd: "m \<in> set (t_messages (updateMessages p f (qs_db s)))" if "\<not> p m" for p f
    using assms(3) that by (auto simp: updateMessages_def set_update_where)
  have del: "m \<in> set (t_messages (deleteMessages p (qs_db s))) \<or>
      msg_ID m \<notin> msg_ID ` set (t_messages (deleteMessages p (qs_db s)))" for p
    using uniq assms(3) by (auto simp: deleteMessages_def Let_def set_delete_where)
  from assms(1) show ?thesis
  proof (cases rule: queue_step.cases)
    case (Claim owner limit leaseFor ms db')
    have "msg_ID m \<notin> set (claimIDs (qs_now s) limit (t_messages (qs_db s)))"
      using claimIDs_unique_claimable assms(2-4)
      by (force simp: queue_ok_def claimable_def)
    with Claim upd assms(3) show ?thesis
      by (cases "limit \<le> 0") (auto simp: ClaimMessages_def Let_def split: if_splits)
  next
    case (Finish owner i u oc)
    with upd no_owner assms(3) show ?thesis
      by (cases oc) (auto simp: after_def finish_def MarkSent_def Defer_def Fail_def
          updateOwned_cases ownedBy_def)
  next
    case (Submit m0 newID body m' db')
    with assms(3) show ?thesis
      by (auto simp: Enqueue_def enqueueTx_def Let_def split: if_splits option.splits)
  qed (use assms(3,4) upd del in \<open>auto simp: after_def Requeue_def Hold_def Messages_Delete_def
        Purge_def ReleaseExpiredLeases_def Let_def requireAction_Inr_iff in_status_def
        leaseExpired_def split: sum.splits\<close>)
qed

text \<open>Only the holder of the lease can record an outcome.  If the row exists and names this
  worker as its lease owner, recording succeeds: the row gets the status of the outcome and one
  more attempt and is no longer leased, and every other row stays as it was.  A worker that lost
  its lease gets the not-found error, and the table is not written.\<close>

theorem finish_needs_lease:
  "if list_ex (ownedBy i w) (t_messages db)
   then \<exists>db'. finish oc i w now db = Inr db' \<and>
     (\<forall>m\<in>set (t_messages db). if ownedBy i w m
        then \<exists>m'\<in>set (t_messages db'). msg_ID m' = i \<and> msg_Status m' = outcome_status oc \<and>
               msg_Attempts m' = msg_Attempts m + 1 \<and> msg_LeaseOwner m' = None
        else m \<in> set (t_messages db'))
   else finish oc i w now db = Inl ErrNotFound"
proof -
  obtain f where fin: "finish oc i w now db = updateOwned i w f db"
    and f: "\<And>m. msg_ID (f m) = msg_ID m" "\<And>m. msg_Status (f m) = outcome_status oc"
      "\<And>m. msg_Attempts (f m) = msg_Attempts m + 1" "\<And>m. msg_LeaseOwner (f m) = None"
    using finish_as_update[of oc i w now db] by blast
  let ?db' = "updateMessages (ownedBy i w) f db"
  have "\<exists>m'\<in>set (t_messages ?db'). msg_ID m' = i \<and> msg_Status m' = outcome_status oc \<and>
      msg_Attempts m' = msg_Attempts m + 1 \<and> msg_LeaseOwner m' = None"
    if "m \<in> set (t_messages db)" "ownedBy i w m" for m
    using that f by (intro bexI[of _ "f m"]) (auto simp: updateMessages_def set_update_where ownedBy_def)
  moreover have "m \<in> set (t_messages ?db')" if "m \<in> set (t_messages db)" "\<not> ownedBy i w m" for m
    using that by (auto simp: updateMessages_def set_update_where)
  ultimately show ?thesis
    unfolding fin updateOwned_cases by simp
qed

text \<open>C35: A claim takes only due messages: rows that are queued or deferred and whose time has
  come, or whose lease has run out.  It takes at most the requested number, the ones longest due
  first, leaves every other row as it was, returns rows that carry the worker's new lease, and
  returns something whenever something is due.\<close>

theorem claim_correct:
  assumes "queue_ok db" "ClaimMessages owner limit leaseFor now db = Inr (ms, db')" "limit > 0"
  shows "let ids = claimIDs now limit (t_messages db) in
    length ids \<le> nat limit \<and>
    (\<forall>m\<in>set (t_messages db). msg_ID m \<in> set ids \<longrightarrow> claimable now m) \<and>
    (\<forall>m\<in>set (t_messages db). msg_ID m \<notin> set ids \<longrightarrow> m \<in> set (t_messages db')) \<and>
    (\<forall>m\<in>set ms. m \<in> set (t_messages db') \<and> holdsLease owner (now + leaseFor) m) \<and>
    (\<forall>m\<in>set (t_messages db). \<forall>m1\<in>set (t_messages db).
       claimable now m \<longrightarrow> msg_ID m \<notin> set ids \<longrightarrow> msg_ID m1 \<in> set ids \<longrightarrow>
       msg_NextAttemptAt m1 \<le> msg_NextAttemptAt m) \<and>
    (list_ex (claimable now) (t_messages db) \<longrightarrow> ms \<noteq> [])"
proof -
  have uk: "unique_key msg_ID (t_messages db)" using assms(1) by (simp add: queue_ok_def)
  note inr = ClaimMessages_Inr[OF assms(2,3)]
  show ?thesis
    unfolding Let_def
    using length_claimIDs claimIDs_unique_claimable[OF uk] claimIDs_earliest[OF uk]
      claim_not_empty[OF assms(2,3)] inr(3)
    by (auto simp: inr(2) updateMessages_def set_update_where)
qed

section \<open>Scenarios and witnesses\<close>

definition sample_message :: "string \<Rightarrow> Message" where
  "sample_message i = \<lparr> msg_Origin = ''smtp'', msg_ID = i, msg_SMTPAccountID = None,
     msg_MailboxID = None, msg_AccountUsername = ''printer'', msg_MailboxAddress = ''sales@example.com'',
     msg_EnvelopeFrom = ''sales@example.com'', msg_HeaderFrom = ''sales@example.com'',
     msg_Recipients = [''bob@example.org''], msg_RecipientCount = 1, msg_SizeBytes = 5,
     msg_Subject = '''', msg_MessageID = '''', msg_Status = StatusQueued, msg_Attempts = 0,
     msg_NextAttemptAt = 0, msg_LeaseOwner = None, msg_LeaseExpiresAt = None, msg_LastError = '''',
     msg_LastErrorCode = '''', msg_LastErrorPermanent = False, msg_ClientIP = ''10.0.0.7'',
     msg_BlobRef = '''', msg_ReceivedAt = 0, msg_SentAt = None, msg_UpdatedAt = 0 \<rparr>"

definition sample_queue :: queue_sys where
  "sample_queue = \<lparr> qs_db = empty_db\<lparr> t_messages := [sample_message ''x'', sample_message ''y''],
     t_blobs := [(''x'', ''Hi'')] \<rparr>, qs_now = 0, qs_inflight = [] \<rparr>"

definition run_claim :: "string \<Rightarrow> int \<Rightarrow> duration \<Rightarrow> queue_sys \<Rightarrow> queue_sys" where
  "run_claim owner limit leaseFor s =
    (case ClaimMessages owner limit leaseFor (qs_now s) (qs_db s) of
       Inl _ \<Rightarrow> s
     | Inr (ms, db') \<Rightarrow> s\<lparr> qs_db := db', qs_inflight :=
         map (\<lambda>m. (owner, msg_ID m, qs_now s + leaseFor)) ms @ qs_inflight s \<rparr>)"

definition run_finish :: "outcome \<Rightarrow> delivery \<Rightarrow> queue_sys \<Rightarrow> queue_sys" where
  "run_finish oc d s = (case d of (owner, i, u) \<Rightarrow>
     s\<lparr> qs_db := after (qs_db s) (finish oc i owner (qs_now s) (qs_db s)),
        qs_inflight := removeAll (owner, i, u) (qs_inflight s) \<rparr>)"

definition run_tick :: "duration \<Rightarrow> queue_sys \<Rightarrow> queue_sys" where
  "run_tick dt s = s\<lparr> qs_now := qs_now s + dt \<rparr>"

lemma reach_init: "queue_init s \<Longrightarrow> queue_reach b s"
  by (auto simp: queue_reach_def)

lemma reach_step: "queue_reach b s \<Longrightarrow> queue_step b s s' \<Longrightarrow> queue_reach b s'"
  by (meson queue_reach_def rtranclp.rtrancl_into_rtrancl)

lemma reach_claim: "queue_reach False s \<Longrightarrow> queue_reach False (run_claim owner limit leaseFor s)"
  by (auto simp: run_claim_def split: sum.splits intro: reach_step Claim)

lemma reach_claim_orderly:
  assumes "queue_reach True s" "qs_inflight s = []"
  shows "queue_reach True (run_claim owner limit leaseFor s)"
proof (cases "ClaimMessages owner limit leaseFor (qs_now s) (qs_db s)")
  case (Inl e)
  with assms show ?thesis by (simp add: run_claim_def)
next
  case (Inr r)
  then obtain ms db' where "r = (ms, db')" by (cases r)
  with Inr have "queue_step True s (run_claim owner limit leaseFor s)"
    using Claim[of owner limit leaseFor s ms db' True] assms(2) by (simp add: run_claim_def)
  with assms(1) show ?thesis by (rule reach_step)
qed

lemma reach_finish:
  assumes "queue_reach b s" "d \<in> set (qs_inflight s)"
  shows "queue_reach b (run_finish oc d s)"
proof -
  obtain w i u where d: "d = (w, i, u)" by (cases d)
  have "queue_step b s (run_finish oc d s)"
    using Finish[of w i u s b oc] assms(2) by (simp add: run_finish_def d)
  with assms(1) show ?thesis by (rule reach_step)
qed

lemma reach_tick: "queue_reach b s \<Longrightarrow> 0 \<le> dt \<Longrightarrow> queue_reach b (run_tick dt s)"
  by (simp add: run_tick_def) (blast intro: reach_step Tick)

lemma sample_queue_init: "queue_init sample_queue"
  by code_simp

text \<open>The delivery by \<open>A\<close> outlives its lease, \<open>A\<close> claims the message again, the first delivery
  records a deferral under the name \<open>A\<close>, and \<open>B\<close> claims the message while the second delivery
  by \<open>A\<close> is still running.\<close>

definition reclaim_scenario :: queue_sys where
  "reclaim_scenario =
    run_claim ''B'' 1 10
     (run_finish (ODeferred \<lparr> fl_Code = ''451'', fl_Message = ''busy'', fl_Permanent = False \<rparr> 0)
        (''A'', ''x'', 10)
       (run_claim ''A'' 1 10 (run_tick 11 (run_claim ''A'' 1 10 sample_queue))))"

lemma reclaim_scenario_reach: "queue_reach False reclaim_scenario"
proof -
  let ?s = "run_claim ''A'' 1 10 (run_tick 11 (run_claim ''A'' 1 10 sample_queue))"
  have "(''A'', ''x'', 10) \<in> set (qs_inflight ?s)" by code_simp
  moreover have "queue_reach False ?s"
    by (rule reach_claim, rule reach_tick, rule reach_claim, rule reach_init, rule sample_queue_init) simp
  ultimately show ?thesis
    unfolding reclaim_scenario_def by (auto intro: reach_claim[OF reach_finish])
qed

text \<open>The side condition of exclusive delivery is necessary.  All deliveries of one process
  share one worker identity, so when a delivery outlives its lease (for instance while it waits
  for the mailbox's rate budget) and the process claims the message again, recording the first
  outcome releases the lease of the second delivery, and another worker can claim the message
  while that delivery still holds an unexpired lease.\<close>

theorem self_reclaim_breaks_exclusion:
  "\<exists>s. queue_reach False s \<and>
     (\<exists>w1 w2 i u1 u2. (w1, i, u1) \<in> set (qs_inflight s) \<and> (w2, i, u2) \<in> set (qs_inflight s) \<and>
        qs_now s \<le> u1 \<and> qs_now s \<le> u2 \<and> w1 \<noteq> w2)"
proof (intro exI conjI)
  show "queue_reach False reclaim_scenario" by (rule reclaim_scenario_reach)
  show "(''A'', ''x'', 21) \<in> set (qs_inflight reclaim_scenario)" by code_simp
  show "(''B'', ''x'', 21) \<in> set (qs_inflight reclaim_scenario)" by code_simp
qed (code_simp, code_simp, simp)

theorem queue_invariant_witness: "queue_reach False reclaim_scenario \<and> queue_ok (qs_db reclaim_scenario)"
  using queue_invariant[OF reclaim_scenario_reach] reclaim_scenario_reach by simp

definition sample_claimed :: queue_sys where
  "sample_claimed = run_claim ''A'' 1 10 sample_queue"

lemma sample_claimed_reach: "queue_reach True sample_claimed"
  unfolding sample_claimed_def
  by (rule reach_claim_orderly[OF reach_init[OF sample_queue_init]]) code_simp


lemma sample_step: "queue_step False sample_queue (run_claim ''A'' 1 10 sample_queue)"
proof -
  obtain ms db' where c: "ClaimMessages ''A'' 1 10 (qs_now sample_queue) (qs_db sample_queue) = Inr (ms, db')"
    using ClaimMessages_total[of "''A''"] by blast
  then show ?thesis using Claim[OF c, of False] by (simp add: run_claim_def)
qed

theorem accepted_mail_kept_witness:
  "kept (qs_db sample_queue) (qs_db (run_claim ''A'' 1 10 sample_queue)) (sample_message ''x'') \<or>
   qs_db (run_claim ''A'' 1 10 sample_queue) =
     after (qs_db sample_queue) (Messages_Delete ''x'' (qs_db sample_queue))"
proof -
  have "queue_ok (qs_db sample_queue)" using sample_queue_init by (simp add: queue_init_def)
  moreover have "sample_message ''x'' \<in> set (t_messages (qs_db sample_queue))"
    by (simp add: sample_queue_def)
  moreover have "msg_Status (sample_message ''x'') \<notin> {StatusSent, StatusFailed}" by code_simp
  moreover have "msg_ID (sample_message ''x'') = ''x''" by code_simp
  ultimately show ?thesis using accepted_mail_kept[OF sample_step] by metis
qed

definition sample_sent :: queue_sys where
  "sample_sent = run_finish OSent (''A'', ''x'', 10) sample_claimed"

theorem sent_final_witness:
  "\<exists>m\<in>set (t_messages (qs_db sample_sent)). msg_Status m = StatusSent \<and>
     (m \<in> set (t_messages (qs_db (run_tick 3 sample_sent))) \<or>
      msg_ID m \<notin> msg_ID ` set (t_messages (qs_db (run_tick 3 sample_sent))))"
proof -
  have "(''A'', ''x'', 10) \<in> set (qs_inflight sample_claimed)" by code_simp
  then have "queue_reach True sample_sent"
    unfolding sample_sent_def by (rule reach_finish[OF sample_claimed_reach])
  then have ok: "queue_ok (qs_db sample_sent)" using queue_reach_inv by blast
  have "list_ex (\<lambda>m. msg_Status m = StatusSent) (t_messages (qs_db sample_sent))" by code_simp
  then obtain m where m: "m \<in> set (t_messages (qs_db sample_sent))" "msg_Status m = StatusSent"
    by (auto simp: list_ex_iff)
  have "queue_step True sample_sent (run_tick 3 sample_sent)"
    unfolding run_tick_def by (rule Tick) simp
  then show ?thesis using sent_final[OF _ ok m] m by blast
qed

theorem finish_needs_lease_witness:
  "finish OSent ''x'' ''B'' 5 (qs_db sample_claimed) = Inl ErrNotFound"
proof -
  have "\<not> list_ex (ownedBy ''x'' ''B'') (t_messages (qs_db sample_claimed))" by code_simp
  then show ?thesis
    using finish_needs_lease[of "''x''" "''B''" "qs_db sample_claimed" OSent 5] by simp
qed

theorem claim_correct_witness:
  "\<exists>ms db'. ClaimMessages ''A'' 1 10 0 (qs_db sample_queue) = Inr (ms, db') \<and> ms \<noteq> []"
proof -
  obtain ms db' where c: "ClaimMessages ''A'' 1 10 0 (qs_db sample_queue) = Inr (ms, db')"
    using ClaimMessages_total[of "''A''"] by blast
  have "queue_ok (qs_db sample_queue)" using sample_queue_init by (simp add: queue_init_def)
  moreover have "list_ex (claimable 0) (t_messages (qs_db sample_queue))" by code_simp
  ultimately show ?thesis using claim_correct[OF _ c] c by (auto simp: Let_def)
qed

end
