(* ===== verification/Directory.thy ===== *)
theory Directory
  imports Messages
begin

text \<open>
  The configuration tables: credentials, mailboxes, SMTP accounts, their mailbox links and
  allowed senders (\<^verbatim>\<open>src/internal/store/credentials.go\<close>, \<^verbatim>\<open>mailboxes.go\<close>,
  \<^verbatim>\<open>accounts.go\<close>).

  The schema's constraints (primary keys, unique indexes, CHECK and foreign keys of
  \<^verbatim>\<open>migrations/sqlite/0001_initial_schema.up.sql\<close>) are part of each statement: a statement
  that violates one fails with the error its driver error translates to and writes nothing, and
  a deletion cascades or sets references to NULL as the schema says.  A violated CHECK is
  not classified by the dialects, so it is \<^const>\<open>ErrDriver\<close>.
\<close>

section \<open>Credentials\<close>

definition ensure_id :: "string \<Rightarrow> string \<Rightarrow> string" where
  "ensure_id newID i = (if i = '''' then newID else i)"

definition ensure_managed :: "ManagedBy \<Rightarrow> ManagedBy" where
  "ensure_managed mb = (if mb = ManagedByUnset then ManagedByUI else mb)"

definition credential_check :: "OAuthCredential \<Rightarrow> bool" where
  "credential_check c = (cred_AuthType c \<in> {AuthTypeSecret, AuthTypeCertificate})"

definition Credentials_Create ::
  "instant \<Rightarrow> string \<Rightarrow> OAuthCredential \<Rightarrow> DB \<Rightarrow> (OAuthCredential \<times> DB) store_result" where
  "Credentials_Create now newID c0 db =
    (let c = c0\<lparr> cred_ID := ensure_id newID (cred_ID c0), cred_CreatedAt := now,
                 cred_UpdatedAt := now, cred_ManagedBy := ensure_managed (cred_ManagedBy c0) \<rparr>
     in if \<not> credential_check c then Inl ErrDriver
        else if list_ex (\<lambda>r. cred_ID r = cred_ID c \<or> cred_Name r = cred_Name c) (t_credentials db)
        then Inl (translateError UniqueViolation)
        else Inr (c, db\<lparr> t_credentials := t_credentials db @ [c] \<rparr>))"

definition Credentials_Get :: "DB \<Rightarrow> string \<Rightarrow> OAuthCredential store_result" where
  "Credentials_Get db i = (case select_one (\<lambda>c. cred_ID c = i) (t_credentials db) of
      None \<Rightarrow> Inl (translateError NoRows) | Some c \<Rightarrow> Inr c)"

definition Credentials_GetByName :: "DB \<Rightarrow> string \<Rightarrow> OAuthCredential store_result" where
  "Credentials_GetByName db n = (case select_one (\<lambda>c. cred_Name c = n) (t_credentials db) of
      None \<Rightarrow> Inl (translateError NoRows) | Some c \<Rightarrow> Inr c)"

definition Credentials_List :: "DB \<Rightarrow> OAuthCredential list" where
  "Credentials_List db = sort_key cred_Name (t_credentials db)"

text \<open>Every column but \<^verbatim>\<open>id\<close> and \<^verbatim>\<open>created_at\<close>.\<close>

definition Credentials_Update :: "instant \<Rightarrow> OAuthCredential \<Rightarrow> DB \<Rightarrow> DB store_result" where
  "Credentials_Update now c db =
    (if \<not> list_ex (\<lambda>r. cred_ID r = cred_ID c) (t_credentials db) then Inl ErrNotFound
     else if \<not> credential_check c then Inl ErrDriver
     else if list_ex (\<lambda>r. cred_ID r \<noteq> cred_ID c \<and> cred_Name r = cred_Name c) (t_credentials db)
     then Inl (translateError UniqueViolation)
     else Inr (db\<lparr> t_credentials := update_where (\<lambda>r. cred_ID r = cred_ID c)
       (\<lambda>r. c\<lparr> cred_CreatedAt := cred_CreatedAt r, cred_UpdatedAt := now \<rparr>) (t_credentials db) \<rparr>))"

definition Credentials_Delete :: "string \<Rightarrow> DB \<Rightarrow> DB store_result" where
  "Credentials_Delete i db =
    (if \<not> list_ex (\<lambda>c. cred_ID c = i) (t_credentials db) then Inl ErrNotFound
     else if list_ex (\<lambda>m. mb_OAuthCredentialID m = i) (t_mailboxes db)
     then Inl (translateError ForeignKeyViolation)
     else Inr (db\<lparr> t_credentials := delete_where (\<lambda>c. cred_ID c = i) (t_credentials db) \<rparr>))"

definition ExpiringBefore :: "DB \<Rightarrow> instant \<Rightarrow> OAuthCredential list" where
  "ExpiringBefore db cutoff =
    sort_key (\<lambda>c. case cred_ExpiresAt c of None \<Rightarrow> 0 | Some t \<Rightarrow> t)
      (filter (\<lambda>c. case cred_ExpiresAt c of None \<Rightarrow> False | Some t \<Rightarrow> t < cutoff) (t_credentials db))"

section \<open>Mailboxes\<close>

definition mailbox_check :: "Mailbox \<Rightarrow> bool" where
  "mailbox_check m = (mb_Transport m \<in> {TransportSMTP, TransportGraph})"

definition credential_exists :: "DB \<Rightarrow> string \<Rightarrow> bool" where
  "credential_exists db i = list_ex (\<lambda>c. cred_ID c = i) (t_credentials db)"

definition Mailboxes_Create ::
  "instant \<Rightarrow> string \<Rightarrow> Mailbox \<Rightarrow> DB \<Rightarrow> (Mailbox \<times> DB) store_result" where
  "Mailboxes_Create now newID m0 db =
    (let m = m0\<lparr> mb_ID := ensure_id newID (mb_ID m0), mb_CreatedAt := now, mb_UpdatedAt := now,
                 mb_ManagedBy := ensure_managed (mb_ManagedBy m0),
                 mb_Transport := (if mb_Transport m0 = TransportUnknown '''' then TransportSMTP
                                  else mb_Transport m0) \<rparr>
     in if \<not> mailbox_check m then Inl ErrDriver
        else if list_ex (\<lambda>r. mb_ID r = mb_ID m \<or> mb_Address r = mb_Address m) (t_mailboxes db)
        then Inl (translateError UniqueViolation)
        else if \<not> credential_exists db (mb_OAuthCredentialID m)
        then Inl (translateError ForeignKeyViolation)
        else Inr (m, db\<lparr> t_mailboxes := t_mailboxes db @ [m] \<rparr>))"

definition Mailboxes_Get :: "DB \<Rightarrow> string \<Rightarrow> Mailbox store_result" where
  "Mailboxes_Get db i = (case select_one (\<lambda>m. mb_ID m = i) (t_mailboxes db) of
      None \<Rightarrow> Inl (translateError NoRows) | Some m \<Rightarrow> Inr m)"

definition Mailboxes_GetByAddress :: "DB \<Rightarrow> string \<Rightarrow> Mailbox store_result" where
  "Mailboxes_GetByAddress db a = (case select_one (\<lambda>m. mb_Address m = a) (t_mailboxes db) of
      None \<Rightarrow> Inl (translateError NoRows) | Some m \<Rightarrow> Inr m)"

definition Mailboxes_List :: "DB \<Rightarrow> Mailbox list" where
  "Mailboxes_List db = sort_key mb_Address (t_mailboxes db)"

definition linkedMailbox :: "DB \<Rightarrow> string \<Rightarrow> string \<Rightarrow> bool" where
  "linkedMailbox db accountID i =
    (list_ex (\<lambda>l. l = (accountID, i)) (t_account_mailboxes db) \<or>
     list_ex (\<lambda>a. acc_ID a = accountID \<and> acc_DefaultMailboxID a = Some i) (t_accounts db))"

definition ListForAccount :: "DB \<Rightarrow> string \<Rightarrow> Mailbox list" where
  "ListForAccount db accountID =
    sort_key mb_Address (filter (\<lambda>m. linkedMailbox db accountID (mb_ID m)) (t_mailboxes db))"

definition Mailboxes_Update :: "instant \<Rightarrow> Mailbox \<Rightarrow> DB \<Rightarrow> DB store_result" where
  "Mailboxes_Update now m db =
    (if \<not> list_ex (\<lambda>r. mb_ID r = mb_ID m) (t_mailboxes db) then Inl ErrNotFound
     else if \<not> mailbox_check m then Inl ErrDriver
     else if list_ex (\<lambda>r. mb_ID r \<noteq> mb_ID m \<and> mb_Address r = mb_Address m) (t_mailboxes db)
     then Inl (translateError UniqueViolation)
     else if \<not> credential_exists db (mb_OAuthCredentialID m)
     then Inl (translateError ForeignKeyViolation)
     else Inr (db\<lparr> t_mailboxes := update_where (\<lambda>r. mb_ID r = mb_ID m)
       (\<lambda>r. m\<lparr> mb_CreatedAt := mb_CreatedAt r, mb_UpdatedAt := now \<rparr>) (t_mailboxes db) \<rparr>))"

definition Mailboxes_Delete :: "string \<Rightarrow> DB \<Rightarrow> DB store_result" where
  "Mailboxes_Delete i db =
    (if \<not> list_ex (\<lambda>m. mb_ID m = i) (t_mailboxes db) then Inl ErrNotFound
     else Inr (db\<lparr>
       t_mailboxes := delete_where (\<lambda>m. mb_ID m = i) (t_mailboxes db),
       t_accounts := update_where (\<lambda>a. acc_DefaultMailboxID a = Some i)
         (\<lambda>a. a\<lparr> acc_DefaultMailboxID := None \<rparr>) (t_accounts db),
       t_account_mailboxes := delete_where (\<lambda>l. snd l = i) (t_account_mailboxes db),
       t_messages := update_where (\<lambda>m. msg_MailboxID m = Some i)
         (\<lambda>m. m\<lparr> msg_MailboxID := None \<rparr>) (t_messages db) \<rparr>))"

section \<open>Accounts\<close>

definition account_check :: "SMTPAccount \<Rightarrow> bool" where
  "account_check a = (acc_FromPolicy a \<in> {FromPolicyReject, FromPolicyRewrite, FromPolicyPassthrough})"

definition mailbox_exists :: "DB \<Rightarrow> string option \<Rightarrow> bool" where
  "mailbox_exists db i =
    (case i of None \<Rightarrow> True | Some j \<Rightarrow> list_ex (\<lambda>m. mb_ID m = j) (t_mailboxes db))"

definition Accounts_Create ::
  "instant \<Rightarrow> string \<Rightarrow> SMTPAccount \<Rightarrow> DB \<Rightarrow> (SMTPAccount \<times> DB) store_result" where
  "Accounts_Create now newID a0 db =
    (let a = a0\<lparr> acc_ID := ensure_id newID (acc_ID a0), acc_CreatedAt := now, acc_UpdatedAt := now,
                 acc_ManagedBy := ensure_managed (acc_ManagedBy a0),
                 acc_FromPolicy := (if acc_FromPolicy a0 = FromPolicyUnknown '''' then FromPolicyReject
                                    else acc_FromPolicy a0) \<rparr>
     in if \<not> account_check a then Inl ErrDriver
        else if list_ex (\<lambda>r. acc_ID r = acc_ID a \<or> acc_Username r = acc_Username a) (t_accounts db)
        then Inl (translateError UniqueViolation)
        else if \<not> mailbox_exists db (acc_DefaultMailboxID a)
        then Inl (translateError ForeignKeyViolation)
        else Inr (a, db\<lparr> t_accounts := t_accounts db @ [a] \<rparr>))"

definition Accounts_Get :: "DB \<Rightarrow> string \<Rightarrow> SMTPAccount store_result" where
  "Accounts_Get db i = (case select_one (\<lambda>a. acc_ID a = i) (t_accounts db) of
      None \<Rightarrow> Inl (translateError NoRows) | Some a \<Rightarrow> Inr a)"

definition Accounts_GetByUsername :: "DB \<Rightarrow> string \<Rightarrow> SMTPAccount store_result" where
  "Accounts_GetByUsername db u = (case select_one (\<lambda>a. acc_Username a = u) (t_accounts db) of
      None \<Rightarrow> Inl (translateError NoRows) | Some a \<Rightarrow> Inr a)"

definition Accounts_List :: "DB \<Rightarrow> SMTPAccount list" where
  "Accounts_List db = sort_key acc_Username (t_accounts db)"

text \<open>Every column but \<^verbatim>\<open>id\<close>, \<^verbatim>\<open>created_at\<close> and \<^verbatim>\<open>last_used_at\<close>.\<close>

definition Accounts_Update :: "instant \<Rightarrow> SMTPAccount \<Rightarrow> DB \<Rightarrow> DB store_result" where
  "Accounts_Update now a db =
    (if \<not> list_ex (\<lambda>r. acc_ID r = acc_ID a) (t_accounts db) then Inl ErrNotFound
     else if \<not> account_check a then Inl ErrDriver
     else if list_ex (\<lambda>r. acc_ID r \<noteq> acc_ID a \<and> acc_Username r = acc_Username a) (t_accounts db)
     then Inl (translateError UniqueViolation)
     else if \<not> mailbox_exists db (acc_DefaultMailboxID a)
     then Inl (translateError ForeignKeyViolation)
     else Inr (db\<lparr> t_accounts := update_where (\<lambda>r. acc_ID r = acc_ID a)
       (\<lambda>r. a\<lparr> acc_CreatedAt := acc_CreatedAt r, acc_LastUsedAt := acc_LastUsedAt r,
               acc_UpdatedAt := now \<rparr>) (t_accounts db) \<rparr>))"

definition TouchLastUsed :: "string \<Rightarrow> instant \<Rightarrow> DB \<Rightarrow> DB" where
  "TouchLastUsed i at db =
    db\<lparr> t_accounts := update_where (\<lambda>a. acc_ID a = i) (\<lambda>a. a\<lparr> acc_LastUsedAt := Some at \<rparr>) (t_accounts db) \<rparr>"

definition Accounts_Delete :: "string \<Rightarrow> DB \<Rightarrow> DB store_result" where
  "Accounts_Delete i db =
    (if \<not> list_ex (\<lambda>a. acc_ID a = i) (t_accounts db) then Inl ErrNotFound
     else Inr (db\<lparr>
       t_accounts := delete_where (\<lambda>a. acc_ID a = i) (t_accounts db),
       t_account_mailboxes := delete_where (\<lambda>l. fst l = i) (t_account_mailboxes db),
       t_allowed_senders := delete_where (\<lambda>s. as_SMTPAccountID s = i) (t_allowed_senders db),
       t_messages := update_where (\<lambda>m. msg_SMTPAccountID m = Some i)
         (\<lambda>m. m\<lparr> msg_SMTPAccountID := None \<rparr>) (t_messages db) \<rparr>))"

text \<open>The insertion loop of \<^verbatim>\<open>SetMailboxes\<close>, with the set of identifiers seen so far.\<close>

fun insertLinks :: "string \<Rightarrow> string list \<Rightarrow> string list \<Rightarrow> DB \<Rightarrow> DB store_result" where
  "insertLinks accountID seen [] db = Inr db"
| "insertLinks accountID seen (i # is) db =
    (if i \<in> set seen then insertLinks accountID seen is db
     else if list_ex (\<lambda>l. l = (accountID, i)) (t_account_mailboxes db)
     then Inl (translateError UniqueViolation)
     else if \<not> list_ex (\<lambda>a. acc_ID a = accountID) (t_accounts db) \<or> \<not> mailbox_exists db (Some i)
     then Inl (translateError ForeignKeyViolation)
     else insertLinks accountID (i # seen) is
            (db\<lparr> t_account_mailboxes := t_account_mailboxes db @ [(accountID, i)] \<rparr>))"

definition SetMailboxes :: "string \<Rightarrow> string list \<Rightarrow> DB \<Rightarrow> DB store_result" where
  "SetMailboxes accountID mailboxIDs db =
    insertLinks accountID [] mailboxIDs
      (db\<lparr> t_account_mailboxes := delete_where (\<lambda>l. fst l = accountID) (t_account_mailboxes db) \<rparr>)"

definition AllowedSenders :: "DB \<Rightarrow> string \<Rightarrow> AllowedSender list" where
  "AllowedSenders db accountID =
    sort_key as_Pattern (filter (\<lambda>s. as_SMTPAccountID s = accountID) (t_allowed_senders db))"

text \<open>The insertion loop of \<^verbatim>\<open>SetAllowedSenders\<close>; \<open>ids\<close> supplies the generated identifiers.\<close>

fun insertSenders ::
  "instant \<Rightarrow> string \<Rightarrow> (string \<Rightarrow> string) \<Rightarrow> string list \<Rightarrow> string list \<Rightarrow> DB \<Rightarrow> DB store_result" where
  "insertSenders now accountID ids seen [] db = Inr db"
| "insertSenders now accountID ids seen (p # ps) db =
    (if p \<in> set seen then insertSenders now accountID ids seen ps db
     else if list_ex (\<lambda>s. as_ID s = ids p \<or> as_SMTPAccountID s = accountID \<and> as_Pattern s = p)
               (t_allowed_senders db)
     then Inl (translateError UniqueViolation)
     else if \<not> list_ex (\<lambda>a. acc_ID a = accountID) (t_accounts db)
     then Inl (translateError ForeignKeyViolation)
     else insertSenders now accountID ids (p # seen) ps
            (db\<lparr> t_allowed_senders := t_allowed_senders db @
              [\<lparr> as_ID = ids p, as_SMTPAccountID = accountID, as_Pattern = p, as_CreatedAt = now \<rparr>] \<rparr>))"

definition SetAllowedSenders ::
  "instant \<Rightarrow> string \<Rightarrow> (string \<Rightarrow> string) \<Rightarrow> string list \<Rightarrow> DB \<Rightarrow> DB store_result" where
  "SetAllowedSenders now accountID ids patterns db =
    insertSenders now accountID ids [] patterns
      (db\<lparr> t_allowed_senders := delete_where (\<lambda>s. as_SMTPAccountID s = accountID) (t_allowed_senders db) \<rparr>)"

section \<open>Integrity\<close>

text \<open>The schema's unique indexes and primary keys.\<close>

definition keys_ok :: "DB \<Rightarrow> bool" where
  "keys_ok db =
    (unique_key cred_ID (t_credentials db) \<and> unique_key cred_Name (t_credentials db) \<and>
     unique_key mb_ID (t_mailboxes db) \<and> unique_key mb_Address (t_mailboxes db) \<and>
     unique_key acc_ID (t_accounts db) \<and> unique_key acc_Username (t_accounts db) \<and>
     distinct (t_account_mailboxes db) \<and>
     unique_key as_ID (t_allowed_senders db) \<and>
     unique_key (\<lambda>s. (as_SMTPAccountID s, as_Pattern s)) (t_allowed_senders db))"

text \<open>The schema's foreign keys among these tables and from the queue.\<close>

definition keys_of :: "('r \<Rightarrow> 'k) \<Rightarrow> 'r list \<Rightarrow> 'k set" where
  "keys_of key rows = key ` set rows"

definition opt_keys :: "('r \<Rightarrow> 'k option) \<Rightarrow> 'r list \<Rightarrow> 'k set" where
  "opt_keys key rows = (\<Union>r\<in>set rows. set_option (key r))"

definition refs_ok :: "DB \<Rightarrow> bool" where
  "refs_ok db =
    (keys_of mb_OAuthCredentialID (t_mailboxes db) \<subseteq> keys_of cred_ID (t_credentials db) \<and>
     opt_keys acc_DefaultMailboxID (t_accounts db) \<subseteq> keys_of mb_ID (t_mailboxes db) \<and>
     keys_of fst (t_account_mailboxes db) \<subseteq> keys_of acc_ID (t_accounts db) \<and>
     keys_of snd (t_account_mailboxes db) \<subseteq> keys_of mb_ID (t_mailboxes db) \<and>
     keys_of as_SMTPAccountID (t_allowed_senders db) \<subseteq> keys_of acc_ID (t_accounts db) \<and>
     opt_keys msg_SMTPAccountID (t_messages db) \<subseteq> keys_of acc_ID (t_accounts db) \<and>
     opt_keys msg_MailboxID (t_messages db) \<subseteq> keys_of mb_ID (t_mailboxes db))"

text \<open>Every reference resolves and every key is unique.\<close>

definition directory_ok :: "DB \<Rightarrow> bool" where
  "directory_ok db = (keys_ok db \<and> refs_ok db)"

named_theorems directory_preserve \<open>each repository operation keeps the integrity of the tables\<close>

lemma list_ex_key: "list_ex (\<lambda>r. key r = k) rows \<longleftrightarrow> k \<in> keys_of key rows"
  by (auto simp: list_ex_iff keys_of_def)

lemma list_ex_disj: "list_ex (\<lambda>r. P r \<or> Q r) rows \<longleftrightarrow> list_ex P rows \<or> list_ex Q rows"
  by (auto simp: list_ex_iff)

lemma unique_key_snoc_keys: "unique_key key (rows @ [r]) \<longleftrightarrow> unique_key key rows \<and> key r \<notin> keys_of key rows"
  by (simp add: unique_key_snoc keys_of_def)

lemma distinct_delete_where: "distinct rows \<Longrightarrow> distinct (delete_where p rows)"
  by (simp add: delete_where_def)

lemma keys_of_snoc [simp]: "keys_of key (rows @ [r]) = insert (key r) (keys_of key rows)"
  by (simp add: keys_of_def)

lemma keys_of_update:
  assumes "\<And>r. p r \<Longrightarrow> key (f r) = key r"
  shows "keys_of key (update_where p f rows) = keys_of key rows"
proof -
  have "map key (update_where p f rows) = map key rows"
    using assms by (simp add: update_where_def)
  then show ?thesis unfolding keys_of_def by (metis set_map)
qed

lemma keys_of_update_subset:
  "keys_of key (update_where p f rows) \<subseteq> keys_of key rows \<union> (\<lambda>r. key (f r)) ` {r \<in> set rows. p r}"
  by (auto simp: keys_of_def update_where_def)

lemma keys_of_delete: "keys_of key (delete_where (\<lambda>r. key r = i) rows) = keys_of key rows - {i}"
  by (auto simp: keys_of_def delete_where_def)

lemma keys_of_delete_subset: "keys_of key (delete_where p rows) \<subseteq> keys_of key rows"
  by (auto simp: keys_of_def delete_where_def)

lemma opt_keys_snoc [simp]: "opt_keys key (rows @ [r]) = opt_keys key rows \<union> set_option (key r)"
  by (auto simp: opt_keys_def)

lemma opt_keys_update:
  "(\<And>r. p r \<Longrightarrow> key (f r) = key r) \<Longrightarrow> opt_keys key (update_where p f rows) = opt_keys key rows"
  by (auto simp: opt_keys_def update_where_def split: if_splits)

lemma opt_keys_clear:
  "(\<And>r. key (f r) = None) \<Longrightarrow>
   opt_keys key (update_where (\<lambda>r. key r = Some i) f rows) = opt_keys key rows - {i}"
  by (auto simp: opt_keys_def update_where_def split: if_splits)

lemma opt_keys_delete: "opt_keys key (delete_where p rows) \<subseteq> opt_keys key rows"
  by (auto simp: opt_keys_def delete_where_def)

lemma foreignKeysHold_iff:
  "foreignKeysHold db m \<longleftrightarrow> set_option (msg_SMTPAccountID m) \<subseteq> keys_of acc_ID (t_accounts db) \<and>
     set_option (msg_MailboxID m) \<subseteq> keys_of mb_ID (t_mailboxes db)"
  by (auto simp: foreignKeysHold_def list_ex_key split: option.splits)

lemma mailbox_exists_iff: "mailbox_exists db i \<longleftrightarrow> set_option i \<subseteq> keys_of mb_ID (t_mailboxes db)"
  by (auto simp: mailbox_exists_def list_ex_key split: option.splits)

lemma credential_exists_iff: "credential_exists db i \<longleftrightarrow> i \<in> keys_of cred_ID (t_credentials db)"
  by (simp add: credential_exists_def list_ex_key)

lemmas exists_iffs = foreignKeysHold_iff mailbox_exists_iff credential_exists_iff list_ex_key

lemma directory_ok_Credentials_Create [directory_preserve]:
  assumes "directory_ok db" "Credentials_Create now newID c db = Inr (c', db')"
  shows "directory_ok db'"
  using assms
  by (auto simp: Credentials_Create_def Let_def directory_ok_def keys_ok_def refs_ok_def
      unique_key_snoc_keys list_ex_disj list_ex_key split: if_splits)

lemma directory_ok_Credentials_Update [directory_preserve]:
  assumes "directory_ok db" "Credentials_Update now c db = Inr db'"
  shows "directory_ok db'"
proof -
  let ?f = "\<lambda>r. c\<lparr> cred_CreatedAt := cred_CreatedAt r, cred_UpdatedAt := now \<rparr>"
  let ?u = "update_where (\<lambda>r. cred_ID r = cred_ID c) ?f (t_credentials db)"
  have db': "db' = db\<lparr> t_credentials := ?u \<rparr>"
    and other: "\<And>r. r \<in> set (t_credentials db) \<Longrightarrow> cred_ID r \<noteq> cred_ID c \<Longrightarrow> cred_Name r \<noteq> cred_Name c"
    using assms(2) by (auto simp: Credentials_Update_def list_ex_iff split: if_splits)
  have "keys_of cred_ID ?u = keys_of cred_ID (t_credentials db)" by (rule keys_of_update) simp
  moreover have "unique_key cred_ID ?u = unique_key cred_ID (t_credentials db)"
    by (rule unique_key_update) simp
  moreover have "unique_key cred_Name ?u"
    using assms(1) other by (intro unique_key_replace[where k = "cred_Name c"])
      (auto simp: directory_ok_def keys_ok_def)
  ultimately show ?thesis
    using assms(1) unfolding db' by (simp add: directory_ok_def keys_ok_def refs_ok_def)
qed

lemma directory_ok_Credentials_Delete [directory_preserve]:
  assumes "directory_ok db" "Credentials_Delete i db = Inr db'"
  shows "directory_ok db'"
proof -
  have db': "db' = db\<lparr> t_credentials := delete_where (\<lambda>c. cred_ID c = i) (t_credentials db) \<rparr>"
    and free: "i \<notin> keys_of mb_OAuthCredentialID (t_mailboxes db)"
    using assms(2) by (auto simp: Credentials_Delete_def list_ex_key split: if_splits)
  show ?thesis
    using assms(1) free unfolding db'
    by (auto simp: directory_ok_def keys_ok_def refs_ok_def unique_key_delete keys_of_delete)
qed

lemma directory_ok_Mailboxes_Create [directory_preserve]:
  assumes "directory_ok db" "Mailboxes_Create now newID m db = Inr (m', db')"
  shows "directory_ok db'"
  using assms
  by (auto simp: Mailboxes_Create_def Let_def directory_ok_def keys_ok_def refs_ok_def
      unique_key_snoc_keys list_ex_disj list_ex_key credential_exists_iff split: if_splits)

lemma directory_ok_Mailboxes_Update [directory_preserve]:
  assumes "directory_ok db" "Mailboxes_Update now m db = Inr db'"
  shows "directory_ok db'"
proof -
  let ?f = "\<lambda>r. m\<lparr> mb_CreatedAt := mb_CreatedAt r, mb_UpdatedAt := now \<rparr>"
  let ?u = "update_where (\<lambda>r. mb_ID r = mb_ID m) ?f (t_mailboxes db)"
  have db': "db' = db\<lparr> t_mailboxes := ?u \<rparr>" and cred: "credential_exists db (mb_OAuthCredentialID m)"
    and other: "\<And>r. r \<in> set (t_mailboxes db) \<Longrightarrow> mb_ID r \<noteq> mb_ID m \<Longrightarrow> mb_Address r \<noteq> mb_Address m"
    using assms(2) by (auto simp: Mailboxes_Update_def list_ex_iff split: if_splits)
  have "keys_of mb_ID ?u = keys_of mb_ID (t_mailboxes db)" by (rule keys_of_update) simp
  moreover have "unique_key mb_ID ?u = unique_key mb_ID (t_mailboxes db)"
    by (rule unique_key_update) simp
  moreover have "unique_key mb_Address ?u"
    using assms(1) other by (intro unique_key_replace[where k = "mb_Address m"])
      (auto simp: directory_ok_def keys_ok_def)
  moreover have "keys_of mb_OAuthCredentialID ?u \<subseteq> keys_of cred_ID (t_credentials db)"
    using assms(1) cred
    by (auto simp: directory_ok_def refs_ok_def set_update_where credential_exists_iff
        dest!: subsetD[OF keys_of_update_subset])
  ultimately show ?thesis
    using assms(1) unfolding db' by (simp add: directory_ok_def keys_ok_def refs_ok_def)
qed

lemma directory_ok_Mailboxes_Delete [directory_preserve]:
  assumes "directory_ok db" "Mailboxes_Delete i db = Inr db'"
  shows "directory_ok db'"
proof -
  let ?as = "update_where (\<lambda>a. acc_DefaultMailboxID a = Some i)
    (\<lambda>a. a\<lparr> acc_DefaultMailboxID := None \<rparr>) (t_accounts db)"
  let ?ls = "delete_where (\<lambda>l. snd l = i) (t_account_mailboxes db)"
  let ?ms = "update_where (\<lambda>m. msg_MailboxID m = Some i) (\<lambda>m. m\<lparr> msg_MailboxID := None \<rparr>) (t_messages db)"
  have db': "db' = db\<lparr> t_mailboxes := delete_where (\<lambda>m. mb_ID m = i) (t_mailboxes db),
      t_accounts := ?as, t_account_mailboxes := ?ls, t_messages := ?ms \<rparr>"
    using assms(2) by (auto simp: Mailboxes_Delete_def split: if_splits)
  have "keys_of acc_ID ?as = keys_of acc_ID (t_accounts db)" by (rule keys_of_update) simp
  moreover have "opt_keys acc_DefaultMailboxID ?as = opt_keys acc_DefaultMailboxID (t_accounts db) - {i}"
    by (rule opt_keys_clear) simp
  moreover have "opt_keys msg_MailboxID ?ms = opt_keys msg_MailboxID (t_messages db) - {i}"
    by (rule opt_keys_clear) simp
  moreover have "opt_keys msg_SMTPAccountID ?ms = opt_keys msg_SMTPAccountID (t_messages db)"
    by (rule opt_keys_update) simp
  moreover have "keys_of fst ?ls \<subseteq> keys_of fst (t_account_mailboxes db)"
    "keys_of mb_OAuthCredentialID (delete_where (\<lambda>m. mb_ID m = i) (t_mailboxes db))
      \<subseteq> keys_of mb_OAuthCredentialID (t_mailboxes db)"
    by (rule keys_of_delete_subset)+
  ultimately show ?thesis
    using assms(1) unfolding db'
    by (auto simp: directory_ok_def keys_ok_def refs_ok_def unique_key_delete unique_key_update
        keys_of_delete distinct_delete_where)
qed

lemma directory_ok_Accounts_Create [directory_preserve]:
  assumes "directory_ok db" "Accounts_Create now newID a db = Inr (a', db')"
  shows "directory_ok db'"
  using assms
  by (auto simp: Accounts_Create_def Let_def directory_ok_def keys_ok_def refs_ok_def
      unique_key_snoc_keys list_ex_disj list_ex_key mailbox_exists_iff split: if_splits)

lemma opt_keys_update_subset:
  "opt_keys key (update_where p f rows) \<subseteq>
    opt_keys key rows \<union> (\<Union>r\<in>{r \<in> set rows. p r}. set_option (key (f r)))"
  by (auto simp: opt_keys_def update_where_def split: if_splits)

lemma directory_ok_Accounts_Update [directory_preserve]:
  assumes "directory_ok db" "Accounts_Update now a db = Inr db'"
  shows "directory_ok db'"
proof -
  let ?f = "\<lambda>r. a\<lparr> acc_CreatedAt := acc_CreatedAt r, acc_LastUsedAt := acc_LastUsedAt r,
    acc_UpdatedAt := now \<rparr>"
  let ?u = "update_where (\<lambda>r. acc_ID r = acc_ID a) ?f (t_accounts db)"
  have db': "db' = db\<lparr> t_accounts := ?u \<rparr>" and mb: "mailbox_exists db (acc_DefaultMailboxID a)"
    and other: "\<And>r. r \<in> set (t_accounts db) \<Longrightarrow> acc_ID r \<noteq> acc_ID a \<Longrightarrow> acc_Username r \<noteq> acc_Username a"
    using assms(2) by (auto simp: Accounts_Update_def list_ex_iff split: if_splits)
  have "keys_of acc_ID ?u = keys_of acc_ID (t_accounts db)" by (rule keys_of_update) simp
  moreover have "unique_key acc_ID ?u = unique_key acc_ID (t_accounts db)"
    by (rule unique_key_update) simp
  moreover have "unique_key acc_Username ?u"
    using assms(1) other by (intro unique_key_replace[where k = "acc_Username a"])
      (auto simp: directory_ok_def keys_ok_def)
  moreover have "opt_keys acc_DefaultMailboxID ?u \<subseteq> keys_of mb_ID (t_mailboxes db)"
    using assms(1) mb
    by (auto simp: directory_ok_def refs_ok_def mailbox_exists_iff
        dest!: subsetD[OF opt_keys_update_subset])
  ultimately show ?thesis
    using assms(1) unfolding db' by (simp add: directory_ok_def keys_ok_def refs_ok_def)
qed

lemma directory_ok_TouchLastUsed [directory_preserve]:
  assumes "directory_ok db"
  shows "directory_ok (TouchLastUsed i at db)"
  using assms
  by (simp add: TouchLastUsed_def directory_ok_def keys_ok_def refs_ok_def unique_key_update
      keys_of_update opt_keys_update)

lemma directory_ok_Accounts_Delete [directory_preserve]:
  assumes "directory_ok db" "Accounts_Delete i db = Inr db'"
  shows "directory_ok db'"
proof -
  let ?ls = "delete_where (\<lambda>l. fst l = i) (t_account_mailboxes db)"
  let ?ms = "update_where (\<lambda>m. msg_SMTPAccountID m = Some i)
    (\<lambda>m. m\<lparr> msg_SMTPAccountID := None \<rparr>) (t_messages db)"
  have db': "db' = db\<lparr> t_accounts := delete_where (\<lambda>a. acc_ID a = i) (t_accounts db),
      t_account_mailboxes := ?ls,
      t_allowed_senders := delete_where (\<lambda>s. as_SMTPAccountID s = i) (t_allowed_senders db),
      t_messages := ?ms \<rparr>"
    using assms(2) by (auto simp: Accounts_Delete_def split: if_splits)
  have "opt_keys msg_SMTPAccountID ?ms = opt_keys msg_SMTPAccountID (t_messages db) - {i}"
    by (rule opt_keys_clear) simp
  moreover have "opt_keys msg_MailboxID ?ms = opt_keys msg_MailboxID (t_messages db)"
    by (rule opt_keys_update) simp
  moreover have "keys_of snd ?ls \<subseteq> keys_of snd (t_account_mailboxes db)"
    by (rule keys_of_delete_subset)
  moreover have "opt_keys acc_DefaultMailboxID (delete_where (\<lambda>a. acc_ID a = i) (t_accounts db))
      \<subseteq> opt_keys acc_DefaultMailboxID (t_accounts db)"
    by (rule opt_keys_delete)
  ultimately show ?thesis
    using assms(1) unfolding db'
    by (auto simp: directory_ok_def keys_ok_def refs_ok_def unique_key_delete
        keys_of_delete distinct_delete_where)
qed

lemma directory_ok_insertLinks:
  "directory_ok db \<Longrightarrow> insertLinks i seen is db = Inr db' \<Longrightarrow> directory_ok db'"
proof (induction i seen "is" db rule: insertLinks.induct)
  case (2 accountID seen i "is" db)
  show ?case
  proof (cases "i \<in> set seen")
    case True
    then show ?thesis using 2 by simp
  next
    case False
    have "directory_ok (db\<lparr> t_account_mailboxes := t_account_mailboxes db @ [(accountID, i)] \<rparr>)"
      using 2(3,4) False
      by (auto simp: directory_ok_def keys_ok_def refs_ok_def list_ex_iff[of "\<lambda>l. l = _"]
          list_ex_key mailbox_exists_iff split: if_splits)
    then show ?thesis using 2 False by (auto split: if_splits)
  qed
qed simp

lemma directory_ok_SetMailboxes [directory_preserve]:
  assumes "directory_ok db" "SetMailboxes i is db = Inr db'"
  shows "directory_ok db'"
proof -
  have "directory_ok (db\<lparr> t_account_mailboxes := delete_where (\<lambda>l. fst l = i) (t_account_mailboxes db) \<rparr>)"
    using assms(1) keys_of_delete_subset[of snd "\<lambda>l. fst l = i" "t_account_mailboxes db"]
    by (auto simp: directory_ok_def keys_ok_def refs_ok_def distinct_delete_where keys_of_delete)
  then show ?thesis
    using assms(2) unfolding SetMailboxes_def by (rule directory_ok_insertLinks)
qed

lemma directory_ok_insertSenders:
  "directory_ok db \<Longrightarrow> insertSenders now i ids seen ps db = Inr db' \<Longrightarrow> directory_ok db'"
proof (induction now i ids seen ps db rule: insertSenders.induct)
  case (2 now i ids seen p ps db)
  show ?case
  proof (cases "p \<in> set seen")
    case True
    then show ?thesis using 2 by simp
  next
    case False
    have "directory_ok (db\<lparr> t_allowed_senders := t_allowed_senders db @
        [\<lparr> as_ID = ids p, as_SMTPAccountID = i, as_Pattern = p, as_CreatedAt = now \<rparr>] \<rparr>)"
      using 2(3,4) False
      by (auto simp: directory_ok_def keys_ok_def refs_ok_def unique_key_snoc list_ex_disj
          list_ex_key[of acc_ID] list_ex_iff split: if_splits)
    then show ?thesis using 2 False by (auto split: if_splits)
  qed
qed simp

lemma directory_ok_SetAllowedSenders [directory_preserve]:
  assumes "directory_ok db" "SetAllowedSenders now i ids ps db = Inr db'"
  shows "directory_ok db'"
proof -
  have "directory_ok (db\<lparr> t_allowed_senders := delete_where (\<lambda>s. as_SMTPAccountID s = i) (t_allowed_senders db) \<rparr>)"
    using assms(1)
    by (auto simp: directory_ok_def keys_ok_def refs_ok_def unique_key_delete keys_of_delete)
  then show ?thesis
    using assms(2) unfolding SetAllowedSenders_def by (rule directory_ok_insertSenders)
qed

subsection \<open>The queue keeps the references\<close>

lemma directory_ok_updateMessages:
  assumes "directory_ok db"
    and "\<And>m. p m \<Longrightarrow> msg_SMTPAccountID (f m) = msg_SMTPAccountID m \<and> msg_MailboxID (f m) = msg_MailboxID m"
  shows "directory_ok (updateMessages p f db)"
  using assms
  by (simp add: updateMessages_def directory_ok_def keys_ok_def refs_ok_def opt_keys_update)

lemma directory_ok_deleteMessages:
  assumes "directory_ok db"
  shows "directory_ok (deleteMessages p db)"
  using assms opt_keys_delete[of msg_SMTPAccountID p "t_messages db"]
    opt_keys_delete[of msg_MailboxID p "t_messages db"]
  by (simp add: deleteMessages_def Let_def directory_ok_def keys_ok_def refs_ok_def) blast

lemma directory_ok_updateOwned:
  assumes "directory_ok db" "updateOwned i owner f db = Inr db'"
    and "\<And>m. msg_SMTPAccountID (f m) = msg_SMTPAccountID m \<and> msg_MailboxID (f m) = msg_MailboxID m"
  shows "directory_ok db'"
  using assms by (auto simp: updateOwned_cases intro!: directory_ok_updateMessages split: if_splits)

lemma directory_ok_Enqueue [directory_preserve]:
  assumes "directory_ok db" "Enqueue now newID m body db = Inr (m', db')"
  shows "directory_ok db'"
  using assms
  by (auto simp: Enqueue_def enqueueTx_def Let_def directory_ok_def keys_ok_def refs_ok_def
      foreignKeysHold_iff split: if_splits option.splits)

lemma directory_ok_Claim [directory_preserve]:
  assumes "directory_ok db" "ClaimMessages owner limit leaseFor now db = Inr (ms, db')"
  shows "directory_ok db'"
  using assms
  by (auto simp: ClaimMessages_def Let_def takeLease_def intro!: directory_ok_updateMessages
      split: if_splits)

lemma directory_ok_finish [directory_preserve]:
  assumes "directory_ok db" "finish oc i owner now db = Inr db'"
  shows "directory_ok db'"
  using assms
  by (cases oc) (auto simp: finish_def MarkSent_def Defer_def Fail_def elim!: directory_ok_updateOwned)

lemma directory_ok_operator [directory_preserve]:
  assumes "directory_ok db"
  shows "Requeue i now db = Inr db' \<Longrightarrow> directory_ok db'"
    and "Hold i now db = Inr db' \<Longrightarrow> directory_ok db'"
    and "Messages_Delete i db = Inr db' \<Longrightarrow> directory_ok db'"
    and "directory_ok (snd (ReleaseExpiredLeases now db))"
    and "directory_ok (snd (Purge sb fb db))"
  using assms
  by (auto simp: Requeue_def Hold_def Messages_Delete_def ReleaseExpiredLeases_def Purge_def Let_def
      requireAction_Inr_iff intro!: directory_ok_updateMessages directory_ok_deleteMessages)

lemma directory_ok_after:
  "directory_ok db \<Longrightarrow> (\<And>db'. r = Inr db' \<Longrightarrow> directory_ok db') \<Longrightarrow> directory_ok (after db r)"
  by (simp add: after_def split: sum.splits)

lemma directory_ok_queue_step [directory_preserve]:
  "queue_step orderly s s' \<Longrightarrow> directory_ok (qs_db s) \<Longrightarrow> directory_ok (qs_db s')"
  by (induction rule: queue_step.induct) (auto intro: directory_preserve intro!: directory_ok_after)

subsection \<open>Every reachable database\<close>

text \<open>The writers of the proxy: the management API and the bootstrap file through the
  repositories, and the queue.\<close>

inductive directory_step :: "DB \<Rightarrow> DB \<Rightarrow> bool" where
  CredCreate: "Credentials_Create now newID c db = Inr (c', db') \<Longrightarrow> directory_step db db'"
| CredUpdate: "Credentials_Update now c db = Inr db' \<Longrightarrow> directory_step db db'"
| CredDelete: "Credentials_Delete i db = Inr db' \<Longrightarrow> directory_step db db'"
| MbCreate: "Mailboxes_Create now newID m db = Inr (m', db') \<Longrightarrow> directory_step db db'"
| MbUpdate: "Mailboxes_Update now m db = Inr db' \<Longrightarrow> directory_step db db'"
| MbDelete: "Mailboxes_Delete i db = Inr db' \<Longrightarrow> directory_step db db'"
| AccCreate: "Accounts_Create now newID a db = Inr (a', db') \<Longrightarrow> directory_step db db'"
| AccUpdate: "Accounts_Update now a db = Inr db' \<Longrightarrow> directory_step db db'"
| AccDelete: "Accounts_Delete i db = Inr db' \<Longrightarrow> directory_step db db'"
| AccTouch: "directory_step db (TouchLastUsed i at db)"
| AccMailboxes: "SetMailboxes i is db = Inr db' \<Longrightarrow> directory_step db db'"
| AccSenders: "SetAllowedSenders now i ids ps db = Inr db' \<Longrightarrow> directory_step db db'"
| Queue: "queue_step orderly s s' \<Longrightarrow> directory_step (qs_db s) (qs_db s')"

lemma directory_step_ok: "directory_step db db' \<Longrightarrow> directory_ok db \<Longrightarrow> directory_ok db'"
  by (induction rule: directory_step.induct) (blast intro: directory_preserve)+

lemma directory_ok_empty: "directory_ok empty_db"
  by (simp add: directory_ok_def keys_ok_def refs_ok_def unique_key_def keys_of_def opt_keys_def
      empty_db_def)

definition sample_credential :: OAuthCredential where
  "sample_credential = \<lparr> cred_ID = ''c'', cred_Name = ''tenant'', cred_TenantID = ''t'',
     cred_ClientID = ''client'', cred_AuthType = AuthTypeSecret, cred_ClientSecretEnc = ''sealed'',
     cred_CertificatePEM = [], cred_CertificateKeyEnc = [], cred_CertificateThumbprint = [],
     cred_AuthorityHost = [], cred_ExpiresAt = None, cred_ManagedBy = ManagedByUI,
     cred_CreatedAt = 0, cred_UpdatedAt = 0 \<rparr>"

definition sample_box :: "string \<Rightarrow> string \<Rightarrow> Mailbox" where
  "sample_box i a = \<lparr> mb_ID = i, mb_Address = a, mb_DisplayName = [], mb_OAuthCredentialID = ''c'',
     mb_Transport = TransportSMTP, mb_RateLimitPerMin = None, mb_MaxConcurrent = None,
     mb_Enabled = True, mb_ManagedBy = ManagedByUI, mb_CreatedAt = 0, mb_UpdatedAt = 0 \<rparr>"

definition sample_account :: SMTPAccount where
  "sample_account = \<lparr> acc_ID = ''a'', acc_Username = ''device'', acc_PasswordHash = ''h'',
     acc_Description = [], acc_DefaultMailboxID = None, acc_FromPolicy = FromPolicyReject,
     acc_AllowCIDRs = [], acc_RateLimitPerMin = None, acc_Enabled = True, acc_LastUsedAt = None,
     acc_ManagedBy = ManagedByUI, acc_CreatedAt = 0, acc_UpdatedAt = 0 \<rparr>"

definition sample_directory :: DB where
  "sample_directory = empty_db\<lparr> t_credentials := [sample_credential],
     t_mailboxes := [sample_box ''m1'' ''one@x'', sample_box ''m2'' ''two@x''],
     t_accounts := [sample_account] \<rparr>"

lemma sample_directory_reached: "directory_step\<^sup>*\<^sup>* empty_db sample_directory"
proof -
  let ?d1 = "empty_db\<lparr> t_credentials := [sample_credential] \<rparr>"
  let ?d2 = "?d1\<lparr> t_mailboxes := [sample_box ''m1'' ''one@x''] \<rparr>"
  let ?d3 = "?d2\<lparr> t_mailboxes := [sample_box ''m1'' ''one@x'', sample_box ''m2'' ''two@x''] \<rparr>"
  have "Credentials_Create 0 [] sample_credential empty_db = Inr (sample_credential, ?d1)" by code_simp
  then have 1: "directory_step empty_db ?d1" by (rule CredCreate)
  have "Mailboxes_Create 0 [] (sample_box ''m1'' ''one@x'') ?d1 = Inr (sample_box ''m1'' ''one@x'', ?d2)"
    by code_simp
  then have 2: "directory_step ?d1 ?d2" by (rule MbCreate)
  have "Mailboxes_Create 0 [] (sample_box ''m2'' ''two@x'') ?d2 = Inr (sample_box ''m2'' ''two@x'', ?d3)"
    by code_simp
  then have 3: "directory_step ?d2 ?d3" by (rule MbCreate)
  have "Accounts_Create 0 [] sample_account ?d3 = Inr (sample_account, sample_directory)" by code_simp
  then have 4: "directory_step ?d3 sample_directory" by (rule AccCreate)
  from 1 2 3 4 show ?thesis by (meson rtranclp.rtrancl_into_rtrancl rtranclp.rtrancl_refl)
qed



section \<open>Mailboxes of an account\<close>

lemma insertLinks_links:
  assumes "insertLinks a seen is db = Inr db'"
  shows "\<exists>ks. db' = db\<lparr> t_account_mailboxes := t_account_mailboxes db @ map (Pair a) ks \<rparr> \<and>
    set ks \<union> set seen = set is \<union> set seen \<and> set is - set seen \<subseteq> keys_of mb_ID (t_mailboxes db)"
  using assms
proof (induction a seen "is" db rule: insertLinks.induct)
  case (1 a seen db)
  then show ?case by (intro exI[of _ "[]"]) simp
next
  case (2 a seen i "is" db)
  show ?case
  proof (cases "i \<in> set seen")
    case True
    then show ?thesis using 2 by (auto simp: insert_absorb)
  next
    case False
    let ?db1 = "db\<lparr> t_account_mailboxes := t_account_mailboxes db @ [(a, i)] \<rparr>"
    have mb: "i \<in> keys_of mb_ID (t_mailboxes db)"
      and rec: "insertLinks a (i # seen) is ?db1 = Inr db'"
      using 2(3) False by (auto simp: mailbox_exists_iff split: if_splits)
    obtain ks where ks: "db' = ?db1\<lparr> t_account_mailboxes := t_account_mailboxes ?db1 @ map (Pair a) ks \<rparr>"
      "set ks \<union> set (i # seen) = set is \<union> set (i # seen)"
      "set is - set (i # seen) \<subseteq> keys_of mb_ID (t_mailboxes db)"
      using 2 False rec by (auto split: if_splits)
    then show ?thesis using mb by (intro exI[of _ "i # ks"]) auto
  qed
qed

lemma linkedMailbox_iff:
  "linkedMailbox db a i \<longleftrightarrow> (a, i) \<in> set (t_account_mailboxes db) \<or>
    (\<exists>r\<in>set (t_accounts db). acc_ID r = a \<and> acc_DefaultMailboxID r = Some i)"
  by (auto simp: linkedMailbox_def list_ex_iff)

text \<open>After \<^verbatim>\<open>SetMailboxes\<close> the mailboxes \<^verbatim>\<open>ListForAccount\<close> returns are exactly the
  listed ones and the account's default mailbox, whatever the links were before and whether or
  not an identifier is repeated, and each is returned once.\<close>

theorem SetMailboxes_ListForAccount:
  assumes "directory_ok db" "SetMailboxes a is db = Inr db'"
  shows "mb_ID ` set (ListForAccount db' a) =
      set is \<union> {i. \<exists>r\<in>set (t_accounts db). acc_ID r = a \<and> acc_DefaultMailboxID r = Some i} \<and>
    distinct (map mb_ID (ListForAccount db' a))"
proof -
  obtain ks where ks: "db' = db\<lparr> t_account_mailboxes :=
        delete_where (\<lambda>l. fst l = a) (t_account_mailboxes db) @ map (Pair a) ks \<rparr>"
    "set ks = set is" "set is \<subseteq> keys_of mb_ID (t_mailboxes db)"
    using insertLinks_links[OF assms(2)[unfolded SetMailboxes_def]] by auto
  have linked: "linkedMailbox db' a i \<longleftrightarrow> i \<in> set is \<or>
      (\<exists>r\<in>set (t_accounts db). acc_ID r = a \<and> acc_DefaultMailboxID r = Some i)" for i
    using ks(2) by (auto simp: ks(1) linkedMailbox_iff set_delete_where)
  have default: "i \<in> keys_of mb_ID (t_mailboxes db)"
    if "r \<in> set (t_accounts db)" "acc_DefaultMailboxID r = Some i" for r i
    using assms(1) that by (force simp: directory_ok_def refs_ok_def opt_keys_def)
  have "mb_ID ` set (ListForAccount db' a) = {i \<in> keys_of mb_ID (t_mailboxes db). linkedMailbox db' a i}"
    by (auto simp: ListForAccount_def keys_of_def ks(1))
  also have "\<dots> = set is \<union> {i. \<exists>r\<in>set (t_accounts db). acc_ID r = a \<and> acc_DefaultMailboxID r = Some i}"
    using ks(3) default by (auto simp: linked)
  finally have "mb_ID ` set (ListForAccount db' a) = \<dots>" .
  moreover have "unique_key mb_ID (t_mailboxes db')"
    using assms(1) by (simp add: ks(1) directory_ok_def keys_ok_def)
  then have "distinct (map mb_ID (ListForAccount db' a))"
    by (auto simp: ListForAccount_def unique_key_def distinct_map elim: inj_on_subset)
  ultimately show ?thesis by simp
qed

theorem SetMailboxes_ListForAccount_witness:
  "map mb_ID (ListForAccount (after empty_db (SetMailboxes ''a'' [''m2'', ''m1'', ''m2''] sample_directory)) ''a'')
     = [''m1'', ''m2''] \<and>
   distinct (map mb_ID (ListForAccount
     (after empty_db (SetMailboxes ''a'' [''m2'', ''m1'', ''m2''] sample_directory)) ''a''))"
proof -
  let ?r = "SetMailboxes ''a'' [''m2'', ''m1'', ''m2''] sample_directory"
  let ?db' = "after empty_db ?r"
  have "?r = Inr ?db'" by code_simp
  moreover have "directory_ok sample_directory" by code_simp
  ultimately have "distinct (map mb_ID (ListForAccount ?db' ''a''))"
    using SetMailboxes_ListForAccount by blast
  moreover have "map mb_ID (ListForAccount ?db' ''a'') = [''m1'', ''m2'']" by code_simp
  ultimately show ?thesis by simp
qed

end
