(* ===== verification/Backoff.thy ===== *)
theory Backoff
  imports Complex_Main Models
begin

text \<open>
  The retry schedule of \<^verbatim>\<open>src/internal/queue/backoff.go\<close>.  Durations are nanoseconds.
  The jitter fraction and the random sample, 64-bit floats in the code, are rationals; the
  conversion back to a duration truncates towards zero as Go does.
\<close>

section \<open>Definitions\<close>

record Backoff =
  bo_Delays :: "duration list"
  bo_Jitter :: rat
  bo_MaxAttempts :: int
  bo_MaxAge :: duration

definition DefaultDelays :: "duration list" where
  "DefaultDelays = [minute, 5 * minute, 15 * minute, hour, 4 * hour, 12 * hour]"

definition trunc_rat :: "rat \<Rightarrow> int" where
  "trunc_rat x = (if x \<ge> 0 then floor x else ceiling x)"

definition clampJitter :: "rat \<Rightarrow> rat" where
  "clampJitter j = (if j < 0 then 0 else if j > 1 then 1 else j)"

definition scheduledDelay :: "Backoff \<Rightarrow> int \<Rightarrow> duration" where
  "scheduledDelay b attempts =
    (let delays = (if bo_Delays b = [] then DefaultDelays else bo_Delays b);
         index0 = attempts - 1;
         index1 = (if index0 < 0 then 0 else index0);
         index = (if index1 \<ge> int (length delays) then int (length delays) - 1 else index1)
     in delays ! nat index)"

text \<open>\<open>random\<close> is the sample \<^verbatim>\<open>randomValue\<close> draws.\<close>

definition delayFor :: "Backoff \<Rightarrow> rat \<Rightarrow> int \<Rightarrow> duration" where
  "delayFor b random attempts =
    (let delay = scheduledDelay b attempts in
     if bo_Jitter b \<le> 0 then delay
     else (let spread = of_int delay * clampJitter (bo_Jitter b)
           in delay - trunc_rat (spread * random)))"

definition NextAttempt :: "Backoff \<Rightarrow> rat \<Rightarrow> instant \<Rightarrow> int \<Rightarrow> instant \<Rightarrow> instant option" where
  "NextAttempt b random now attempts receivedAt =
    (if bo_MaxAttempts b > 0 \<and> attempts \<ge> bo_MaxAttempts b then None
     else (let next = now + delayFor b random attempts in
           if bo_MaxAge b > 0 \<and> receivedAt \<noteq> zero_time \<and> next > receivedAt + bo_MaxAge b
           then None else Some next))"

definition NextAttemptAfter ::
  "Backoff \<Rightarrow> rat \<Rightarrow> instant \<Rightarrow> int \<Rightarrow> instant \<Rightarrow> duration \<Rightarrow> instant option" where
  "NextAttemptAfter b random now attempts receivedAt requested =
    (case NextAttempt b random now attempts receivedAt of
       None \<Rightarrow> None
     | Some next \<Rightarrow>
         Some (if requested > 0 \<and> now + requested > next then now + requested else next))"

section \<open>Lemmas\<close>

text \<open>Every delay of the schedule is a duration from now on; the configuration check
  \<^verbatim>\<open>validateQueue\<close> enforces it.\<close>

definition delays_ok :: "Backoff \<Rightarrow> bool" where
  "delays_ok b = list_all (\<lambda>d. 0 \<le> d) (bo_Delays b)"

lemma clampJitter_range: "0 \<le> clampJitter j \<and> clampJitter j \<le> 1"
  by (simp add: clampJitter_def)

lemma scheduledDelay_mem:
  "scheduledDelay b attempts \<in> set (if bo_Delays b = [] then DefaultDelays else bo_Delays b)"
proof -
  let ?ds = "if bo_Delays b = [] then DefaultDelays else bo_Delays b"
  have ne: "length ds > 0 \<Longrightarrow>
      ds ! nat (if (if a - 1 < 0 then 0 else a - 1) \<ge> int (length ds) then int (length ds) - 1
                else (if a - 1 < 0 then 0 else a - 1)) \<in> set ds" for ds :: "duration list" and a :: int
    by (rule nth_mem) (simp add: nat_less_iff)
  have "length ?ds > 0" by (simp add: DefaultDelays_def)
  from ne[OF this, of attempts] show ?thesis
    unfolding scheduledDelay_def Let_def .
qed

lemma scheduledDelay_nonneg: "delays_ok b \<Longrightarrow> 0 \<le> scheduledDelay b attempts"
  using scheduledDelay_mem[of b attempts]
  by (auto simp: delays_ok_def list_all_iff DefaultDelays_def time_units split: if_splits)

lemma scheduledDelay_last:
  assumes "bo_Delays b \<noteq> []" "attempts \<ge> int (length (bo_Delays b))"
  shows "scheduledDelay b attempts = last (bo_Delays b)"
proof -
  have "length (bo_Delays b) > 0" using assms(1) by simp
  then have "0 < attempts" using assms(2) by linarith
  then show ?thesis
    using assms by (auto simp: scheduledDelay_def Let_def last_conv_nth nat_diff_distrib
        intro!: arg_cong[of _ _ "\<lambda>n. bo_Delays b ! n"])
qed

lemma spread_bounds:
  assumes "0 \<le> d" "0 \<le> (r::rat)" "r \<le> 1" "0 \<le> j" "j \<le> 1"
  shows "0 \<le> trunc_rat (of_int d * j * r)" "trunc_rat (of_int d * j * r) \<le> d"
    and "of_int (trunc_rat (of_int d * j * r)) \<le> of_int d * j"
proof -
  have nn: "0 \<le> of_int d * j * r" using assms by simp
  have jr: "j * r \<le> j" using assms by (simp add: mult_left_le)
  then have le: "of_int d * j * r \<le> of_int d * j"
    using assms(1) by (metis mult.assoc mult_left_mono of_int_0_le_iff)
  have le2: "of_int d * j \<le> of_int d" using assms by (simp add: mult_left_le)
  show "0 \<le> trunc_rat (of_int d * j * r)" using nn by (simp add: trunc_rat_def)
  show "trunc_rat (of_int d * j * r) \<le> d"
    using nn le le2 by (simp add: trunc_rat_def floor_le_iff)
  show "of_int (trunc_rat (of_int d * j * r)) \<le> of_int d * j"
    using nn le by (simp add: trunc_rat_def) (meson dual_order.trans of_int_floor_le)
qed

lemma delayFor_bounds:
  assumes "delays_ok b" "0 \<le> r" "r \<le> 1"
  shows "0 \<le> delayFor b r attempts \<and> delayFor b r attempts \<le> scheduledDelay b attempts"
  using spread_bounds[OF scheduledDelay_nonneg[OF assms(1)] assms(2,3)]
    clampJitter_range scheduledDelay_nonneg[OF assms(1)]
  by (simp add: delayFor_def Let_def)

section \<open>Properties\<close>

text \<open>A retry is scheduled for an instant that is not in the past, not later than the
  schedule's delay for that attempt, shortened by at most the jitter fraction, within the
  attempt budget and within the maximum age counted from when the message was accepted.\<close>

theorem NextAttempt_bounds:
  assumes "delays_ok b" "0 \<le> r" "r \<le> 1"
    and "NextAttempt b r now attempts receivedAt = Some t"
  shows "now \<le> t \<and> t \<le> now + scheduledDelay b attempts \<and>
    of_int (now + scheduledDelay b attempts - t) \<le>
      of_int (scheduledDelay b attempts) * clampJitter (bo_Jitter b) \<and>
    (bo_MaxAttempts b > 0 \<longrightarrow> attempts < bo_MaxAttempts b) \<and>
    (bo_MaxAge b > 0 \<and> receivedAt \<noteq> zero_time \<longrightarrow> t \<le> receivedAt + bo_MaxAge b)"
proof -
  have t: "t = now + delayFor b r attempts"
    and att: "bo_MaxAttempts b > 0 \<longrightarrow> attempts < bo_MaxAttempts b"
    and age: "bo_MaxAge b > 0 \<and> receivedAt \<noteq> zero_time \<longrightarrow> t \<le> receivedAt + bo_MaxAge b"
    using assms(4) by (auto simp: NextAttempt_def Let_def split: if_splits)
  note nn = scheduledDelay_nonneg[OF assms(1), of attempts]
  have "of_int (scheduledDelay b attempts - delayFor b r attempts) \<le>
      of_int (scheduledDelay b attempts) * clampJitter (bo_Jitter b)"
  proof (cases "bo_Jitter b \<le> 0")
    case True
    then show ?thesis using nn clampJitter_range[of "bo_Jitter b"] by (simp add: delayFor_def Let_def)
  next
    case False
    then show ?thesis
      using spread_bounds(3)[OF nn assms(2,3), of "clampJitter (bo_Jitter b)"]
        clampJitter_range[of "bo_Jitter b"]
      by (simp add: delayFor_def Let_def)
  qed
  then show ?thesis using delayFor_bounds[OF assms(1-3), of attempts] t att age by (simp add: algebra_simps)
qed

text \<open>The proxy never retries before the delay the upstream asked for has passed, and an
  upstream request neither starts a retry that the schedule has given up nor stops one it allows.\<close>

theorem NextAttemptAfter_honours:
  "(case NextAttemptAfter b r now attempts receivedAt requested of
      None \<Rightarrow> NextAttempt b r now attempts receivedAt = None
    | Some t \<Rightarrow>
        (\<exists>t0. NextAttempt b r now attempts receivedAt = Some t0 \<and> t0 \<le> t \<and>
           t = (if requested > 0 then max t0 (now + requested) else t0)))"
  by (auto simp: NextAttemptAfter_def split: option.splits)

text \<open>An upstream delay is not checked against the maximum age: for every schedule with a
  maximum age there is a state in which the message is scheduled for an instant after its
  deadline.\<close>

theorem Retry_After_exceeds_MaxAge:
  assumes "bo_MaxAge b > 0" "receivedAt \<noteq> zero_time"
    and "NextAttempt b r now attempts receivedAt = Some t"
  shows "\<exists>requested t'. NextAttemptAfter b r now attempts receivedAt requested = Some t' \<and>
    t' > receivedAt + bo_MaxAge b"
proof -
  define q where "q = \<bar>receivedAt + bo_MaxAge b - now\<bar> + \<bar>t - now\<bar> + 1"
  have "q > 0" "now + q > t" "now + q > receivedAt + bo_MaxAge b" unfolding q_def by linarith+
  then show ?thesis using assms(3) by (intro exI[of _ q] exI[of _ "now + q"]) (simp add: NextAttemptAfter_def)
qed

section \<open>Witnesses\<close>

definition sample_backoff :: Backoff where
  "sample_backoff = \<lparr> bo_Delays = [], bo_Jitter = 1/5, bo_MaxAttempts = 10, bo_MaxAge = 72 * hour \<rparr>"

theorem NextAttempt_bounds_witness:
  "NextAttempt sample_backoff (1/2) 1000 1 500 = Some (1000 + 54 * second) \<and>
   1000 \<le> 1000 + 54 * second \<and> 1000 + 54 * second \<le> 500 + 72 * hour"
proof -
  have n: "NextAttempt sample_backoff (1/2) 1000 1 500 = Some (1000 + 54 * second)" by code_simp
  moreover have "delays_ok sample_backoff" by code_simp
  moreover have "bo_MaxAge sample_backoff = 72 * hour" "(0::int) < 72 * hour" by code_simp+
  moreover have "(500::int) \<noteq> zero_time" by code_simp
  ultimately show ?thesis
    using NextAttempt_bounds[of sample_backoff "1/2" 1000 1 500 "1000 + 54 * second"] by simp
qed

theorem Retry_After_exceeds_MaxAge_witness:
  "\<exists>requested t'. NextAttemptAfter sample_backoff (1/2) 1000 1 500 requested = Some t' \<and>
    t' > 500 + bo_MaxAge sample_backoff"
proof -
  have "NextAttempt sample_backoff (1/2) 1000 1 500 = Some (1000 + 54 * second)" by code_simp
  moreover have "bo_MaxAge sample_backoff > 0" by code_simp
  moreover have "(500::int) \<noteq> zero_time" by code_simp
  ultimately show ?thesis using Retry_After_exceeds_MaxAge by blast
qed

end
