(* ===== verification/RateLimit.thy ===== *)
theory RateLimit
  imports Backoff
begin

text \<open>
  Pacing of deliveries per mailbox, \<^verbatim>\<open>src/internal/queue/ratelimit.go\<close>: a token bucket
  for the rate and a counting semaphore for concurrency.

  Token counts, 64-bit floats in the code, are rationals.  A \<^verbatim>\<open>mailboxLimiter\<close> is
  shared by reference (a delivery releases its slot on the semaphore it took it from, even after
  the mailbox got a new limiter), so limiters live in a heap and the map holds references.  The
  channel of the semaphore is its capacity and the number of slots in use.
\<close>

section \<open>Budgets\<close>

definition ExchangeMessagesPerMinute :: int where "ExchangeMessagesPerMinute = 30"
definition ExchangeConcurrentConnections :: int where "ExchangeConcurrentConnections = 3"

record Budget =
  bg_PerMinute :: int
  bg_MaxConcurrent :: int

definition clamp :: "Budget \<Rightarrow> Budget" where
  "clamp b =
    (let b1 = (if bg_PerMinute b \<le> 0 \<or> bg_PerMinute b > ExchangeMessagesPerMinute
               then b\<lparr> bg_PerMinute := ExchangeMessagesPerMinute \<rparr> else b);
         b2 = (if bg_MaxConcurrent b1 \<le> 0 then b1\<lparr> bg_MaxConcurrent := 2 \<rparr> else b1)
     in if bg_MaxConcurrent b2 > ExchangeConcurrentConnections
        then b2\<lparr> bg_MaxConcurrent := ExchangeConcurrentConnections \<rparr> else b2)"

section \<open>The token bucket\<close>

record tokenBucket =
  tb_perMinute :: int
  tb_tokens :: rat
  tb_capacity :: rat
  tb_last :: instant

definition newTokenBucket :: "int \<Rightarrow> instant \<Rightarrow> tokenBucket" where
  "newTokenBucket perMinute now =
    \<lparr> tb_perMinute = perMinute, tb_tokens = of_int perMinute, tb_capacity = of_int perMinute,
      tb_last = now \<rparr>"

definition refill :: "instant \<Rightarrow> tokenBucket \<Rightarrow> tokenBucket" where
  "refill now b =
    (if \<not> now > tb_last b then b
     else (let elapsed = now - tb_last b;
               tokens = tb_tokens b + (of_int elapsed / of_int minute) * of_int (tb_perMinute b)
           in b\<lparr> tb_last := now,
                 tb_tokens := (if tokens > tb_capacity b then tb_capacity b else tokens) \<rparr>))"

definition take_token :: "instant \<Rightarrow> tokenBucket \<Rightarrow> (duration \<times> bool) \<times> tokenBucket" where
  "take_token now b0 =
    (let b = refill now b0 in
     if tb_tokens b \<ge> 1 then ((0, True), b\<lparr> tb_tokens := tb_tokens b - 1 \<rparr>)
     else (let missing = 1 - tb_tokens b;
               perToken = minute div tb_perMinute b
           in ((trunc_rat (missing * of_int perToken), False), b)))"

section \<open>The limiter\<close>

record mailboxLimiter =
  ml_bucket :: tokenBucket
  ml_cap :: int
  ml_used :: int

record Limiter =
  lm_mailbox :: "string \<Rightarrow> nat option"
  lm_heap :: "mailboxLimiter list"
  lm_defaults :: Budget

definition NewLimiter :: "Budget \<Rightarrow> Limiter" where
  "NewLimiter defaults =
    \<lparr> lm_mailbox = (\<lambda>_. None), lm_heap = [], lm_defaults = clamp defaults \<rparr>"

definition effective :: "Limiter \<Rightarrow> Budget \<Rightarrow> Budget" where
  "effective l budget =
    (let b1 = (if bg_PerMinute budget \<le> 0
               then budget\<lparr> bg_PerMinute := bg_PerMinute (lm_defaults l) \<rparr> else budget);
         b2 = (if bg_MaxConcurrent b1 \<le> 0
               then b1\<lparr> bg_MaxConcurrent := bg_MaxConcurrent (lm_defaults l) \<rparr> else b1)
     in clamp b2)"

definition forMailbox :: "instant \<Rightarrow> string \<Rightarrow> Budget \<Rightarrow> Limiter \<Rightarrow> nat \<times> Limiter" where
  "forMailbox now i budget l =
    (let eff = effective l budget;
         rebuild = (length (lm_heap l),
           l\<lparr> lm_mailbox := (lm_mailbox l)(i := Some (length (lm_heap l))),
              lm_heap := lm_heap l @ [\<lparr> ml_bucket = newTokenBucket (bg_PerMinute eff) now,
                                        ml_cap = bg_MaxConcurrent eff, ml_used = 0 \<rparr>] \<rparr>)
     in case lm_mailbox l i of
          None \<Rightarrow> rebuild
        | Some r \<Rightarrow>
            if tb_perMinute (ml_bucket (lm_heap l ! r)) = bg_PerMinute eff \<and>
               ml_cap (lm_heap l ! r) = bg_MaxConcurrent eff
            then (r, l) else rebuild)"

definition Limiter_Forget :: "string \<Rightarrow> Limiter \<Rightarrow> Limiter" where
  "Limiter_Forget i l = l\<lparr> lm_mailbox := (lm_mailbox l)(i := None) \<rparr>"

text \<open>Sending on the semaphore channel; \<^const>\<open>None\<close> means the sender blocks.\<close>

definition acquireSlot :: "nat \<Rightarrow> Limiter \<Rightarrow> Limiter option" where
  "acquireSlot r l =
    (let ml = lm_heap l ! r in
     if ml_used ml < ml_cap ml
     then Some (l\<lparr> lm_heap := (lm_heap l)[r := ml\<lparr> ml_used := ml_used ml + 1 \<rparr>] \<rparr>) else None)"

definition releaseSlot :: "nat \<Rightarrow> Limiter \<Rightarrow> Limiter" where
  "releaseSlot r l =
    (let ml = lm_heap l ! r in
     l\<lparr> lm_heap := (lm_heap l)[r := ml\<lparr> ml_used := ml_used ml - 1 \<rparr>] \<rparr>)"

definition waitOnce :: "nat \<Rightarrow> instant \<Rightarrow> Limiter \<Rightarrow> (duration \<times> bool) \<times> Limiter" where
  "waitOnce r now l =
    (let ml = lm_heap l ! r;
         res = take_token now (ml_bucket ml)
     in (fst res, l\<lparr> lm_heap := (lm_heap l)[r := ml\<lparr> ml_bucket := snd res \<rparr>] \<rparr>))"

text \<open>What one pass through \<^verbatim>\<open>Acquire\<close> leads to: blocked on the semaphore (no slot held),
  holding a slot and told to wait for a token, or granted.  A granted or cancelled caller gives
  the slot back with \<^const>\<open>releaseSlot\<close> on the reference it was handed.\<close>

datatype acquire_state = ABlocked nat | AWaiting nat duration | AGranted nat

definition Acquire :: "instant \<Rightarrow> string \<Rightarrow> Budget \<Rightarrow> Limiter \<Rightarrow> acquire_state \<times> Limiter" where
  "Acquire now i budget l =
    (case forMailbox now i budget l of
       (r, l1) \<Rightarrow>
         (case acquireSlot r l1 of
            None \<Rightarrow> (ABlocked r, l1)
          | Some l2 \<Rightarrow>
              (case waitOnce r now l2 of
                 ((delay, ok), l3) \<Rightarrow> (if ok then AGranted r else AWaiting r delay, l3))))"

section \<open>Pacing, abstractly\<close>

text \<open>A source of grants that pays for each grant from a credit which grows at a bounded rate.\<close>

locale paced =
  fixes attempt :: "'s \<Rightarrow> instant \<Rightarrow> bool \<times> 's"
    and credit :: "'s \<Rightarrow> rat"
    and clock :: "'s \<Rightarrow> instant"
    and rate :: "'s \<Rightarrow> rat"
    and wf :: "'s \<Rightarrow> bool"
  assumes wf_attempt: "wf s \<Longrightarrow> wf (snd (attempt s t))"
    and rate_attempt: "rate (snd (attempt s t)) = rate s"
    and credit_nonneg: "wf s \<Longrightarrow> 0 \<le> credit s"
    and clock_attempt: "clock (snd (attempt s t)) = max (clock s) t"
    and pay: "wf s \<Longrightarrow> credit (snd (attempt s t)) + (if fst (attempt s t) then 1 else 0)
        \<le> credit s + rate s * of_int (max (clock s) t - clock s)"
begin

fun grants :: "'s \<Rightarrow> instant list \<Rightarrow> nat" where
  "grants s [] = 0"
| "grants s (t # ts) = (if fst (attempt s t) then 1 else 0) + grants (snd (attempt s t)) ts"

fun final_clock :: "'s \<Rightarrow> instant list \<Rightarrow> instant" where
  "final_clock s [] = clock s"
| "final_clock s (t # ts) = final_clock (snd (attempt s t)) ts"

lemma grants_bound:
  "wf s \<Longrightarrow> of_nat (grants s ts) \<le> credit s + rate s * of_int (final_clock s ts - clock s)"
proof (induction ts arbitrary: s)
  case Nil
  then show ?case using credit_nonneg by simp
next
  case (Cons t ts)
  let ?s = "snd (attempt s t)"
  have "of_nat (grants ?s ts) \<le> credit ?s + rate s * of_int (final_clock ?s ts - clock ?s)"
    using Cons.IH[OF wf_attempt[OF Cons.prems]] by (simp add: rate_attempt)
  then show ?case using pay[OF Cons.prems, of t]
    by (cases "fst (attempt s t)") (simp_all add: clock_attempt algebra_simps)
qed

end

section \<open>The bucket is a paced source\<close>

definition bucket_ok :: "tokenBucket \<Rightarrow> bool" where
  "bucket_ok b = (0 \<le> tb_tokens b \<and> tb_tokens b \<le> tb_capacity b \<and>
     tb_capacity b = of_int (tb_perMinute b) \<and> 1 \<le> tb_perMinute b)"

definition bucket_rate :: "tokenBucket \<Rightarrow> rat" where
  "bucket_rate b = of_int (tb_perMinute b) / of_int minute"

definition bucket_attempt :: "tokenBucket \<Rightarrow> instant \<Rightarrow> bool \<times> tokenBucket" where
  "bucket_attempt b t = (snd (fst (take_token t b)), snd (take_token t b))"

text \<open>How many of a sequence of calls to \<^const>\<open>take_token\<close>, made at the given clock readings,
  are granted.\<close>

fun bucket_grants :: "tokenBucket \<Rightarrow> instant list \<Rightarrow> nat" where
  "bucket_grants b [] = 0"
| "bucket_grants b (t # ts) =
    (case take_token t b of ((_, ok), b') \<Rightarrow> (if ok then 1 else 0) + bucket_grants b' ts)"

lemma minute_pos: "0 < minute"
  by (simp add: time_units)

lemma bucket_ok_new [simp]: "1 \<le> n \<Longrightarrow> bucket_ok (newTokenBucket n now)"
  by (simp add: bucket_ok_def newTokenBucket_def)

lemma refill_simps [simp]:
  "tb_perMinute (refill t b) = tb_perMinute b" "tb_capacity (refill t b) = tb_capacity b"
  "tb_last (refill t b) = max (tb_last b) t"
  by (auto simp: refill_def Let_def)

lemma refill_ok [simp]: "bucket_ok b \<Longrightarrow> bucket_ok (refill t b)"
  using minute_pos
  by (auto simp: bucket_ok_def refill_def Let_def intro!: add_nonneg_nonneg mult_nonneg_nonneg)

lemma refill_tokens:
  assumes "bucket_ok b"
  shows "tb_tokens (refill t b) =
    min (tb_capacity b) (tb_tokens b + bucket_rate b * of_int (max (tb_last b) t - tb_last b))"
  using assms
  by (auto simp: refill_def Let_def bucket_rate_def bucket_ok_def min_def max_def mult.commute)

lemma take_ok: "bucket_ok b \<Longrightarrow> bucket_ok (snd (take_token t b))"
  using refill_ok[of b t] by (auto simp: take_token_def Let_def bucket_ok_def)

interpretation tb: paced bucket_attempt tb_tokens tb_last bucket_rate bucket_ok
proof
  fix s t
  show "bucket_ok s \<Longrightarrow> bucket_ok (snd (bucket_attempt s t))"
    by (simp add: bucket_attempt_def take_ok)
  show "bucket_rate (snd (bucket_attempt s t)) = bucket_rate s"
    by (simp add: bucket_attempt_def bucket_rate_def take_token_def Let_def)
  show "bucket_ok s \<Longrightarrow> 0 \<le> tb_tokens s"
    by (simp add: bucket_ok_def)
  show "tb_last (snd (bucket_attempt s t)) = max (tb_last s) t"
    by (simp add: bucket_attempt_def take_token_def Let_def)
  show "bucket_ok s \<Longrightarrow> tb_tokens (snd (bucket_attempt s t)) + (if fst (bucket_attempt s t) then 1 else 0)
      \<le> tb_tokens s + bucket_rate s * of_int (max (tb_last s) t - tb_last s)"
    by (simp add: bucket_attempt_def take_token_def Let_def refill_tokens)
qed

lemma bucket_grants_eq: "bucket_grants b ts = tb.grants b ts"
  by (induction ts arbitrary: b) (auto simp: bucket_attempt_def split: prod.splits)

lemma bucket_final_clock: "tb.final_clock b ts = fold max ts (tb_last b)"
  by (induction ts arbitrary: b) (simp_all add: bucket_attempt_def take_token_def Let_def max.commute)

section \<open>Lemmas on budgets and limiters\<close>

lemma clamp_range:
  "1 \<le> bg_PerMinute (clamp b) \<and> bg_PerMinute (clamp b) \<le> ExchangeMessagesPerMinute \<and>
   1 \<le> bg_MaxConcurrent (clamp b) \<and> bg_MaxConcurrent (clamp b) \<le> ExchangeConcurrentConnections"
  by (auto simp: clamp_def Let_def ExchangeMessagesPerMinute_def ExchangeConcurrentConnections_def)

lemma effective_range:
  "1 \<le> bg_PerMinute (effective l b) \<and> bg_PerMinute (effective l b) \<le> ExchangeMessagesPerMinute \<and>
   1 \<le> bg_MaxConcurrent (effective l b) \<and>
   bg_MaxConcurrent (effective l b) \<le> ExchangeConcurrentConnections"
  unfolding effective_def Let_def by (rule clamp_range)

definition mailbox_limiter_ok :: "mailboxLimiter \<Rightarrow> bool" where
  "mailbox_limiter_ok ml =
    (bucket_ok (ml_bucket ml) \<and> tb_perMinute (ml_bucket ml) \<le> ExchangeMessagesPerMinute \<and>
     0 \<le> ml_used ml \<and> ml_used ml \<le> ml_cap ml \<and> ml_cap ml \<le> ExchangeConcurrentConnections)"

definition limiter_ok :: "Limiter \<Rightarrow> bool" where
  "limiter_ok l =
    (list_all mailbox_limiter_ok (lm_heap l) \<and>
     (\<forall>i r. lm_mailbox l i = Some r \<longrightarrow> r < length (lm_heap l)))"

lemma limiter_ok_New: "limiter_ok (NewLimiter b)"
  by (simp add: limiter_ok_def NewLimiter_def)

lemma limiter_ok_update:
  assumes "limiter_ok l" "r < length (lm_heap l)" "mailbox_limiter_ok ml"
  shows "limiter_ok (l\<lparr> lm_heap := (lm_heap l)[r := ml] \<rparr>)"
  using assms by (auto simp: limiter_ok_def list_all_iff dest!: set_update_subset_insert[THEN subsetD])

lemma limiter_ok_nth: "limiter_ok l \<Longrightarrow> r < length (lm_heap l) \<Longrightarrow> mailbox_limiter_ok (lm_heap l ! r)"
  by (simp add: limiter_ok_def list_all_length)

lemma forMailbox_ok:
  assumes "limiter_ok l" "forMailbox now i budget l = (r, l')"
  shows "limiter_ok l' \<and> r < length (lm_heap l') \<and> lm_mailbox l' i = Some r \<and>
    ml_cap (lm_heap l' ! r) = bg_MaxConcurrent (effective l budget) \<and>
    tb_perMinute (ml_bucket (lm_heap l' ! r)) = bg_PerMinute (effective l budget)"
proof -
  have new: "mailbox_limiter_ok \<lparr> ml_bucket = newTokenBucket (bg_PerMinute (effective l budget)) now,
      ml_cap = bg_MaxConcurrent (effective l budget), ml_used = 0 \<rparr>"
    using effective_range[of l budget] by (simp add: mailbox_limiter_ok_def newTokenBucket_def bucket_ok_def)
  show ?thesis
    using assms new
    by (fastforce simp: forMailbox_def Let_def limiter_ok_def newTokenBucket_def less_SucI
        split: option.splits if_splits)
qed

lemma acquireSlot_ok:
  assumes "limiter_ok l" "r < length (lm_heap l)" "acquireSlot r l = Some l'"
  shows "limiter_ok l' \<and> length (lm_heap l') = length (lm_heap l) \<and>
    ml_used (lm_heap l' ! r) = ml_used (lm_heap l ! r) + 1"
  using assms limiter_ok_nth[OF assms(1,2)]
  by (auto simp: acquireSlot_def Let_def mailbox_limiter_ok_def intro!: limiter_ok_update
      split: if_splits)

lemma waitOnce_ok:
  assumes "limiter_ok l" "r < length (lm_heap l)"
  shows "limiter_ok (snd (waitOnce r now l))"
proof -
  have "mailbox_limiter_ok (lm_heap l ! r)" by (rule limiter_ok_nth[OF assms])
  then have "mailbox_limiter_ok ((lm_heap l ! r)\<lparr> ml_bucket := snd (take_token now (ml_bucket (lm_heap l ! r))) \<rparr>)"
    using take_ok by (auto simp: mailbox_limiter_ok_def take_token_def Let_def)
  then show ?thesis using assms by (simp add: waitOnce_def Let_def limiter_ok_update)
qed

lemma releaseSlot_ok:
  assumes "limiter_ok l" "r < length (lm_heap l)" "0 < ml_used (lm_heap l ! r)"
  shows "limiter_ok (releaseSlot r l)"
  using assms limiter_ok_nth[OF assms(1,2)]
  by (auto simp: releaseSlot_def Let_def mailbox_limiter_ok_def intro!: limiter_ok_update)

lemma fold_max_le: "(\<And>t. t \<in> set ts \<Longrightarrow> t \<le> c) \<Longrightarrow> a \<le> c \<Longrightarrow> fold max ts (a::int) \<le> c"
  by (induction ts arbitrary: a) auto

section \<open>Properties\<close>

text \<open>C37: Over any window of length \<open>w\<close> that starts at the bucket's last refill, whatever the
  sequence of clock readings, a mailbox is granted at most its capacity plus its rate times the
  window: at most \<open>n (1 + w / minute)\<close> messages for a budget of \<open>n\<close> per minute.\<close>

theorem bucket_rate_bound:
  assumes "bucket_ok b" "0 \<le> w" "\<forall>t\<in>set ts. t \<le> tb_last b + w"
  shows "of_nat (bucket_grants b ts) \<le>
    of_int (tb_perMinute b) * (1 + of_int w / (of_int minute :: rat))"
proof -
  have "fold max ts (tb_last b) - tb_last b \<le> w"
    using fold_max_le[of ts "tb_last b + w" "tb_last b"] assms(2,3) by simp
  then have "bucket_rate b * of_int (fold max ts (tb_last b) - tb_last b) \<le> bucket_rate b * of_int w"
    using assms(1) minute_pos by (intro mult_left_mono) (auto simp: bucket_rate_def bucket_ok_def)
  moreover have "of_nat (bucket_grants b ts) \<le>
      tb_tokens b + bucket_rate b * of_int (fold max ts (tb_last b) - tb_last b)"
    using tb.grants_bound[OF assms(1), of ts] by (simp add: bucket_grants_eq bucket_final_clock)
  moreover have "tb_tokens b \<le> of_int (tb_perMinute b)" using assms(1) by (simp add: bucket_ok_def)
  ultimately show ?thesis by (simp add: bucket_rate_def algebra_simps)
qed

text \<open>A bucket never starves its mailbox: once a token interval (a minute divided by the
  budget) has passed since the last refill, a token is granted.\<close>

theorem token_available:
  assumes "bucket_ok b" "minute \<le> tb_perMinute b * (t - tb_last b)"
  shows "fst (take_token t b) = (0, True)"
proof -
  have "0 < minute" by (rule minute_pos)
  with assms(2) have pos: "0 < tb_perMinute b * (t - tb_last b)" by linarith
  then have later: "tb_last b < t" using assms(1) by (auto simp: bucket_ok_def zero_less_mult_iff)
  have "(of_int minute :: rat) \<le> of_int (tb_perMinute b * (t - tb_last b))"
    using assms(2) by (simp only: of_int_le_iff)
  then have "1 \<le> bucket_rate b * of_int (t - tb_last b)"
    using minute_pos by (simp add: bucket_rate_def pos_le_divide_eq)
  moreover have "0 \<le> tb_tokens b" "1 \<le> tb_capacity b" using assms(1) by (auto simp: bucket_ok_def)
  ultimately have "1 \<le> tb_tokens (refill t b)"
    using later by (simp add: refill_tokens[OF assms(1)])
  then show ?thesis by (simp add: take_token_def Let_def)
qed

text \<open>C38: Acquiring keeps every limiter within the limits of Exchange Online: at most 30 messages
  a minute, between 1 and 3 slots and never more slots in use than there are.  A caller that is
  granted or told to wait holds one more slot of the limiter that now serves the mailbox; a
  caller that is blocked holds none, and all slots of that limiter are in use.\<close>

theorem Acquire_within_limits:
  assumes "limiter_ok l" "Acquire now i budget l = (st, l')"
  shows "limiter_ok l' \<and>
    (case st of
       ABlocked r \<Rightarrow> lm_mailbox l' i = Some r \<and> ml_used (lm_heap l' ! r) = ml_cap (lm_heap l' ! r)
     | AWaiting r d \<Rightarrow> lm_mailbox l' i = Some r \<and> 0 < ml_used (lm_heap l' ! r)
     | AGranted r \<Rightarrow> lm_mailbox l' i = Some r \<and> 0 < ml_used (lm_heap l' ! r))"
proof -
  obtain r l1 where f: "forMailbox now i budget l = (r, l1)" by fastforce
  note f_ok = forMailbox_ok[OF assms(1) f]
  then have r: "limiter_ok l1" "r < length (lm_heap l1)" "lm_mailbox l1 i = Some r" by auto
  note nth = limiter_ok_nth[OF r(1,2)]
  show ?thesis
  proof (cases "acquireSlot r l1")
    case None
    with f assms(2) r nth show ?thesis
      by (auto simp: Acquire_def acquireSlot_def Let_def mailbox_limiter_ok_def split: if_splits)
  next
    case (Some l2)
    note a_ok = acquireSlot_ok[OF r(1,2) Some]
    then have l2: "limiter_ok l2" "r < length (lm_heap l2)" using r(2) by auto
    have "lm_mailbox l2 = lm_mailbox l1"
      using Some by (auto simp: acquireSlot_def Let_def split: if_splits)
    moreover have "l' = snd (waitOnce r now l2)"
      "st = (if snd (fst (waitOnce r now l2)) then AGranted r else AWaiting r (fst (fst (waitOnce r now l2))))"
      using f Some assms(2) by (auto simp: Acquire_def split: prod.splits)
    moreover have "ml_used (lm_heap (snd (waitOnce r now l2)) ! r) = ml_used (lm_heap l2 ! r)"
      "lm_mailbox (snd (waitOnce r now l2)) = lm_mailbox l2"
      using l2(2) by (auto simp: waitOnce_def Let_def)
    moreover have "0 < ml_used (lm_heap l2 ! r)" using a_ok nth by (simp add: mailbox_limiter_ok_def)
    ultimately show ?thesis using waitOnce_ok[OF l2] r(3) by auto
  qed
qed

text \<open>Every budget that reaches a limiter, whatever a mailbox or the configuration asks for, is
  between 1 and 30 messages a minute and between 1 and 3 connections, and a request within these
  bounds is honoured as it stands.\<close>

theorem effective_budget:
  "(1 \<le> bg_PerMinute (effective (NewLimiter d) b) \<and> bg_PerMinute (effective (NewLimiter d) b) \<le> 30 \<and>
    1 \<le> bg_MaxConcurrent (effective (NewLimiter d) b) \<and>
    bg_MaxConcurrent (effective (NewLimiter d) b) \<le> 3) \<and>
   (if 1 \<le> bg_PerMinute b \<and> bg_PerMinute b \<le> 30 \<and> 1 \<le> bg_MaxConcurrent b \<and> bg_MaxConcurrent b \<le> 3
    then effective (NewLimiter d) b = b
    else if bg_PerMinute b \<le> 0 \<and> bg_MaxConcurrent b \<le> 0
    then effective (NewLimiter d) b =
      b\<lparr> bg_PerMinute := bg_PerMinute (clamp d), bg_MaxConcurrent := bg_MaxConcurrent (clamp d) \<rparr>
    else True)"
  using effective_range[of "NewLimiter d" b] clamp_range[of d]
  by (auto simp: effective_def clamp_def NewLimiter_def Let_def ExchangeMessagesPerMinute_def
      ExchangeConcurrentConnections_def)

definition burst_times :: "instant list" where
  "burst_times = replicate 30 0 @ map (\<lambda>k. int k * 2 * second) [1..<30]"

text \<open>The bound over a window is nearly reached: a mailbox with the full budget of 30 messages a
  minute that was idle is granted 59 messages within 58 seconds, more than Exchange Online's 30
  in one minute.\<close>

theorem burst_exceeds_minute_limit:
  "bucket_grants (newTokenBucket ExchangeMessagesPerMinute 0) burst_times = 59 \<and>
   list_all (\<lambda>t. 0 \<le> t \<and> t \<le> 58 * second) burst_times"
  by (intro conjI; code_simp)

definition acquire_all :: "(Budget list) \<Rightarrow> Limiter \<Rightarrow> acquire_state list \<times> Limiter" where
  "acquire_all bs l = fold (\<lambda>b (sts, l). case Acquire 0 ''m1'' b l of (st, l') \<Rightarrow> (sts @ [st], l')) bs ([], l)"

text \<open>A changed budget hands out a fresh semaphore while the slots of the old one are still in
  use: three deliveries granted under one budget and two more after the budget changed give five
  concurrent deliveries for one mailbox, more than Exchange Online's three.\<close>

theorem budget_change_exceeds_concurrency:
  "fst (acquire_all
     [\<lparr> bg_PerMinute = 30, bg_MaxConcurrent = 3 \<rparr>, \<lparr> bg_PerMinute = 30, bg_MaxConcurrent = 3 \<rparr>,
      \<lparr> bg_PerMinute = 30, bg_MaxConcurrent = 3 \<rparr>, \<lparr> bg_PerMinute = 30, bg_MaxConcurrent = 2 \<rparr>,
      \<lparr> bg_PerMinute = 30, bg_MaxConcurrent = 2 \<rparr>]
     (NewLimiter \<lparr> bg_PerMinute = 0, bg_MaxConcurrent = 0 \<rparr>)) =
   [AGranted 0, AGranted 0, AGranted 0, AGranted 1, AGranted 1]"
  by code_simp

section \<open>Witnesses\<close>

theorem bucket_rate_bound_witness:
  "of_nat (bucket_grants (newTokenBucket 30 0) [0, 1, 2]) \<le> (30 * (1 + 2 / of_int minute) :: rat)"
proof -
  have "bucket_ok (newTokenBucket 30 0)" by code_simp
  moreover have "\<forall>t\<in>set [0, 1, 2]. t \<le> tb_last (newTokenBucket 30 0) + 2" by code_simp
  moreover have "tb_perMinute (newTokenBucket 30 0) = 30" by code_simp
  ultimately show ?thesis
    using bucket_rate_bound[of "newTokenBucket 30 0" 2 "[0, 1, 2]"] by simp
qed

theorem token_available_witness:
  "fst (take_token (2 * second) \<lparr> tb_perMinute = 30, tb_tokens = 0, tb_capacity = 30, tb_last = 0 \<rparr>) = (0, True)"
  using token_available[of "\<lparr> tb_perMinute = 30, tb_tokens = 0, tb_capacity = 30, tb_last = 0 \<rparr>" "2 * second"]
  by (simp add: bucket_ok_def time_units)

theorem Acquire_within_limits_witness:
  "limiter_ok (snd (Acquire 0 ''m1'' \<lparr> bg_PerMinute = 500, bg_MaxConcurrent = 9 \<rparr>
     (NewLimiter \<lparr> bg_PerMinute = 0, bg_MaxConcurrent = 0 \<rparr>)))"
  using Acquire_within_limits[OF limiter_ok_New, of 0 "''m1''" "\<lparr> bg_PerMinute = 500, bg_MaxConcurrent = 9 \<rparr>"
      "\<lparr> bg_PerMinute = 0, bg_MaxConcurrent = 0 \<rparr>"]
  by (metis prod.collapse)

end
