(* ===== verification/Transport.thy ===== *)
theory Transport
  imports Messages
begin

text \<open>
  Delivery to Microsoft 365: the error classification of
  \<^verbatim>\<open>src/internal/transport/transport.go\<close>, the XOAUTH2 initial response of
  \<^verbatim>\<open>src/internal/oauth/xoauth2.go\<close>, the SMTP relay
  (\<^verbatim>\<open>transport/smtprelay/smtprelay.go\<close>) and the Graph backend
  (\<^verbatim>\<open>transport/graph/graph.go\<close>).

  The token provider, the SMTP client library together with the server behind it, and the HTTP
  client together with Graph behind it are parameters: the relay's steps read their answers from
  a record of responses and write the commands they send to a trace.
\<close>

section \<open>Delivery errors\<close>

record Error =
  te_Code :: string
  te_Message :: string
  te_Permanent :: bool
  te_RetryAfter :: duration
  te_Auth :: bool

text \<open>A Go \<^verbatim>\<open>error\<close> as the queue sees it: a \<^verbatim>\<open>*transport.Error\<close>, or anything else.\<close>

datatype send_error = TransportError Error | OtherError string

record TransportMessage =
  tm_ID :: string
  tm_Mailbox :: Mailbox
  tm_Credential :: OAuthCredential
  tm_Recipients :: "string list"
  tm_Raw :: string

definition EnvelopeFrom :: "TransportMessage \<Rightarrow> string" where
  "EnvelopeFrom m = mb_Address (tm_Mailbox m)"

definition Error_string :: "Error \<Rightarrow> string" where
  "Error_string e = (if te_Code e \<noteq> '''' then te_Code e @ '': '' @ te_Message e else te_Message e)"

definition IsPermanent :: "send_error \<Rightarrow> bool" where
  "IsPermanent err = (case err of TransportError e \<Rightarrow> te_Permanent e | OtherError _ \<Rightarrow> False)"

definition RetryAfter :: "send_error \<Rightarrow> duration" where
  "RetryAfter err = (case err of TransportError e \<Rightarrow> te_RetryAfter e | OtherError _ \<Rightarrow> 0)"

definition AsFailure :: "send_error \<Rightarrow> Failure" where
  "AsFailure err = (case err of
      TransportError e \<Rightarrow> \<lparr> fl_Code = te_Code e, fl_Message = te_Message e, fl_Permanent = te_Permanent e \<rparr>
    | OtherError s \<Rightarrow> \<lparr> fl_Code = '''', fl_Message = s, fl_Permanent = False \<rparr>)"

definition NewPermanent :: "string \<Rightarrow> string \<Rightarrow> Error" where
  "NewPermanent code message = \<lparr> te_Code = code, te_Message = message, te_Permanent = True,
     te_RetryAfter = 0, te_Auth = False \<rparr>"

definition NewTransient :: "string \<Rightarrow> string \<Rightarrow> Error" where
  "NewTransient code message = \<lparr> te_Code = code, te_Message = message, te_Permanent = False,
     te_RetryAfter = 0, te_Auth = False \<rparr>"

definition NewThrottled :: "string \<Rightarrow> string \<Rightarrow> duration \<Rightarrow> Error" where
  "NewThrottled code message retryAfter = \<lparr> te_Code = code, te_Message = message,
     te_Permanent = False, te_RetryAfter = retryAfter, te_Auth = False \<rparr>"

definition authFailureHint :: string where
  "authFailureHint = '' '' @ [CHR 0xE2, CHR 0x80, CHR 0x94] @
     '' check that admin consent was granted for SMTP.SendAsApp, '' @
     ''that New-ServicePrincipal used the Object ID from Enterprise applications, '' @
     ''and that Add-MailboxPermission was run for this mailbox''"

definition NewAuthFailure :: "string \<Rightarrow> string \<Rightarrow> Error" where
  "NewAuthFailure code message = \<lparr> te_Code = code, te_Message = TrimSpace message @ authFailureHint,
     te_Permanent = False, te_RetryAfter = 0, te_Auth = True \<rparr>"

definition IsAuthFailure :: "send_error \<Rightarrow> bool" where
  "IsAuthFailure err = (case err of TransportError e \<Rightarrow> te_Auth e | OtherError _ \<Rightarrow> False)"

section \<open>XOAUTH2\<close>

definition XOAuth2 :: string where "XOAuth2 = ''XOAUTH2''"

definition separator :: char where "separator = CHR 0x01"

datatype xoauth2_error = NoMailbox | NoToken | MailboxControlChar | TokenControlChar

definition BuildXOAuth2 :: "string \<Rightarrow> string \<Rightarrow> (xoauth2_error, string) result" where
  "BuildXOAuth2 mailbox accessToken =
    (if mailbox = '''' then Inl NoMailbox
     else if accessToken = '''' then Inl NoToken
     else if ContainsAny mailbox [separator, CR, LF] then Inl MailboxControlChar
     else if ContainsAny accessToken [separator, CR, LF] then Inl TokenControlChar
     else Inr (''user='' @ mailbox @ [separator] @ ''auth=Bearer '' @ accessToken @ [separator, separator]))"

section \<open>The SMTP relay\<close>

text \<open>An error of the SMTP client: a server reply, or anything else (\<^verbatim>\<open>errors.As\<close> fails).\<close>

datatype smtp_client_error =
    SMTPError int "(int \<times> int \<times> int) option" string
  | NetError string

text \<open>What the peer answers at each stage; \<^const>\<open>None\<close> is success.\<close>

record smtp_upstream =
  up_Token :: "(string, string) result"
  up_Dial :: "string option"
  up_StartTLS :: "smtp_client_error option"
  up_Hello :: "smtp_client_error option"
  up_SupportsXOAuth2 :: bool
  up_Auth :: "smtp_client_error option"
  up_Mail :: "smtp_client_error option"
  up_Rcpt :: "string \<Rightarrow> smtp_client_error option"
  up_Data :: "smtp_client_error option"
  up_Write :: "string option"
  up_Close :: "smtp_client_error option"
  up_Quit :: "smtp_client_error option"

datatype smtp_command =
    CDial string
  | CStartTLS
  | CHello string
  | CAuth string string
  | CMail string
  | CRcpt string
  | CData
  | CBody string
  | CEndOfData
  | CQuit

definition signed_itoa :: "int \<Rightarrow> string" where
  "signed_itoa n = (if n < 0 then ''-'' @ Itoa (nat (- n)) else Itoa (nat n))"

definition enhancedOrNumeric :: "int \<Rightarrow> (int \<times> int \<times> int) option \<Rightarrow> string" where
  "enhancedOrNumeric code enhanced =
    (case enhanced of
       Some (a, b, c) \<Rightarrow> signed_itoa a @ ''.'' @ signed_itoa b @ ''.'' @ signed_itoa c
     | None \<Rightarrow> signed_itoa code)"

text \<open>The text of a reply: \<^verbatim>\<open>SMTPError.Error\<close> of the client library is its message.\<close>

definition smtprelay_classify :: "smtp_client_error \<Rightarrow> string \<Rightarrow> Error" where
  "smtprelay_classify err what =
    (case err of
       NetError s \<Rightarrow> NewTransient ''net'' (what @ '': '' @ s)
     | SMTPError code enhanced message \<Rightarrow>
         (if code \<ge> 500
          then NewPermanent (enhancedOrNumeric code enhanced) (what @ '': '' @ TrimSpace message)
          else NewTransient (enhancedOrNumeric code enhanced) (what @ '': '' @ TrimSpace message)))"

definition classifyAuth :: "smtp_client_error \<Rightarrow> string \<Rightarrow> Error" where
  "classifyAuth err mailbox =
    (case err of
       NetError s \<Rightarrow> NewAuthFailure ''535'' (''authenticating as '' @ mailbox @ '' failed: '' @ s)
     | SMTPError code enhanced message \<Rightarrow>
         NewAuthFailure (enhancedOrNumeric code enhanced)
           (''authenticating as '' @ mailbox @ '' failed: '' @ TrimSpace message))"

type_synonym relay_result = "smtp_command list \<times> Error option"

definition connect :: "string \<Rightarrow> string \<Rightarrow> smtp_upstream \<Rightarrow> relay_result" where
  "connect address localName up =
    (case up_Dial up of
       Some s \<Rightarrow> ([CDial address], Some (NewTransient ''net'' (''could not connect to '' @ address @ '': '' @ s)))
     | None \<Rightarrow>
         (case up_StartTLS up of
            Some e \<Rightarrow> ([CDial address, CStartTLS], Some (smtprelay_classify e ''STARTTLS failed''))
          | None \<Rightarrow>
              (case up_Hello up of
                 Some e \<Rightarrow> ([CDial address, CStartTLS, CHello localName],
                           Some (smtprelay_classify e ''EHLO failed''))
               | None \<Rightarrow> ([CDial address, CStartTLS, CHello localName], None))))"

definition authenticate :: "string \<Rightarrow> string \<Rightarrow> smtp_upstream \<Rightarrow> relay_result" where
  "authenticate mailbox accessToken up =
    (if \<not> up_SupportsXOAuth2 up
     then ([], Some (NewTransient ''smtp'' ''the server does not offer AUTH XOAUTH2 after STARTTLS''))
     else (case BuildXOAuth2 mailbox accessToken of
             Inl e \<Rightarrow> ([], Some (NewPermanent ''xoauth2'' (case e of
                 NoMailbox \<Rightarrow> ''oauth: XOAUTH2 needs a mailbox address''
               | NoToken \<Rightarrow> ''oauth: XOAUTH2 needs an access token''
               | MailboxControlChar \<Rightarrow> ''oauth: mailbox '' @ Quote mailbox @ '' contains a control character''
               | TokenControlChar \<Rightarrow> ''oauth: the access token contains a control character'')))
           | Inr initial \<Rightarrow> ([CAuth XOAuth2 initial],
               map_option (\<lambda>e. classifyAuth e mailbox) (up_Auth up))))"

fun sendRecipients :: "smtp_upstream \<Rightarrow> string list \<Rightarrow> relay_result" where
  "sendRecipients up [] = ([], None)"
| "sendRecipients up (rcpt # rest) =
    (case up_Rcpt up rcpt of
       Some e \<Rightarrow> ([CRcpt rcpt], Some (smtprelay_classify e (''RCPT TO '' @ rcpt @ '' was rejected'')))
     | None \<Rightarrow> (case sendRecipients up rest of (cs, r) \<Rightarrow> (CRcpt rcpt # cs, r)))"

definition sendData :: "smtp_upstream \<Rightarrow> string \<Rightarrow> relay_result" where
  "sendData up raw =
    (case up_Data up of
       Some e \<Rightarrow> ([CData], Some (smtprelay_classify e ''DATA was rejected''))
     | None \<Rightarrow>
         (case up_Write up of
            Some s \<Rightarrow> ([CData, CBody raw, CEndOfData],
              Some (NewTransient ''net'' (''the connection failed while sending the message: '' @ s)))
          | None \<Rightarrow>
              (case up_Close up of
                 Some e \<Rightarrow> ([CData, CBody raw, CEndOfData],
                           Some (smtprelay_classify e ''the message was rejected''))
               | None \<Rightarrow> ([CData, CBody raw, CEndOfData, CQuit], None))))"

definition relay_deliver :: "smtp_upstream \<Rightarrow> TransportMessage \<Rightarrow> relay_result" where
  "relay_deliver up m =
    (case up_Mail up of
       Some e \<Rightarrow> ([CMail (EnvelopeFrom m)], Some (smtprelay_classify e ''MAIL FROM was rejected''))
     | None \<Rightarrow>
         (case sendRecipients up (tm_Recipients m) of
            (cs, Some e) \<Rightarrow> (CMail (EnvelopeFrom m) # cs, Some e)
          | (cs, None) \<Rightarrow>
              (case sendData up (tm_Raw m) of
                 (ds, r) \<Rightarrow> (CMail (EnvelopeFrom m) # cs @ ds, r))))"

definition smtprelay_Send ::
  "string \<Rightarrow> string \<Rightarrow> smtp_upstream \<Rightarrow> TransportMessage \<Rightarrow> relay_result" where
  "smtprelay_Send address localName up m =
    (case up_Token up of
       Inl s \<Rightarrow> ([], Some (NewTransient ''oauth'' (''could not obtain an access token: '' @ s)))
     | Inr token \<Rightarrow>
         (case connect address localName up of
            (cs, Some e) \<Rightarrow> (cs, Some e)
          | (cs, None) \<Rightarrow>
              (case authenticate (mb_Address (tm_Mailbox m)) token up of
                 (as, Some e) \<Rightarrow> (cs @ as, Some e)
               | (as, None) \<Rightarrow>
                   (case relay_deliver up m of (ds, r) \<Rightarrow> (cs @ as @ ds, r)))))"

text \<open>The SASL client: one initial response, then one empty answer to a challenge.  The flag is
  the \<^verbatim>\<open>done\<close> field.\<close>

definition xoauth2_Next :: "bool \<Rightarrow> (string, string) result \<times> bool" where
  "xoauth2_Next done0 =
    (if done0 then (Inl ''smtprelay: unexpected additional XOAUTH2 challenge'', True)
     else (Inr '''', True))"

section \<open>The Graph backend\<close>

definition MaxMIMESize :: nat where "MaxMIMESize = 4 * 2 ^ 20"

text \<open>\<^verbatim>\<open>url.PathEscape\<close>: what RFC 3986 leaves to a path segment is kept, everything else is
  percent-encoded.\<close>

definition upper_hex :: "nat \<Rightarrow> char" where
  "upper_hex d = (if d < 10 then char_of (48 + d) else char_of (55 + d))"

definition path_char :: "char \<Rightarrow> bool" where
  "path_char c =
    (is_digit c \<or> is_upper c \<or> (97 \<le> byte c \<and> byte c \<le> 122) \<or> c \<in> set ''-_.~$&+:=@'')"

definition PathEscape :: "string \<Rightarrow> string" where
  "PathEscape s = concat (map (\<lambda>c. if path_char c then [c]
     else [CHR ''%'', upper_hex (byte c div 16), upper_hex (byte c mod 16)]) s)"

text \<open>\<^verbatim>\<open>base64.StdEncoding.EncodeToString\<close>.\<close>

definition b64_char :: "nat \<Rightarrow> char" where
  "b64_char n = (if n < 26 then char_of (65 + n) else if n < 52 then char_of (71 + n)
     else if n < 62 then char_of (n - 4) else if n = 62 then CHR ''+'' else CHR ''/'')"

fun base64 :: "string \<Rightarrow> string" where
  "base64 (a # b # c # rest) =
    (let v = byte a * 65536 + byte b * 256 + byte c in
     [b64_char (v div 262144), b64_char (v div 4096 mod 64), b64_char (v div 64 mod 64),
      b64_char (v mod 64)] @ base64 rest)"
| "base64 [a, b] =
    (let v = byte a * 65536 + byte b * 256 in
     [b64_char (v div 262144), b64_char (v div 4096 mod 64), b64_char (v div 64 mod 64), CHR ''=''])"
| "base64 [a] =
    (let v = byte a * 65536 in
     [b64_char (v div 262144), b64_char (v div 4096 mod 64), CHR ''='', CHR ''=''])"
| "base64 [] = []"

record http_request =
  rq_URL :: string
  rq_Body :: string
  rq_Authorization :: string
  rq_ContentType :: string
  rq_ClientRequestID :: string

record http_response =
  rs_Status :: int
  rs_Body :: "string option"
  rs_RetryAfter :: string

definition TrimRight :: "string \<Rightarrow> char \<Rightarrow> string" where
  "TrimRight s c = rev (dropWhile (\<lambda>x. x = c) (rev s))"

text \<open>\<open>request_ok\<close> is whether \<^verbatim>\<open>http.NewRequestWithContext\<close> accepts the URL.\<close>

definition buildRequest ::
  "(string \<Rightarrow> bool) \<Rightarrow> string \<Rightarrow> TransportMessage \<Rightarrow> string \<Rightarrow> (Error, http_request) result" where
  "buildRequest request_ok endpoint0 m accessToken =
    (let endpoint = TrimRight endpoint0 (CHR ''/'') @ ''/v1.0/users/'' @
           PathEscape (mb_Address (tm_Mailbox m)) @ ''/sendMail''
     in if \<not> request_ok endpoint
        then Inl (NewPermanent ''graph'' ''could not build the Graph request'')
        else Inr \<lparr> rq_URL = endpoint, rq_Body = base64 (tm_Raw m),
                   rq_Authorization = ''Bearer '' @ accessToken, rq_ContentType = ''text/plain'',
                   rq_ClientRequestID = tm_ID m \<rparr>)"

definition truncate :: "string \<Rightarrow> nat \<Rightarrow> string" where
  "truncate s limit = (if length s \<le> limit then s else take limit s @ [CHR 0xE2, CHR 0x80, CHR 0xA6])"

text \<open>\<open>decode\<close> is the JSON decoding of the error envelope: its code and message.\<close>

type_synonym graph_decode = "string \<Rightarrow> (string \<times> string) option"

definition readError :: "graph_decode \<Rightarrow> http_response \<Rightarrow> (string \<times> string) option" where
  "readError decode resp =
    (case rs_Body resp of
       None \<Rightarrow> None
     | Some body0 \<Rightarrow>
         (let body = take (64 * 1024) body0 in
          if body = '''' then None
          else (case decode body of
                  Some (c, msg) \<Rightarrow> if c = '''' then Some ('''', truncate (TrimSpace body) 512) else Some (c, msg)
                | None \<Rightarrow> Some ('''', truncate (TrimSpace body) 512))))"

definition graph_code :: "(string \<times> string) option \<Rightarrow> int \<Rightarrow> string" where
  "graph_code g status =
    (case g of Some (c, _) \<Rightarrow> if c \<noteq> '''' then c else signed_itoa status | None \<Rightarrow> signed_itoa status)"

text \<open>\<open>status_text\<close> is \<^verbatim>\<open>http.StatusText\<close>.\<close>

definition graph_message :: "(int \<Rightarrow> string) \<Rightarrow> (string \<times> string) option \<Rightarrow> int \<Rightarrow> string" where
  "graph_message status_text g status =
    (case g of Some (_, m) \<Rightarrow> if m \<noteq> '''' then m else status_text status | None \<Rightarrow> status_text status)"

text \<open>\<open>parse_time\<close> is \<^verbatim>\<open>http.ParseTime\<close>.  The product of seconds and \<^verbatim>\<open>time.Second\<close> is a
  64-bit multiplication and wraps.\<close>

definition graph_retryAfter :: "(string \<Rightarrow> instant option) \<Rightarrow> instant \<Rightarrow> http_response \<Rightarrow> duration" where
  "graph_retryAfter parse_time now resp =
    (let raw = rs_RetryAfter resp;
         by_date = (case parse_time raw of
             Some at \<Rightarrow> if at - now > 0 then at - now else 0
           | None \<Rightarrow> 0)
     in if raw = '''' then 0
        else (case Atoi (TrimSpace raw) of
                Some seconds \<Rightarrow> if seconds > 0 then wrap64 (seconds * second) else by_date
              | None \<Rightarrow> by_date))"

definition graph_classify ::
  "graph_decode \<Rightarrow> (int \<Rightarrow> string) \<Rightarrow> (string \<Rightarrow> instant option) \<Rightarrow> instant
    \<Rightarrow> http_response \<Rightarrow> TransportMessage \<Rightarrow> Error option" where
  "graph_classify decode status_text parse_time now resp m =
    (if rs_Status resp = 202 then None
     else Some
       (let detail = readError decode resp;
            code = graph_code detail (rs_Status resp);
            message = graph_message status_text detail (rs_Status resp)
        in if rs_Status resp = 429
           then NewThrottled code message (graph_retryAfter parse_time now resp)
           else if rs_Status resp = 401 \<or> rs_Status resp = 403
           then NewAuthFailure code
             (''sending as '' @ mb_Address (tm_Mailbox m) @ '' was refused: '' @ message)
           else if rs_Status resp \<ge> 500 then NewTransient code message
           else if rs_Status resp = 404
           then NewPermanent code
             (''the mailbox '' @ mb_Address (tm_Mailbox m) @ '' was not found: '' @ message)
           else NewPermanent code message))"

text \<open>The HTTP round trip: an error text, or the response.\<close>

type_synonym http_do = "http_request \<Rightarrow> (string, http_response) result"

definition graph_Send ::
  "graph_decode \<Rightarrow> (int \<Rightarrow> string) \<Rightarrow> (string \<Rightarrow> instant option) \<Rightarrow> (string \<Rightarrow> bool) \<Rightarrow> instant
    \<Rightarrow> string \<Rightarrow> (string, string) result \<Rightarrow> http_do \<Rightarrow> TransportMessage \<Rightarrow> Error option" where
  "graph_Send decode status_text parse_time request_ok now endpoint token http m =
    (if length (tm_Raw m) > MaxMIMESize
     then Some (NewPermanent ''graph.size''
       (''the message is '' @ Itoa (length (tm_Raw m)) @ '' bytes, over the '' @ Itoa MaxMIMESize @
        '' byte limit the Graph sendMail API accepts in MIME form; '' @
        ''switch this mailbox to the SMTP transport to send messages this large''))
     else
       (case token of
          Inl s \<Rightarrow> Some (NewTransient ''oauth'' (''could not obtain an access token: '' @ s))
        | Inr t \<Rightarrow>
            (case buildRequest request_ok endpoint m t of
               Inl e \<Rightarrow> Some e
             | Inr req \<Rightarrow>
                 (case http req of
                    Inl s \<Rightarrow> Some (NewTransient ''net'' (''the Graph request failed: '' @ s))
                  | Inr resp \<Rightarrow> graph_classify decode status_text parse_time now resp m))))"

section \<open>Lemmas\<close>

lemma BuildXOAuth2_Inr_iff:
  "BuildXOAuth2 mb t = Inr s \<longleftrightarrow>
    mb \<noteq> '''' \<and> t \<noteq> '''' \<and> set mb \<inter> {separator, CR, LF} = {} \<and> set t \<inter> {separator, CR, LF} = {} \<and>
    s = ''user='' @ mb @ [separator] @ ''auth=Bearer '' @ t @ [separator, separator]"
  by (auto simp: BuildXOAuth2_def ContainsAny_def list_ex_iff)

lemma append_sep_inj:
  assumes "a @ c # b = a' @ c # b'" "c \<notin> set a" "c \<notin> set a'"
  shows "a = a' \<and> b = b'"
  using assms
proof (induction a arbitrary: a')
  case Nil
  then show ?case by (cases a') auto
next
  case (Cons x xs)
  then show ?case by (cases a') auto
qed

lemma sendRecipients_snd:
  "snd (sendRecipients up rs) = None \<longleftrightarrow> list_all (\<lambda>r. up_Rcpt up r = None) rs"
  by (induction rs) (auto simp del: not_None_eq split: option.splits prod.splits)

lemma sendRecipients_fst:
  "list_all (\<lambda>r. up_Rcpt up r = None) rs \<Longrightarrow> fst (sendRecipients up rs) = map CRcpt rs"
  by (induction rs) (auto split: prod.splits)

lemma sendRecipients_None:
  "sendRecipients up rs = (cs, None) \<longleftrightarrow>
    list_all (\<lambda>r. up_Rcpt up r = None) rs \<and> cs = map CRcpt rs"
  using sendRecipients_snd[of up rs] sendRecipients_fst[of up rs] by (metis fst_conv prod.collapse snd_conv)

lemma sendRecipients_cmds: "set (fst (sendRecipients up rs)) \<subseteq> CRcpt ` set rs"
  by (induction rs) (auto split: option.splits prod.splits)

lemma sendData_cmds: "set (fst (sendData up raw)) \<subseteq> {CData, CBody raw, CEndOfData, CQuit}"
  by (auto simp: sendData_def split: option.splits)

lemma connect_cmds: "set (fst (connect a n up)) \<subseteq> {CDial a, CStartTLS, CHello n}"
  by (auto simp: connect_def split: option.splits)

lemma connect_None:
  "connect a n up = (cs, None) \<longleftrightarrow>
    up_Dial up = None \<and> up_StartTLS up = None \<and> up_Hello up = None \<and> cs = [CDial a, CStartTLS, CHello n]"
  by (auto simp: connect_def split: option.splits)

lemma relay_deliver_cmds:
  "set (fst (relay_deliver up m)) \<subseteq>
    {CMail (EnvelopeFrom m), CData, CBody (tm_Raw m), CEndOfData, CQuit} \<union> CRcpt ` set (tm_Recipients m)"
  using sendRecipients_cmds[of up "tm_Recipients m"] sendData_cmds[of up "tm_Raw m"]
  by (auto simp: relay_deliver_def split: option.splits prod.splits)

lemma sendData_None:
  "sendData up raw = (cs, None) \<longleftrightarrow>
    up_Data up = None \<and> up_Write up = None \<and> up_Close up = None \<and>
    cs = [CData, CBody raw, CEndOfData, CQuit]"
  by (auto simp: sendData_def split: option.splits)

lemma relay_deliver_None:
  "relay_deliver up m = (cs, None) \<longleftrightarrow>
    up_Mail up = None \<and> list_all (\<lambda>r. up_Rcpt up r = None) (tm_Recipients m) \<and>
    up_Data up = None \<and> up_Write up = None \<and> up_Close up = None \<and>
    cs = CMail (EnvelopeFrom m) # map CRcpt (tm_Recipients m) @
      [CData, CBody (tm_Raw m), CEndOfData, CQuit]"
proof (cases "snd (sendRecipients up (tm_Recipients m))")
  case None
  then have "sendRecipients up (tm_Recipients m) = (map CRcpt (tm_Recipients m), None)"
    using sendRecipients_snd sendRecipients_fst by (metis prod.collapse)
  moreover have "list_all (\<lambda>r. up_Rcpt up r = None) (tm_Recipients m)"
    using None by (simp only: sendRecipients_snd)
  ultimately show ?thesis
    by (cases "up_Mail up") (auto simp: relay_deliver_def sendData_def split: option.splits)
next
  case (Some e)
  then have "\<not> list_all (\<lambda>r. up_Rcpt up r = None) (tm_Recipients m)"
    using sendRecipients_snd by (metis option.distinct(1))
  moreover obtain xs where "sendRecipients up (tm_Recipients m) = (xs, Some e)"
    using Some by (metis prod.collapse)
  ultimately show ?thesis by (cases "up_Mail up") (simp_all add: relay_deliver_def)
qed

lemma authenticate_None:
  "authenticate mb t up = (cs, None) \<longleftrightarrow>
    up_SupportsXOAuth2 up \<and> up_Auth up = None \<and>
    (\<exists>s. BuildXOAuth2 mb t = Inr s \<and> cs = [CAuth XOAuth2 s])"
  by (auto simp: authenticate_def split: sum.splits)

lemma new_error_simps [simp]:
  "te_Permanent (NewPermanent c s)" "\<not> te_Permanent (NewTransient c s)"
  "\<not> te_Permanent (NewThrottled c s d)" "\<not> te_Permanent (NewAuthFailure c s)"
  "\<not> te_Auth (NewPermanent c s)" "\<not> te_Auth (NewTransient c s)"
  "\<not> te_Auth (NewThrottled c s d)" "te_Auth (NewAuthFailure c s)"
  "te_RetryAfter (NewThrottled c s d) = d"
  by (simp_all add: NewPermanent_def NewTransient_def NewThrottled_def NewAuthFailure_def)

definition is_5xx :: "smtp_client_error option \<Rightarrow> bool" where
  "is_5xx e = (case e of Some (SMTPError c _ _) \<Rightarrow> c \<ge> 500 | _ \<Rightarrow> False)"

lemma smtprelay_classify_permanent: "te_Permanent (smtprelay_classify e what) \<longleftrightarrow> is_5xx (Some e)"
  by (auto simp: smtprelay_classify_def is_5xx_def split: smtp_client_error.splits)

lemma smtprelay_classify_not_auth: "\<not> te_Auth (smtprelay_classify e what)"
  by (auto simp: smtprelay_classify_def split: smtp_client_error.splits)

lemma classifyAuth_auth: "te_Auth (classifyAuth e mb) \<and> \<not> te_Permanent (classifyAuth e mb)"
  by (auto simp: classifyAuth_def split: smtp_client_error.splits)

lemma sendRecipients_error:
  "sendRecipients up rs = (cs, Some e) \<Longrightarrow>
    \<not> te_Auth e \<and> (te_Permanent e \<longrightarrow> list_ex (\<lambda>r. is_5xx (up_Rcpt up r)) rs)"
  by (induction rs arbitrary: cs)
    (auto simp: smtprelay_classify_permanent smtprelay_classify_not_auth
      split: option.splits prod.splits)

lemma sendData_error:
  "sendData up raw = (cs, Some e) \<Longrightarrow>
    \<not> te_Auth e \<and> (te_Permanent e \<longrightarrow> is_5xx (up_Data up) \<or> is_5xx (up_Close up))"
  by (auto simp: sendData_def smtprelay_classify_permanent smtprelay_classify_not_auth
      split: option.splits)

lemma relay_deliver_error:
  assumes "relay_deliver up m = (cs, Some e)"
  shows "\<not> te_Auth e \<and> (te_Permanent e \<longrightarrow>
    is_5xx (up_Mail up) \<or> list_ex (\<lambda>r. is_5xx (up_Rcpt up r)) (tm_Recipients m) \<or>
    is_5xx (up_Data up) \<or> is_5xx (up_Close up))"
  using assms sendRecipients_error sendData_error
  by (fastforce simp: relay_deliver_def smtprelay_classify_permanent smtprelay_classify_not_auth
      split: option.splits prod.splits)

lemma connect_error:
  assumes "connect a n up = (cs, Some e)"
  shows "\<not> te_Auth e \<and> (te_Permanent e \<longrightarrow> is_5xx (up_StartTLS up) \<or> is_5xx (up_Hello up))"
  using assms
  by (auto simp: connect_def smtprelay_classify_permanent smtprelay_classify_not_auth
      split: option.splits)

lemma authenticate_error:
  assumes "authenticate mb t up = (cs, Some e)"
  shows "te_Permanent e \<longrightarrow> (\<exists>x. BuildXOAuth2 mb t = Inl x) \<and> cs = []"
  using assms classifyAuth_auth by (auto simp: authenticate_def split: if_splits sum.splits)

lemma path_char_hex: "n < 16 \<Longrightarrow> path_char (upper_hex n)"
  by (cases "n < 10") (simp_all add: path_char_def upper_hex_def is_digit_def is_upper_def)

lemma PathEscape_chars:
  assumes "c \<in> set (PathEscape s)"
  shows "path_char c \<or> c = CHR ''%''"
proof -
  from assms obtain x where "x \<in> set s" and c: "c \<in> set (if path_char x then [x]
      else [CHR ''%'', upper_hex (byte x div 16), upper_hex (byte x mod 16)])"
    unfolding PathEscape_def set_concat set_map by blast
  have "byte x < 256" by (rule nat_of_char_less_256)
  then have "path_char (upper_hex (byte x div 16))" "path_char (upper_hex (byte x mod 16))"
    by (auto intro!: path_char_hex less_mult_imp_div_less)
  with c show ?thesis by (auto split: if_splits)
qed

section \<open>Properties\<close>


text \<open>The relay reports success exactly when the token was issued, the connection was upgraded
  to TLS, the server took the XOAUTH2 response and accepted the sender, every recipient and the
  data; and then it sent, in this order and nothing else, the XOAUTH2 response for the mailbox,
  the mailbox address as envelope sender, all recipients, and the message unchanged.\<close>

theorem relay_success:
  "smtprelay_Send address localName up m = (cs, None) \<longleftrightarrow>
    (\<exists>token initial. up_Token up = Inr token \<and>
       BuildXOAuth2 (mb_Address (tm_Mailbox m)) token = Inr initial \<and>
       up_Dial up = None \<and> up_StartTLS up = None \<and> up_Hello up = None \<and>
       up_SupportsXOAuth2 up \<and> up_Auth up = None \<and> up_Mail up = None \<and>
       list_all (\<lambda>r. up_Rcpt up r = None) (tm_Recipients m) \<and>
       up_Data up = None \<and> up_Write up = None \<and> up_Close up = None \<and>
       cs = [CDial address, CStartTLS, CHello localName, CAuth XOAuth2 initial,
             CMail (mb_Address (tm_Mailbox m))] @ map CRcpt (tm_Recipients m) @
            [CData, CBody (tm_Raw m), CEndOfData, CQuit])"
  (is "?L \<longleftrightarrow> ?R")
proof
  assume L: ?L
  obtain token where tok: "up_Token up = Inr token"
    using L by (cases "up_Token up") (auto simp: smtprelay_Send_def)
  obtain c1 where c: "connect address localName up = (c1, None)"
    using L tok by (cases "connect address localName up") (auto simp: smtprelay_Send_def split: option.splits)
  obtain c2 where a: "authenticate (mb_Address (tm_Mailbox m)) token up = (c2, None)"
    using L tok c by (cases "authenticate (mb_Address (tm_Mailbox m)) token up")
      (auto simp: smtprelay_Send_def split: option.splits)
  obtain c3 where d: "relay_deliver up m = (c3, None)" "cs = c1 @ c2 @ c3"
    using L tok c a by (cases "relay_deliver up m") (auto simp: smtprelay_Send_def)
  show ?R
    using tok c[unfolded connect_None] a[unfolded authenticate_None] d(1)[unfolded relay_deliver_None] d(2)
    by (auto simp: EnvelopeFrom_def)
next
  assume ?R
  then obtain token initial where R: "up_Token up = Inr token"
    "BuildXOAuth2 (mb_Address (tm_Mailbox m)) token = Inr initial"
    "connect address localName up = ([CDial address, CStartTLS, CHello localName], None)"
    "authenticate (mb_Address (tm_Mailbox m)) token up = ([CAuth XOAuth2 initial], None)"
    "relay_deliver up m = (CMail (EnvelopeFrom m) # map CRcpt (tm_Recipients m) @
       [CData, CBody (tm_Raw m), CEndOfData, CQuit], None)"
    "cs = [CDial address, CStartTLS, CHello localName, CAuth XOAuth2 initial,
       CMail (mb_Address (tm_Mailbox m))] @ map CRcpt (tm_Recipients m) @
       [CData, CBody (tm_Raw m), CEndOfData, CQuit]"
    by (auto simp: connect_None authenticate_None relay_deliver_None)
  then show ?L by (simp add: smtprelay_Send_def EnvelopeFrom_def)
qed

text \<open>C40: The access token leaves the proxy only after the connection was upgraded: whatever the
  server answers, an AUTH command is preceded by a STARTTLS that succeeded.\<close>

theorem token_after_starttls:
  assumes "fst (smtprelay_Send address localName up m) = pre @ CAuth mech initial # post"
  shows "CStartTLS \<in> set pre \<and> up_StartTLS up = None \<and> mech = XOAuth2"
proof -
  obtain token where tok: "up_Token up = Inr token"
    using assms by (cases "up_Token up") (auto simp: smtprelay_Send_def)
  obtain cs r where c: "connect address localName up = (cs, r)" by fastforce
  have no_auth: "CAuth mech initial \<notin> set cs" "\<And>x. CAuth mech initial \<noteq> CRcpt x"
    using connect_cmds[of address localName up] c by auto
  have dl: "CAuth mech initial \<notin> set (fst (relay_deliver up m))"
    using relay_deliver_cmds[of up m] by auto
  show ?thesis
  proof (cases r)
    case (Some e)
    then have "CAuth mech initial \<in> set cs" using assms tok c by (simp add: smtprelay_Send_def)
    with no_auth show ?thesis by simp
  next
    case None
    with c have cn: "up_StartTLS up = None" "cs = [CDial address, CStartTLS, CHello localName]"
      by (auto simp: connect_None)
    obtain as ra where a: "authenticate (mb_Address (tm_Mailbox m)) token up = (as, ra)" by fastforce
    obtain ds rd where d: "relay_deliver up m = (ds, rd)" by fastforce
    define rest where "rest = (case ra of None \<Rightarrow> as @ ds | Some _ \<Rightarrow> as)"
    have "fst (smtprelay_Send address localName up m) = cs @ rest"
      using tok c None a d by (cases ra) (simp_all add: smtprelay_Send_def rest_def)
    with assms have eq: "cs @ rest = pre @ CAuth mech initial # post" by simp
    have "set rest \<subseteq> set as \<union> set ds" by (auto simp: rest_def split: option.splits)
    have "CAuth mech initial \<in> set (cs @ rest)" unfolding eq by simp
    then have "CAuth mech initial \<in> set rest" using no_auth by simp
    with \<open>set rest \<subseteq> _\<close> dl d have "CAuth mech initial \<in> set as" by auto
    with a have "mech = XOAuth2" by (auto simp: authenticate_def split: if_splits sum.splits)
    moreover have "CStartTLS \<in> set pre"
      using eq cn(2) by (auto simp: append_eq_append_conv2 Cons_eq_append_conv)
    ultimately show ?thesis using cn(1) by simp
  qed
qed

text \<open>The relay gives up on a message for good only for a reason that will not change: a reply
  of 500 or above to one of the commands that carry the message, or a mailbox address or token
  that cannot be written as XOAUTH2.  A rejected authentication never fails a message.\<close>

theorem relay_permanent:
  assumes "smtprelay_Send address localName up m = (cs, Some e)" "te_Permanent e"
  shows "\<not> te_Auth e \<and>
    (is_5xx (up_StartTLS up) \<or> is_5xx (up_Hello up) \<or> is_5xx (up_Mail up) \<or>
     list_ex (\<lambda>r. is_5xx (up_Rcpt up r)) (tm_Recipients m) \<or> is_5xx (up_Data up) \<or>
     is_5xx (up_Close up) \<or>
     (\<exists>token x. up_Token up = Inr token \<and> BuildXOAuth2 (mb_Address (tm_Mailbox m)) token = Inl x))"
proof -
  obtain token where tok: "up_Token up = Inr token"
    using assms by (cases "up_Token up") (auto simp: smtprelay_Send_def)
  obtain c1 r1 where c: "connect address localName up = (c1, r1)" by fastforce
  obtain c2 r2 where a: "authenticate (mb_Address (tm_Mailbox m)) token up = (c2, r2)" by fastforce
  obtain c3 r3 where d: "relay_deliver up m = (c3, r3)" by fastforce
  have auth: "r2 = Some e \<Longrightarrow> \<not> te_Auth e"
    using a assms(2) classifyAuth_auth by (auto simp: authenticate_def split: if_splits sum.splits)
  show ?thesis
    using assms tok c a d auth connect_error[of address localName up c1 e]
      authenticate_error[of "mb_Address (tm_Mailbox m)" token up c2 e] relay_deliver_error[of up m c3 e]
    by (cases r1; cases r2) (auto simp: smtprelay_Send_def)
qed

text \<open>How Graph's status decides: 202 is success; 401 and 403 are authentication failures, kept
  for retry; 429 and everything from 500 are retried, 429 with the delay Graph named; every other
  status fails the message for good.\<close>

theorem graph_status:
  "(case graph_classify decode status_text parse_time now resp m of
      None \<Rightarrow> rs_Status resp = 202
    | Some e \<Rightarrow>
        rs_Status resp \<noteq> 202 \<and>
        (te_Auth e \<longleftrightarrow> rs_Status resp \<in> {401, 403}) \<and>
        (te_Permanent e \<longleftrightarrow> rs_Status resp < 500 \<and> rs_Status resp \<notin> {401, 403, 429}) \<and>
        te_RetryAfter e = (if rs_Status resp = 429 then graph_retryAfter parse_time now resp else 0))"
  by (auto simp: graph_classify_def Let_def NewPermanent_def NewTransient_def NewThrottled_def
      NewAuthFailure_def)

text \<open>The mailbox address cannot leave its place in the Graph URL: its escaped form has no
  slash, question mark or fragment sign, and the request carries the token and the MIME message
  as they are.\<close>

theorem graph_request_path:
  assumes "buildRequest request_ok endpoint m token = Inr req"
  shows "\<exists>seg. rq_URL req = TrimRight endpoint (CHR ''/'') @ ''/v1.0/users/'' @ seg @ ''/sendMail'' \<and>
    set seg \<inter> set ''/?#;,'' = {} \<and> rq_Authorization req = ''Bearer '' @ token \<and>
    rq_Body req = base64 (tm_Raw m)"
proof -
  have "set (PathEscape (mb_Address (tm_Mailbox m))) \<inter> set ''/?#;,'' = {}"
    using PathEscape_chars by (fastforce simp: path_char_def is_digit_def is_upper_def)
  with assms show ?thesis by (auto simp: buildRequest_def Let_def split: if_splits)
qed

text \<open>Graph receives the MIME message only.  Two messages that differ in their envelope
  recipients lead to the same request, so the recipients the client named at RCPT TO do not
  decide who gets the message.\<close>

theorem graph_ignores_recipients:
  "graph_Send decode status_text parse_time request_ok now endpoint token http (m\<lparr> tm_Recipients := rs \<rparr>) =
   graph_Send decode status_text parse_time request_ok now endpoint token http m"
  by (simp add: graph_Send_def buildRequest_def graph_classify_def Let_def
      split: sum.splits)

text \<open>A Retry-After of more than 9223372036 seconds wraps around in the 64-bit multiplication:
  the delay becomes negative and the queue treats it as no delay at all.\<close>

theorem Retry_After_overflow:
  "graph_retryAfter parse_time now
     \<lparr> rs_Status = 429, rs_Body = None, rs_RetryAfter = ''9223372037'' \<rparr> < 0"
proof -
  have "Atoi (TrimSpace ''9223372037'') = Some 9223372037" by code_simp
  moreover have "wrap64 (9223372037 * second) < 0" by code_simp
  ultimately show ?thesis by (simp add: graph_retryAfter_def Let_def)
qed

section \<open>Witnesses\<close>

definition sample_transport_message :: TransportMessage where
  "sample_transport_message =
    \<lparr> tm_ID = ''x'',
      tm_Mailbox = \<lparr> mb_ID = ''m1'', mb_Address = ''sales@example.com'', mb_DisplayName = '''',
        mb_OAuthCredentialID = ''c1'', mb_Transport = TransportSMTP, mb_RateLimitPerMin = None,
        mb_MaxConcurrent = None, mb_Enabled = True, mb_ManagedBy = ManagedByUI,
        mb_CreatedAt = 0, mb_UpdatedAt = 0 \<rparr>,
      tm_Credential = \<lparr> cred_ID = ''c1'', cred_Name = ''main'', cred_TenantID = ''t'', cred_ClientID = ''a'',
        cred_AuthType = AuthTypeSecret, cred_ClientSecretEnc = ''k1:s'', cred_CertificatePEM = '''',
        cred_CertificateKeyEnc = '''', cred_CertificateThumbprint = '''', cred_AuthorityHost = '''',
        cred_ExpiresAt = None, cred_ManagedBy = ManagedByUI, cred_CreatedAt = 0, cred_UpdatedAt = 0 \<rparr>,
      tm_Recipients = [''bob@example.org''], tm_Raw = ''Hi'' \<rparr>"

definition sample_upstream :: "smtp_client_error option \<Rightarrow> smtp_upstream" where
  "sample_upstream close_error =
    \<lparr> up_Token = Inr ''tok'', up_Dial = None, up_StartTLS = None, up_Hello = None,
      up_SupportsXOAuth2 = True, up_Auth = None, up_Mail = None, up_Rcpt = (\<lambda>_. None),
      up_Data = None, up_Write = None, up_Close = close_error, up_Quit = None \<rparr>"


theorem token_after_starttls_witness:
  "\<exists>pre initial post. fst (smtprelay_Send ''h:587'' ''lan'' (sample_upstream None) sample_transport_message) =
     pre @ CAuth XOAuth2 initial # post \<and> CStartTLS \<in> set pre"
proof -
  let ?cs = "fst (smtprelay_Send ''h:587'' ''lan'' (sample_upstream None) sample_transport_message)"
  have "list_ex (\<lambda>c. case c of CAuth _ _ \<Rightarrow> True | _ \<Rightarrow> False) ?cs" by code_simp
  then obtain x where x: "x \<in> set ?cs" "case x of CAuth _ _ \<Rightarrow> True | _ \<Rightarrow> False"
    unfolding list_ex_iff by blast
  from x(2) obtain mech initial where "x = CAuth mech initial" by (cases x) auto
  with x(1) have "CAuth mech initial \<in> set ?cs" by simp
  then obtain pre post where "?cs = pre @ CAuth mech initial # post" by (meson split_list)
  then show ?thesis using token_after_starttls by blast
qed

theorem relay_permanent_witness:
  "is_5xx (Some (SMTPError 554 None ''no''))  \<and>
   (\<exists>cs e. smtprelay_Send ''h:587'' ''lan'' (sample_upstream (Some (SMTPError 554 None ''no''))) sample_transport_message
      = (cs, Some e) \<and> te_Permanent e \<and> \<not> te_Auth e)"
proof -
  let ?r = "smtprelay_Send ''h:587'' ''lan'' (sample_upstream (Some (SMTPError 554 None ''no''))) sample_transport_message"
  have "case snd ?r of None \<Rightarrow> False | Some e \<Rightarrow> te_Permanent e" by code_simp
  then obtain cs e where r: "?r = (cs, Some e)" "te_Permanent e"
    by (cases ?r) (auto split: option.splits)
  then show ?thesis using relay_permanent[OF r] by (simp add: is_5xx_def)
qed

theorem graph_request_path_witness:
  "\<exists>req seg. buildRequest (\<lambda>_. True) ''https://graph.example/'' sample_transport_message ''tok'' = Inr req \<and>
     rq_URL req = TrimRight ''https://graph.example/'' (CHR ''/'') @ ''/v1.0/users/'' @ seg @ ''/sendMail''"
proof -
  obtain req where r: "buildRequest (\<lambda>_. True) ''https://graph.example/'' sample_transport_message ''tok'' = Inr req"
    by (simp add: buildRequest_def Let_def)
  then show ?thesis using graph_request_path[OF r] by blast
qed

end
