(* ===== verification/Worker.thy ===== *)
theory Worker
  imports Directory RateLimit Transport
begin

text \<open>
  The delivery workers of \<^verbatim>\<open>src/internal/queue/worker.go\<close>.

  One delivery reads the database when it prepares, then waits for the mailbox's budget, talks to
  the upstream, and writes its outcome; other workers and operators run in between, so
  \<open>deliver\<close> takes the database at both instants.  A backend is the function from the
  prepared message to the error its \<^verbatim>\<open>Send\<close> returns (\<open>smtprelay_Send\<close> and
  \<open>graph_Send\<close> of \<open>Transport\<close> are such functions).  Whether
  \<^verbatim>\<open>Acquire\<close> returned before the context ended is the argument \<open>acquired\<close>.

  The dispatcher (\<^verbatim>\<open>dispatch\<close>) with its bounded pool is a step relation that refines
  the queue transition system of \<open>Messages\<close>.
\<close>

section \<open>Options\<close>

record backend =
  bk_Name :: string
  bk_Send :: "TransportMessage \<Rightarrow> send_error option"

record Options =
  op_Transports :: "(Transport \<times> backend) list"
  op_Workers :: int
  op_PollInterval :: duration
  op_LeaseDuration :: duration
  op_Backoff :: Backoff
  op_Budget :: Budget
  op_RetainSent :: duration
  op_RetainFailed :: duration
  op_PurgeInterval :: duration
  op_WorkerID :: string

text \<open>\<open>newID\<close> is what \<^verbatim>\<open>store.NewID\<close> would return.\<close>

definition queue_New :: "string \<Rightarrow> Options \<Rightarrow> (string, Options \<times> Limiter) result" where
  "queue_New newID opts =
    (if op_Transports opts = [] then Inl ''queue: at least one transport is required''
     else (let o' = opts\<lparr>
         op_Workers := (if op_Workers opts \<le> 0 then 4 else op_Workers opts),
         op_PollInterval := (if op_PollInterval opts \<le> 0 then 5 * second else op_PollInterval opts),
         op_LeaseDuration := (if op_LeaseDuration opts \<le> 0 then 5 * minute else op_LeaseDuration opts),
         op_PurgeInterval := (if op_PurgeInterval opts \<le> 0 then hour else op_PurgeInterval opts),
         op_WorkerID := (if op_WorkerID opts = '''' then newID else op_WorkerID opts) \<rparr>
       in Inr (o', NewLimiter (op_Budget o'))))"

section \<open>Preparing a delivery\<close>

text \<open>What a delivery reads.  Each read can fail, with \<^const>\<open>ErrNotFound\<close> or with an error of the
  driver.\<close>

record reads =
  rd_Mailbox :: "string \<Rightarrow> Mailbox store_result"
  rd_Credential :: "string \<Rightarrow> OAuthCredential store_result"
  rd_Body :: "string \<Rightarrow> string store_result"

definition db_reads :: "DB \<Rightarrow> reads" where
  "db_reads db = \<lparr> rd_Mailbox = Mailboxes_Get db, rd_Credential = Credentials_Get db, rd_Body = Body db \<rparr>"

datatype prepare_error =
    NotAssociated
  | LoadingMailbox store_error
  | MailboxDisabled string
  | LoadingCredential string store_error
  | LoadingBody store_error

text \<open>\<^verbatim>\<open>err.Error()\<close>; \<open>show_error\<close> prints the wrapped error of the store.\<close>

definition prepare_error_string :: "(store_error \<Rightarrow> string) \<Rightarrow> prepare_error \<Rightarrow> string" where
  "prepare_error_string show_error e = (case e of
      NotAssociated \<Rightarrow> ''the message is not associated with a mailbox''
    | LoadingMailbox err \<Rightarrow> ''loading the mailbox: '' @ show_error err
    | MailboxDisabled a \<Rightarrow> ''the mailbox '' @ a @ '' is disabled''
    | LoadingCredential a err \<Rightarrow> ''loading the credential for '' @ a @ '': '' @ show_error err
    | LoadingBody err \<Rightarrow> ''loading the message body: '' @ show_error err)"

definition prepare :: "reads \<Rightarrow> Message \<Rightarrow> (prepare_error, TransportMessage) result" where
  "prepare rd m =
    (case msg_MailboxID m of
       None \<Rightarrow> Inl NotAssociated
     | Some i \<Rightarrow>
         (case rd_Mailbox rd i of
            Inl err \<Rightarrow> Inl (LoadingMailbox err)
          | Inr mailbox \<Rightarrow>
              if \<not> mb_Enabled mailbox then Inl (MailboxDisabled (mb_Address mailbox))
              else
                (case rd_Credential rd (mb_OAuthCredentialID mailbox) of
                   Inl err \<Rightarrow> Inl (LoadingCredential (mb_Address mailbox) err)
                 | Inr credential \<Rightarrow>
                     (case rd_Body rd (msg_ID m) of
                        Inl err \<Rightarrow> Inl (LoadingBody err)
                      | Inr body \<Rightarrow>
                          Inr \<lparr> tm_ID = msg_ID m, tm_Mailbox = mailbox, tm_Credential = credential,
                                tm_Recipients = msg_Recipients m, tm_Raw = body \<rparr>))))"

section \<open>Recording the outcome\<close>

text \<open>\<open>rnd\<close> is the jitter sample, \<open>now\<close> the instant of the decision and of the statement.
  An error of the statement is only logged.\<close>

definition recordFailure ::
  "Options \<Rightarrow> rat \<Rightarrow> instant \<Rightarrow> Message \<Rightarrow> send_error \<Rightarrow> DB \<Rightarrow> DB" where
  "recordFailure opts rnd now m sendErr db =
    (let failure = AsFailure sendErr;
         attempts = msg_Attempts m + 1
     in if IsPermanent sendErr
        then after db (Fail (msg_ID m) (op_WorkerID opts) failure now db)
        else
          (case NextAttemptAfter (op_Backoff opts) rnd now attempts (msg_ReceivedAt m) (RetryAfter sendErr) of
             None \<Rightarrow> after db (Fail (msg_ID m) (op_WorkerID opts)
               (failure\<lparr> fl_Permanent := True, fl_Message := ''giving up after '' @
                  signed_itoa attempts @ '' attempts: '' @ fl_Message failure \<rparr>) now db)
           | Some retryAt \<Rightarrow> after db (Defer (msg_ID m) (op_WorkerID opts) failure retryAt now db)))"

definition outcomeFor :: "send_error \<Rightarrow> string" where
  "outcomeFor err = (if IsPermanent err then ''failed'' else ''deferred'')"

definition mailbox_budget :: "Mailbox \<Rightarrow> Budget" where
  "mailbox_budget mb =
    \<lparr> bg_PerMinute = (case mb_RateLimitPerMin mb of None \<Rightarrow> 0 | Some n \<Rightarrow> n),
      bg_MaxConcurrent = (case mb_MaxConcurrent mb of None \<Rightarrow> 0 | Some n \<Rightarrow> n) \<rparr>"

definition transport_name :: "Transport \<Rightarrow> string" where
  "transport_name t = (case t of TransportSMTP \<Rightarrow> ''smtp'' | TransportGraph \<Rightarrow> ''graph'' | TransportUnknown s \<Rightarrow> s)"

text \<open>The sends a delivery makes, the metric it records, and the database afterwards.\<close>

record delivered =
  dl_sends :: "(string \<times> TransportMessage) list"
  dl_metrics :: "(string \<times> string) list"
  dl_db :: DB

definition deliver ::
  "Options \<Rightarrow> (store_error \<Rightarrow> string) \<Rightarrow> (string \<Rightarrow> Budget \<Rightarrow> bool) \<Rightarrow> reads \<Rightarrow> rat \<Rightarrow> instant \<Rightarrow>
    Message \<Rightarrow> DB \<Rightarrow> delivered" where
  "deliver opts show_error acquired rd rnd now m db =
    (case prepare rd m of
       Inl err \<Rightarrow>
         \<lparr> dl_sends = [], dl_metrics = [],
           dl_db = recordFailure opts rnd now m
             (TransportError (NewPermanent ''proxy'' (prepare_error_string show_error err))) db \<rparr>
     | Inr prepared \<Rightarrow>
         let mailbox = tm_Mailbox prepared in
         if \<not> acquired (mb_ID mailbox) (mailbox_budget mailbox)
         then \<lparr> dl_sends = [], dl_metrics = [], dl_db = db \<rparr>
         else
           (case map_of (op_Transports opts) (mb_Transport mailbox) of
              None \<Rightarrow>
                \<lparr> dl_sends = [], dl_metrics = [],
                  dl_db = recordFailure opts rnd now m
                    (TransportError (NewPermanent ''proxy'' (''no transport is configured for '' @
                       Quote (transport_name (mb_Transport mailbox))))) db \<rparr>
            | Some b \<Rightarrow>
                (case bk_Send b prepared of
                   None \<Rightarrow>
                     \<lparr> dl_sends = [(bk_Name b, prepared)], dl_metrics = [(bk_Name b, ''sent'')],
                       dl_db = after db (MarkSent (msg_ID m) (op_WorkerID opts) now db) \<rparr>
                 | Some sendErr \<Rightarrow>
                     \<lparr> dl_sends = [(bk_Name b, prepared)],
                       dl_metrics = [(bk_Name b, outcomeFor sendErr)],
                       dl_db = recordFailure opts rnd now m sendErr db \<rparr>)))"

section \<open>Claiming and housekeeping\<close>

definition claim :: "Options \<Rightarrow> int \<Rightarrow> instant \<Rightarrow> DB \<Rightarrow> Message list \<times> DB" where
  "claim opts limit now db =
    (if limit \<le> 0 then ([], db)
     else (case ClaimMessages (op_WorkerID opts) limit (op_LeaseDuration opts) now db of
             Inl _ \<Rightarrow> ([], db) | Inr r \<Rightarrow> r))"

definition purge :: "Options \<Rightarrow> instant \<Rightarrow> DB \<Rightarrow> DB" where
  "purge opts now db =
    (if op_RetainSent opts \<le> 0 \<and> op_RetainFailed opts \<le> 0 then db
     else snd (Purge (now - op_RetainSent opts) (now - op_RetainFailed opts) db))"

definition releaseExpiredLeases :: "instant \<Rightarrow> DB \<Rightarrow> DB" where
  "releaseExpiredLeases now db = snd (ReleaseExpiredLeases now db)"

definition housekeeping_start :: "instant \<Rightarrow> DB \<Rightarrow> DB" where
  "housekeeping_start now db = releaseExpiredLeases now db"

definition housekeeping_tick :: "Options \<Rightarrow> instant \<Rightarrow> DB \<Rightarrow> DB" where
  "housekeeping_tick opts now db = purge opts now (releaseExpiredLeases now db)"

definition gauge_statuses :: "MessageStatus list" where
  "gauge_statuses = [StatusQueued, StatusSending, StatusDeferred, StatusFailed, StatusHeld, StatusSent]"

definition publishGauges :: "instant \<Rightarrow> DB \<Rightarrow> (MessageStatus \<times> nat) list \<times> (string \<times> rat) list" where
  "publishGauges now db =
    (map (\<lambda>st. (st, CountByStatus db st)) gauge_statuses,
     concat (map (\<lambda>c. case cred_ExpiresAt c of None \<Rightarrow> []
         | Some t \<Rightarrow> [(cred_Name c, of_int (t - now) / of_int second)]) (Credentials_List db)))"

section \<open>A delivery is one outcome\<close>

text \<open>The decision \<^verbatim>\<open>recordFailure\<close> takes, as an outcome of the queue.\<close>

definition failure_outcome :: "Options \<Rightarrow> rat \<Rightarrow> instant \<Rightarrow> Message \<Rightarrow> send_error \<Rightarrow> outcome" where
  "failure_outcome opts rnd now m err =
    (let f = AsFailure err; attempts = msg_Attempts m + 1 in
     if IsPermanent err then OFailed f
     else (case NextAttemptAfter (op_Backoff opts) rnd now attempts (msg_ReceivedAt m) (RetryAfter err) of
             None \<Rightarrow> OFailed (f\<lparr> fl_Permanent := True, fl_Message := ''giving up after '' @
                  signed_itoa attempts @ '' attempts: '' @ fl_Message f \<rparr>)
           | Some t \<Rightarrow> ODeferred f t))"

lemma recordFailure_finish:
  "recordFailure opts rnd now m err db =
    after db (finish (failure_outcome opts rnd now m err) (msg_ID m) (op_WorkerID opts) now db)"
  by (simp add: recordFailure_def failure_outcome_def finish_def Let_def split: option.split)

text \<open>The outcome a delivery reports, or none when the worker is shutting down.\<close>

definition delivery_decision ::
  "Options \<Rightarrow> (store_error \<Rightarrow> string) \<Rightarrow> (string \<Rightarrow> Budget \<Rightarrow> bool) \<Rightarrow> reads \<Rightarrow> rat \<Rightarrow> instant \<Rightarrow>
    Message \<Rightarrow> outcome option" where
  "delivery_decision opts sh acq rd rnd now m =
    (case prepare rd m of
       Inl err \<Rightarrow> Some (failure_outcome opts rnd now m
         (TransportError (NewPermanent ''proxy'' (prepare_error_string sh err))))
     | Inr p \<Rightarrow>
         if \<not> acq (mb_ID (tm_Mailbox p)) (mailbox_budget (tm_Mailbox p)) then None
         else Some (case map_of (op_Transports opts) (mb_Transport (tm_Mailbox p)) of
             None \<Rightarrow> failure_outcome opts rnd now m
               (TransportError (NewPermanent ''proxy'' (''no transport is configured for '' @
                  Quote (transport_name (mb_Transport (tm_Mailbox p))))))
           | Some b \<Rightarrow> (case bk_Send b p of None \<Rightarrow> OSent | Some e \<Rightarrow> failure_outcome opts rnd now m e)))"

lemma deliver_finish:
  "dl_db (deliver opts sh acq rd rnd now m db) =
    (case delivery_decision opts sh acq rd rnd now m of
       None \<Rightarrow> db
     | Some oc \<Rightarrow> after db (finish oc (msg_ID m) (op_WorkerID opts) now db))"
  by (simp add: deliver_def delivery_decision_def recordFailure_finish Let_def finish_def
      split: sum.split option.split)

lemma queue_ok_deliver: "queue_ok db \<Longrightarrow> queue_ok (dl_db (deliver opts sh acq rd rnd now m db))"
  by (auto simp: deliver_finish intro!: queue_ok_after intro: queue_preserve split: option.split)

lemma directory_ok_deliver: "directory_ok db \<Longrightarrow> directory_ok (dl_db (deliver opts sh acq rd rnd now m db))"
  by (auto simp: deliver_finish intro!: directory_ok_after intro: directory_ok_finish split: option.split)

lemma kept_deliver:
  "r \<in> set (t_messages db) \<Longrightarrow> kept db (dl_db (deliver opts sh acq rd rnd now m db)) r"
  by (auto simp: deliver_finish intro: kept_refl kept_finish split: option.split)

lemma kept_trans:
  assumes "kept db db1 m" "\<And>m1. m1 \<in> set (t_messages db1) \<Longrightarrow> kept db1 db2 m1"
  shows "kept db db2 m"
proof -
  obtain m1 where m1: "m1 \<in> set (t_messages db1)" "same_content m m1"
    using assms(1) by (auto simp: kept_def list_ex_iff)
  obtain m2 where m2: "m2 \<in> set (t_messages db2)" "same_content m1 m2"
    using assms(2)[OF m1(1)] by (auto simp: kept_def list_ex_iff)
  have "same_content m m2" using m1(2) m2(2) by (auto simp: same_content_def)
  moreover have "Body db2 (msg_ID m) = Body db (msg_ID m)"
    using assms(1) assms(2)[OF m1(1)] m1(2) by (simp add: kept_def same_content_def)
  ultimately show ?thesis using m2(1) by (auto simp: kept_def list_ex_iff)
qed

text \<open>C11: The outcome of a delivery.  When the message could be prepared, the budget was granted
  and its transport exists, the upstream is called exactly once, and a row still leased to this
  worker is afterwards sent if the upstream accepted the message, failed if the error is permanent
  or the retry schedule is exhausted, and otherwise deferred to the instant the schedule (or the
  upstream's longer Retry-After) names; it has one more attempt, and no lease.\<close>

theorem deliver_outcome:
  assumes "prepare rd m = Inr p" "acq (mb_ID (tm_Mailbox p)) (mailbox_budget (tm_Mailbox p))"
    and "map_of (op_Transports opts) (mb_Transport (tm_Mailbox p)) = Some b"
    and "r \<in> set (t_messages db)" "ownedBy (msg_ID m) (op_WorkerID opts) r"
  shows "let d = deliver opts sh acq rd rnd now m db;
      next = (\<lambda>e. NextAttemptAfter (op_Backoff opts) rnd now (msg_Attempts m + 1) (msg_ReceivedAt m) (RetryAfter e))
    in dl_sends d = [(bk_Name b, p)] \<and>
      (\<exists>r'\<in>set (t_messages (dl_db d)). msg_ID r' = msg_ID m \<and> msg_Attempts r' = msg_Attempts r + 1 \<and>
        msg_LeaseOwner r' = None \<and>
        (case bk_Send b p of
           None \<Rightarrow> msg_Status r' = StatusSent
         | Some e \<Rightarrow> if IsPermanent e then msg_Status r' = StatusFailed
             else (case next e of None \<Rightarrow> msg_Status r' = StatusFailed
               | Some t \<Rightarrow> msg_Status r' = StatusDeferred \<and> msg_NextAttemptAt r' = t)))"
proof -
  have own: "list_ex (ownedBy (msg_ID m) (op_WorkerID opts)) (t_messages db)"
    using assms(4,5) by (auto simp: list_ex_iff)
  have in_upd: "f r \<in> set (t_messages (updateMessages (ownedBy (msg_ID m) (op_WorkerID opts)) f db))" for f
    using assms(4,5) by (auto simp: updateMessages_def set_update_where)
  have id: "msg_ID r = msg_ID m" using assms(5) by (simp add: ownedBy_def)
  show ?thesis
    using assms(1-3) own id
    by (auto simp: deliver_def recordFailure_def Let_def after_def MarkSent_def Fail_def Defer_def
        updateOwned_cases split: option.split intro!: bexI[OF _ in_upd])
qed

text \<open>Whatever a delivery hands to an upstream, it does at most once, and the message is the
  one the database holds: the mailbox is the message's own and is enabled, the credential is that
  mailbox's, and recipients and body are the stored ones.\<close>

theorem deliver_sends_stored:
  assumes "(n, p) \<in> set (dl_sends (deliver opts sh acq (db_reads db0) rnd now m db))"
  shows "length (dl_sends (deliver opts sh acq (db_reads db0) rnd now m db)) = 1 \<and>
    msg_MailboxID m = Some (mb_ID (tm_Mailbox p)) \<and>
    tm_Mailbox p \<in> set (t_mailboxes db0) \<and> mb_Enabled (tm_Mailbox p) \<and>
    tm_Credential p \<in> set (t_credentials db0) \<and>
    cred_ID (tm_Credential p) = mb_OAuthCredentialID (tm_Mailbox p) \<and>
    Body db0 (msg_ID m) = Inr (tm_Raw p) \<and> tm_Recipients p = msg_Recipients m \<and>
    tm_ID p = msg_ID m"
proof -
  have prep: "prepare (db_reads db0) m = Inr p"
    and one: "length (dl_sends (deliver opts sh acq (db_reads db0) rnd now m db)) = 1"
    using assms by (auto simp: deliver_def Let_def split: sum.splits option.splits if_splits)
  have "tm_Mailbox p \<in> set (t_mailboxes db0) \<and> msg_MailboxID m = Some (mb_ID (tm_Mailbox p)) \<and>
      mb_Enabled (tm_Mailbox p) \<and> tm_Credential p \<in> set (t_credentials db0) \<and>
      cred_ID (tm_Credential p) = mb_OAuthCredentialID (tm_Mailbox p) \<and>
      Body db0 (msg_ID m) = Inr (tm_Raw p) \<and> tm_Recipients p = msg_Recipients m \<and> tm_ID p = msg_ID m"
    using prep
    by (auto simp: prepare_def db_reads_def Mailboxes_Get_def Credentials_Get_def
        split: sum.splits option.splits if_splits dest!: select_one_Some_D)
  with one show ?thesis by simp
qed

text \<open>C13: Round trip.  As long as the queue keeps the accepted message, what a later delivery hands
  to the upstream is byte for byte the body that was enqueued, for the recipients that were
  enqueued, through the mailbox that was chosen at submission.\<close>

theorem delivered_as_accepted:
  assumes "Enqueue now0 newID m0 (Some body) db0 = Inr (m1, db1)" "queue_ok db1"
    and "kept db1 db m1" "queue_ok db" "m \<in> set (t_messages db)" "msg_ID m = msg_ID m1"
    and "(n, p) \<in> set (dl_sends (deliver opts sh acq (db_reads db) rnd now m db'))"
  shows "tm_Raw p = body \<and> tm_Recipients p = msg_Recipients m0 \<and>
    msg_MailboxID m0 = Some (mb_ID (tm_Mailbox p))"
proof -
  have prep: "prepare (db_reads db) m = Inr p"
    using assms(7) by (auto simp: deliver_def Let_def split: sum.splits option.splits if_splits)
  have raw: "Body db (msg_ID m) = Inr (tm_Raw p)" "tm_Recipients p = msg_Recipients m"
    "msg_MailboxID m = Some (mb_ID (tm_Mailbox p))"
    using prep by (auto simp: prepare_def db_reads_def Mailboxes_Get_def
        split: sum.splits option.splits if_splits dest!: select_one_Some_D)
  have m1: "m1 = enqueueDefaults now0 newID m0" and blobs: "(msg_ID m1, body) \<in> set (t_blobs db1)"
    using assms(1) by (auto simp: Enqueue_def enqueueTx_def Let_def split: if_splits)
  have "select_one (\<lambda>b. fst b = fst (msg_ID m1, body)) (t_blobs db1) = Some (msg_ID m1, body)"
    using assms(2) blobs by (intro select_one_unique) (auto simp: queue_ok_def)
  then have "Body db1 (msg_ID m1) = Inr body" by (simp add: Body_def)
  moreover obtain r where r: "r \<in> set (t_messages db)" "same_content m1 r"
    using assms(3) by (auto simp: kept_def list_ex_iff)
  then have "r = m" using assms(4-6) unique_keyD[of msg_ID "t_messages db" r m]
    by (auto simp: queue_ok_def same_content_def)
  ultimately show ?thesis
    using assms(3,6) raw r(2) by (auto simp: kept_def same_content_def m1 enqueueDefaults_def)
qed

lemma delivery_decision_acquired:
  assumes "\<And>i b. acq i b"
  shows "\<exists>oc. delivery_decision opts sh acq rd rnd now m = Some oc \<and>
    (oc = OSent \<or> (\<exists>e. oc = failure_outcome opts rnd now m e))"
proof (cases "prepare rd m")
  case (Inl err)
  then show ?thesis by (auto simp: delivery_decision_def)
next
  case (Inr p)
  show ?thesis
  proof (cases "map_of (op_Transports opts) (mb_Transport (tm_Mailbox p))")
    case None
    with Inr assms show ?thesis by (auto simp: delivery_decision_def)
  next
    case (Some b)
    with Inr assms show ?thesis by (cases "bk_Send b p") (auto simp: delivery_decision_def)
  qed
qed

text \<open>C36: Retries end: when the schedule limits the attempts, the last permitted attempt is final.
  Whatever goes wrong on it, a row leased to the worker ends as sent or failed, never deferred
  again.\<close>

theorem last_attempt_final:
  assumes "0 < bo_MaxAttempts (op_Backoff opts)" "bo_MaxAttempts (op_Backoff opts) \<le> msg_Attempts m + 1"
    and "\<And>i b. acq i b" "r \<in> set (t_messages db)" "ownedBy (msg_ID m) (op_WorkerID opts) r"
  shows "\<exists>r'\<in>set (t_messages (dl_db (deliver opts sh acq rd rnd now m db))).
    msg_ID r' = msg_ID m \<and> msg_Status r' \<in> {StatusSent, StatusFailed}"
proof -
  have no_defer: "outcome_status (failure_outcome opts rnd now m e) = StatusFailed" for e
    using assms(1,2)
    by (simp add: failure_outcome_def NextAttemptAfter_def NextAttempt_def outcome_status_def Let_def)
  obtain oc where oc: "delivery_decision opts sh acq rd rnd now m = Some oc"
    "outcome_status oc \<in> {StatusSent, StatusFailed}"
    using delivery_decision_acquired[of acq opts sh rd rnd now m] assms(3) no_defer
    by (auto simp: outcome_status_def[of OSent])
  obtain f where f: "finish oc (msg_ID m) (op_WorkerID opts) now db =
      updateOwned (msg_ID m) (op_WorkerID opts) f db"
    "\<And>x. msg_ID (f x) = msg_ID x" "\<And>x. msg_Status (f x) = outcome_status oc"
    "\<And>x. msg_Attempts (f x) = msg_Attempts x + 1" "\<And>x. msg_LeaseOwner (f x) = None"
    using finish_as_update[of oc "msg_ID m" "op_WorkerID opts" now db] by blast
  have "list_ex (ownedBy (msg_ID m) (op_WorkerID opts)) (t_messages db)"
    using assms(4,5) by (auto simp: list_ex_iff)
  then have "dl_db (deliver opts sh acq rd rnd now m db) =
      updateMessages (ownedBy (msg_ID m) (op_WorkerID opts)) f db"
    by (simp add: deliver_finish oc(1) f(1) updateOwned_cases after_def)
  then have "f r \<in> set (t_messages (dl_db (deliver opts sh acq rd rnd now m db)))"
    using assms(4,5) by (auto simp: updateMessages_def set_update_where)
  then show ?thesis using f(2,3)[of r] oc(2) assms(5) by (intro bexI[of _ "f r"]) (auto simp: ownedBy_def)
qed

section \<open>The dispatcher\<close>

text \<open>Messages claimed and not yet started, and deliveries running in the pool.\<close>

record dispatcher =
  ds_db :: DB
  ds_now :: instant
  ds_pending :: "Message list"
  ds_running :: "Message list"

text \<open>The loop of \<^verbatim>\<open>dispatch\<close>: it claims as many messages as slots are free once the
  previous batch has started, starts one when a slot is free, and a finished delivery frees its
  slot.  Housekeeping, submissions, operators and the clock run beside it.  A batch holds no
  message the pool is still delivering; \<open>Messages.self_reclaim_breaks_exclusion\<close> shows what happens
  when a delivery outlives its lease.\<close>

inductive dispatch_step :: "Options \<Rightarrow> (store_error \<Rightarrow> string) \<Rightarrow> dispatcher \<Rightarrow> dispatcher \<Rightarrow> bool"
  for opts sh where
  DClaim: "ds_pending d = [] \<Longrightarrow>
    claim opts (op_Workers opts - int (length (ds_running d))) (ds_now d) (ds_db d) = (ms, db') \<Longrightarrow>
    msg_ID ` set ms \<inter> msg_ID ` set (ds_running d) = {} \<Longrightarrow>
    dispatch_step opts sh d (d\<lparr> ds_db := db', ds_pending := ms \<rparr>)"
| DStart: "ds_pending d = m # rest \<Longrightarrow> int (length (ds_running d)) < op_Workers opts \<Longrightarrow>
    dispatch_step opts sh d (d\<lparr> ds_pending := rest, ds_running := m # ds_running d \<rparr>)"
| DFinish: "m \<in> set (ds_running d) \<Longrightarrow>
    dispatch_step opts sh d (d\<lparr> ds_db := dl_db (deliver opts sh (\<lambda>_ _. True) rd rnd (ds_now d) m (ds_db d)),
      ds_running := remove1 m (ds_running d) \<rparr>)"
| DStop: "dispatch_step opts sh d (d\<lparr> ds_pending := [], ds_running := [] \<rparr>)"
| DHousekeeping: "dispatch_step opts sh d (d\<lparr> ds_db := housekeeping_tick opts (ds_now d) (ds_db d) \<rparr>)"
| DSubmit: "fresh_submission m \<Longrightarrow> Enqueue (ds_now d) newID m body (ds_db d) = Inr (m', db') \<Longrightarrow>
    dispatch_step opts sh d (d\<lparr> ds_db := db' \<rparr>)"
| DRequeue: "dispatch_step opts sh d (d\<lparr> ds_db := after (ds_db d) (Requeue i (ds_now d) (ds_db d)) \<rparr>)"
| DHold: "dispatch_step opts sh d (d\<lparr> ds_db := after (ds_db d) (Hold i (ds_now d) (ds_db d)) \<rparr>)"
| DDelete: "dispatch_step opts sh d (d\<lparr> ds_db := after (ds_db d) (Messages_Delete i (ds_db d)) \<rparr>)"
| DTick: "0 \<le> dt \<Longrightarrow> dispatch_step opts sh d (d\<lparr> ds_now := ds_now d + dt \<rparr>)"

definition lease_entry :: "Options \<Rightarrow> Message \<Rightarrow> delivery" where
  "lease_entry opts m =
    (op_WorkerID opts, msg_ID m, case msg_LeaseExpiresAt m of None \<Rightarrow> 0 | Some u \<Rightarrow> u)"

definition ds_entries :: "Options \<Rightarrow> dispatcher \<Rightarrow> delivery list" where
  "ds_entries opts d = map (lease_entry opts) (ds_pending d @ ds_running d)"

text \<open>The simulation: same database and clock, and the deliveries of the pool are the ones in
  flight.\<close>

definition simulates :: "Options \<Rightarrow> dispatcher \<Rightarrow> queue_sys \<Rightarrow> bool" where
  "simulates opts d s =
    (qs_db s = ds_db d \<and> qs_now s = ds_now d \<and> set (qs_inflight s) = set (ds_entries opts d) \<and>
     distinct (map msg_ID (ds_pending d @ ds_running d)))"

lemma claim_distinct:
  assumes "queue_ok db" "ClaimMessages owner limit leaseFor now db = Inr (ms, db')"
  shows "distinct (map msg_ID ms)"
proof (cases "limit \<le> 0 \<or> claimIDs now limit (t_messages db) = []")
  case True
  with assms(2) show ?thesis by (auto simp: ClaimMessages_def Let_def split: if_splits)
next
  case False
  then have "ms = sort_key msg_NextAttemptAt (filter (holdsLease owner (now + leaseFor)) (t_messages db'))"
    using assms(2) by (auto simp: ClaimMessages_def Let_def split: if_splits)
  moreover have "unique_key msg_ID (t_messages db')"
    using queue_ok_Claim[OF assms] by (simp add: queue_ok_def)
  ultimately show ?thesis
    by (auto simp: unique_key_def distinct_map elim: inj_on_subset)
qed

lemma claim_entries:
  assumes "ClaimMessages (op_WorkerID opts) limit leaseFor now db = Inr (ms, db')"
  shows "map (lease_entry opts) ms = map (\<lambda>m. (op_WorkerID opts, msg_ID m, now + leaseFor)) ms"
proof (cases "limit > 0")
  case True
  then show ?thesis
    using ClaimMessages_Inr(3)[OF assms True] by (auto simp: lease_entry_def holdsLease_def)
next
  case False
  with assms show ?thesis by (auto simp: ClaimMessages_def split: if_splits)
qed

lemma simulate_claim:
  assumes "simulates opts d s" "queue_ok (qs_db s)" "ds_pending d = []"
    and "claim opts n (ds_now d) (ds_db d) = (ms, db')"
    and "msg_ID ` set ms \<inter> msg_ID ` set (ds_running d) = {}"
  shows "\<exists>s'. (queue_step True)\<^sup>*\<^sup>* s s' \<and> simulates opts (d\<lparr> ds_db := db', ds_pending := ms \<rparr>) s'"
proof (cases "ClaimMessages (op_WorkerID opts) n (op_LeaseDuration opts) (ds_now d) (ds_db d)")
  case (Inl e)
  then have "ms = []" "db' = ds_db d" using assms(4) by (auto simp: claim_def split: if_splits)
  then show ?thesis using assms(1,3)
    by (intro exI[of _ s]) (simp add: simulates_def ds_entries_def)
next
  case (Inr r)
  then have cm: "ClaimMessages (op_WorkerID opts) n (op_LeaseDuration opts) (ds_now d) (ds_db d) = Inr (ms, db')"
    using assms(4) by (cases "n \<le> 0") (auto simp: claim_def ClaimMessages_def split: if_splits)
  have sim: "qs_db s = ds_db d" "qs_now s = ds_now d"
    "set (qs_inflight s) = set (map (lease_entry opts) (ds_running d))" "distinct (map msg_ID (ds_running d))"
    using assms(1,3) by (simp_all add: simulates_def ds_entries_def)
  let ?s' = "s\<lparr> qs_db := db', qs_inflight := map (\<lambda>m. (op_WorkerID opts, msg_ID m, qs_now s + op_LeaseDuration opts)) ms
      @ qs_inflight s \<rparr>"
  have "(op_WorkerID opts, msg_ID m, u) \<notin> set (qs_inflight s)" if "m \<in> set ms" for m u
  proof
    assume "(op_WorkerID opts, msg_ID m, u) \<in> set (qs_inflight s)"
    then obtain r where "r \<in> set (ds_running d)" "msg_ID r = msg_ID m"
      unfolding sim(3) by (auto simp: lease_entry_def)
    with that assms(5) show False by (metis disjoint_iff image_eqI)
  qed
  then have "queue_step True s ?s'"
    using cm[folded sim(1,2)] by (intro queue_step.Claim) auto
  moreover have "distinct (map msg_ID (ms @ ds_running d))"
    using claim_distinct[OF _ cm] assms(2,5) sim(1,4) by auto
  then have "simulates opts (d\<lparr> ds_db := db', ds_pending := ms \<rparr>) ?s'"
    using sim arg_cong[OF claim_entries[OF cm], of set] by (simp add: simulates_def ds_entries_def)
  ultimately show ?thesis by blast
qed

lemma image_remove1:
  assumes "distinct (map g xs)" "m \<in> set xs" "\<And>x y. h x = h y \<Longrightarrow> g x = g y"
  shows "h ` set (remove1 m xs) = h ` set xs - {h m}"
proof -
  have inj: "inj_on g (set xs)" "distinct xs" using assms(1) by (simp_all add: distinct_map)
  then have "h x \<noteq> h m" if "x \<in> set xs" "x \<noteq> m" for x
    using that assms(2,3) by (metis inj_onD)
  with inj(2) show ?thesis by auto
qed

lemma distinct_map_remove1: "distinct (map g xs) \<Longrightarrow> distinct (map g (remove1 m xs))"
  using set_remove1_subset[of m xs] by (auto simp: distinct_map intro: inj_on_subset)

lemma simulate_finish:
  assumes "simulates opts d s" "m \<in> set (ds_running d)"
  shows "\<exists>s'. (queue_step True)\<^sup>*\<^sup>* s s' \<and> simulates opts
    (d\<lparr> ds_db := dl_db (deliver opts sh (\<lambda>_ _. True) rd rnd (ds_now d) m (ds_db d)),
       ds_running := remove1 m (ds_running d) \<rparr>) s'"
proof -
  obtain oc where oc: "delivery_decision opts sh (\<lambda>_ _. True) rd rnd (ds_now d) m = Some oc"
    using delivery_decision_acquired[of "\<lambda>_ _. True"] by blast
  obtain u where u: "lease_entry opts m = (op_WorkerID opts, msg_ID m, u)" by (simp add: lease_entry_def)
  have sim: "qs_db s = ds_db d" "qs_now s = ds_now d" "set (qs_inflight s) = set (ds_entries opts d)"
    "distinct (map msg_ID (ds_pending d @ ds_running d))"
    using assms(1) by (simp_all add: simulates_def)
  let ?s' = "s\<lparr> qs_db := after (qs_db s) (finish oc (msg_ID m) (op_WorkerID opts) (qs_now s) (qs_db s)),
    qs_inflight := removeAll (op_WorkerID opts, msg_ID m, u) (qs_inflight s) \<rparr>"
  have step: "queue_step True s ?s'"
    using assms(2) sim(3) u by (intro queue_step.Finish) (force simp: ds_entries_def)
  have rest: "ds_pending d @ remove1 m (ds_running d) = remove1 m (ds_pending d @ ds_running d)"
    using sim(4) assms(2) by (auto simp: remove1_append)
  have "lease_entry opts ` set (remove1 m (ds_pending d @ ds_running d)) =
      lease_entry opts ` set (ds_pending d @ ds_running d) - {lease_entry opts m}"
    using sim(4) assms(2) by (intro image_remove1[where g = msg_ID]) (auto simp: lease_entry_def)
  moreover have "distinct (map msg_ID (remove1 m (ds_pending d @ ds_running d)))"
    using sim(4) by (rule distinct_map_remove1)
  ultimately have "simulates opts (d\<lparr> ds_db := dl_db (deliver opts sh (\<lambda>_ _. True) rd rnd (ds_now d) m (ds_db d)),
      ds_running := remove1 m (ds_running d) \<rparr>) ?s'"
    using sim(1-3) u by (simp add: simulates_def deliver_finish oc ds_entries_def rest
        del: map_append set_append)
  with step show ?thesis by blast
qed

lemma simulate_db:
  assumes "simulates opts d s" "queue_step True s (s\<lparr> qs_db := db' \<rparr>)"
  shows "\<exists>s'. (queue_step True)\<^sup>*\<^sup>* s s' \<and> simulates opts (d\<lparr> ds_db := db' \<rparr>) s'"
  using assms by (intro exI[of _ "s\<lparr> qs_db := db' \<rparr>"]) (simp add: simulates_def ds_entries_def)

lemma simulate_housekeeping:
  assumes "simulates opts d s"
  shows "\<exists>s'. (queue_step True)\<^sup>*\<^sup>* s s' \<and>
    simulates opts (d\<lparr> ds_db := housekeeping_tick opts (ds_now d) (ds_db d) \<rparr>) s'"
proof -
  let ?s1 = "s\<lparr> qs_db := releaseExpiredLeases (ds_now d) (ds_db d) \<rparr>"
  let ?s2 = "?s1\<lparr> qs_db := housekeeping_tick opts (ds_now d) (ds_db d) \<rparr>"
  have "queue_step True s ?s1"
    using queue_step.ReleaseLeases[of True s] assms by (simp add: simulates_def releaseExpiredLeases_def)
  moreover have "(queue_step True)\<^sup>*\<^sup>* ?s1 ?s2"
    using queue_step.PurgeOld[of True ?s1 "ds_now d - op_RetainSent opts" "ds_now d - op_RetainFailed opts"]
    by (auto simp: housekeeping_tick_def purge_def)
  ultimately have "(queue_step True)\<^sup>*\<^sup>* s ?s2" by (rule converse_rtranclp_into_rtranclp)
  then show ?thesis using assms by (intro exI[of _ ?s2]) (simp add: simulates_def ds_entries_def)
qed

lemma dispatch_simulates:
  assumes "dispatch_step opts sh d d'" "simulates opts d s" "queue_ok (qs_db s)"
  shows "\<exists>s'. (queue_step True)\<^sup>*\<^sup>* s s' \<and> simulates opts d' s'"
proof -
  have same: "qs_db s = ds_db d" "qs_now s = ds_now d" using assms(2) by (simp_all add: simulates_def)
  from assms(1) show ?thesis
  proof cases
    case (DClaim ms db')
    then show ?thesis using simulate_claim[OF assms(2,3)] by blast
  next
    case (DStart m rest)
    then show ?thesis using assms(2)
      by (intro exI[of _ s]) (auto simp: simulates_def ds_entries_def)
  next
    case (DFinish m rd rnd)
    then show ?thesis using simulate_finish[OF assms(2)] by blast
  next
    case DStop
    have "filter (\<lambda>x. fst x \<noteq> op_WorkerID opts) (qs_inflight s) = []"
      using assms(2) by (auto simp: simulates_def ds_entries_def lease_entry_def filter_empty_conv)
    then have "queue_step True s (s\<lparr> qs_inflight := [] \<rparr>)"
      using queue_step.Crash[of True s "op_WorkerID opts"] by simp
    then show ?thesis using DStop assms(2)
      by (intro exI[of _ "s\<lparr> qs_inflight := [] \<rparr>"]) (simp add: simulates_def ds_entries_def)
  next
    case DHousekeeping
    then show ?thesis using simulate_housekeeping[OF assms(2)] by simp
  next
    case (DSubmit m newID body m' db')
    then show ?thesis using queue_step.Submit[of m s newID body m' db' True]
      by (auto simp: same intro: simulate_db[OF assms(2)])
  next
    case (DRequeue i)
    then show ?thesis using simulate_db[OF assms(2) queue_step.RequeueMsg[of True s i]] by (simp add: same)
  next
    case (DHold i)
    then show ?thesis using simulate_db[OF assms(2) queue_step.HoldMsg[of True s i]] by (simp add: same)
  next
    case (DDelete i)
    then show ?thesis using simulate_db[OF assms(2) queue_step.DeleteMsg[of True s i]] by (simp add: same)
  next
    case (DTick dt)
    then have "queue_step True s (s\<lparr> qs_now := qs_now s + dt \<rparr>)" by (intro queue_step.Tick)
    then show ?thesis using DTick assms(2)
      by (intro exI[of _ "s\<lparr> qs_now := qs_now s + dt \<rparr>"]) (simp add: simulates_def ds_entries_def)
  qed
qed

definition dispatch_init :: "dispatcher \<Rightarrow> bool" where
  "dispatch_init d = (queue_ok (ds_db d) \<and> ds_pending d = [] \<and> ds_running d = [])"

lemma dispatch_pool_bound:
  "dispatch_step opts sh d d' \<Longrightarrow> int (length (ds_running d)) \<le> max 0 (op_Workers opts) \<Longrightarrow>
    int (length (ds_running d')) \<le> max 0 (op_Workers opts)"
  by (induction rule: dispatch_step.induct) (auto simp: length_remove1)

lemma queue_reach_trans:
  assumes "queue_reach b s" "(queue_step b)\<^sup>*\<^sup>* s s'"
  shows "queue_reach b s'"
  using assms unfolding queue_reach_def by (meson rtranclp_trans)


section \<open>Scenarios and witnesses\<close>

definition sample_backend :: "send_error option \<Rightarrow> backend" where
  "sample_backend e = \<lparr> bk_Name = ''smtp'', bk_Send = (\<lambda>_. e) \<rparr>"

definition sample_options :: "send_error option \<Rightarrow> Options" where
  "sample_options e =
    \<lparr> op_Transports = [(TransportSMTP, sample_backend e)], op_Workers = 4, op_PollInterval = 5,
      op_LeaseDuration = 300, op_Backoff = sample_backoff,
      op_Budget = \<lparr> bg_PerMinute = 30, bg_MaxConcurrent = 3 \<rparr>,
      op_RetainSent = 0, op_RetainFailed = 0, op_PurgeInterval = 3600, op_WorkerID = ''w'' \<rparr>"

definition sample_submission :: Message where
  "sample_submission = (sample_message ''x'')\<lparr> msg_MailboxID := Some ''m1'', msg_Status := StatusUnset \<rparr>"

definition sample_accepted :: DB where
  "sample_accepted = (case Enqueue 10 ''x'' sample_submission (Some ''Hi'') sample_directory of
     Inl _ \<Rightarrow> empty_db | Inr (_, db) \<Rightarrow> db)"

definition sample_claim :: "Message list \<times> DB" where
  "sample_claim = claim (sample_options None) 4 20 sample_accepted"


definition sample_row :: Message where
  "sample_row = hd (fst sample_claim)"

definition sample_prepared :: TransportMessage where
  "sample_prepared = \<lparr> tm_ID = ''x'', tm_Mailbox = sample_box ''m1'' ''one@x'',
     tm_Credential = sample_credential, tm_Recipients = [''bob@example.org''], tm_Raw = ''Hi'' \<rparr>"

lemma sample_prepare: "prepare (db_reads (snd sample_claim)) sample_row = Inr sample_prepared"
  by code_simp

lemma sample_row_facts:
  "sample_row \<in> set (t_messages (snd sample_claim))" "ownedBy (msg_ID sample_row) ''w'' sample_row"
  "msg_ID sample_row = ''x''" "msg_Attempts sample_row = 0"
  by code_simp+

theorem deliver_outcome_witness:
  "\<exists>r'\<in>set (t_messages (dl_db (deliver (sample_options None) (\<lambda>_. []) (\<lambda>_ _. True)
      (db_reads (snd sample_claim)) 0 30 sample_row (snd sample_claim)))). msg_Status r' = StatusSent"
proof -
  have "map_of (op_Transports (sample_options None)) (mb_Transport (tm_Mailbox sample_prepared))
      = Some (sample_backend None)"
    by (simp add: sample_options_def sample_prepared_def sample_box_def)
  moreover have "ownedBy (msg_ID sample_row) (op_WorkerID (sample_options None)) sample_row"
    using sample_row_facts(2) by (simp add: sample_options_def)
  moreover have "bk_Send (sample_backend None) sample_prepared = None"
    by (simp add: sample_backend_def)
  ultimately show ?thesis
    using deliver_outcome[OF sample_prepare, of "\<lambda>_ _. True" "sample_options None" "sample_backend None"
        sample_row "snd sample_claim" "\<lambda>_. []" 0 30] sample_row_facts(1)
    by (auto simp: Let_def)
qed

theorem deliver_sends_stored_witness:
  "dl_sends (deliver (sample_options None) (\<lambda>_. []) (\<lambda>_ _. True)
      (db_reads (snd sample_claim)) 0 30 sample_row empty_db) = [(''smtp'', sample_prepared)] \<and>
   Body (snd sample_claim) (msg_ID sample_row) = Inr (tm_Raw sample_prepared)"
proof -
  have sends: "dl_sends (deliver (sample_options None) (\<lambda>_. []) (\<lambda>_ _. True)
      (db_reads (snd sample_claim)) 0 30 sample_row empty_db) = [(''smtp'', sample_prepared)]"
    using sample_prepare
    by (simp add: deliver_def sample_options_def sample_backend_def sample_prepared_def sample_box_def)
  then show ?thesis
    using deliver_sends_stored[of "''smtp''" sample_prepared "sample_options None" "\<lambda>_. []" "\<lambda>_ _. True"
        "snd sample_claim" 0 30 sample_row empty_db] by simp
qed

theorem delivered_as_accepted_witness:
  "tm_Raw sample_prepared = ''Hi'' \<and> (''smtp'', sample_prepared) \<in> set (dl_sends
     (deliver (sample_options None) (\<lambda>_. []) (\<lambda>_ _. True) (db_reads (snd sample_claim)) 0 30 sample_row empty_db))"
proof -
  let ?m1 = "enqueueDefaults 10 ''x'' sample_submission"
  have sends: "(''smtp'', sample_prepared) \<in> set (dl_sends (deliver (sample_options None) (\<lambda>_. [])
      (\<lambda>_ _. True) (db_reads (snd sample_claim)) 0 30 sample_row empty_db))"
    using sample_prepare
    by (simp add: deliver_def sample_options_def sample_backend_def sample_prepared_def sample_box_def)
  have "Enqueue 10 ''x'' sample_submission (Some ''Hi'') sample_directory = Inr (?m1, sample_accepted)"
    by code_simp
  moreover have "queue_ok sample_accepted" "queue_ok (snd sample_claim)" by code_simp+
  moreover have "kept sample_accepted (snd sample_claim) ?m1" by code_simp
  moreover have "msg_ID sample_row = msg_ID ?m1" by code_simp
  ultimately show ?thesis
    using delivered_as_accepted[of 10 "''x''" sample_submission "''Hi''" sample_directory ?m1
        sample_accepted "snd sample_claim" sample_row] sends sample_row_facts(1) by blast
qed

theorem last_attempt_final_witness:
  "let opts = (sample_options (Some (OtherError ''timeout'')))\<lparr> op_Backoff := sample_backoff\<lparr> bo_MaxAttempts := 1 \<rparr> \<rparr>
   in \<exists>r'\<in>set (t_messages (dl_db (deliver opts (\<lambda>_. []) (\<lambda>_ _. True)
      (db_reads (snd sample_claim)) 0 30 sample_row (snd sample_claim)))).
      msg_ID r' = ''x'' \<and> msg_Status r' \<in> {StatusSent, StatusFailed}"
proof -
  let ?opts = "(sample_options (Some (OtherError ''timeout'')))\<lparr> op_Backoff := sample_backoff\<lparr> bo_MaxAttempts := 1 \<rparr> \<rparr>"
  have "ownedBy (msg_ID sample_row) (op_WorkerID ?opts) sample_row"
    using sample_row_facts(2) by (simp add: sample_options_def)
  then show ?thesis
    using last_attempt_final[of ?opts sample_row "\<lambda>_ _. True" sample_row "snd sample_claim" "\<lambda>_. []"
        "db_reads (snd sample_claim)" 0 30] sample_row_facts
    by (simp add: Let_def)
qed

section \<open>Where the code departs from its comments\<close>

text \<open>A read of the database that fails for any reason, a lost connection included, is recorded as a
  permanent failure: the message is not retried although retrying could succeed.\<close>

theorem read_error_fails_message:
  assumes "msg_MailboxID m = Some i" "rd_Mailbox rd i = Inl ErrDriver"
    and "list_ex (ownedBy (msg_ID m) (op_WorkerID opts)) (t_messages db)"
  shows "\<exists>r'\<in>set (t_messages (dl_db (deliver opts sh acq rd rnd now m db))).
    msg_ID r' = msg_ID m \<and> msg_Status r' = StatusFailed \<and> msg_LastErrorPermanent r'"
proof -
  obtain r where "r \<in> set (t_messages db)" "ownedBy (msg_ID m) (op_WorkerID opts) r"
    using assms(3) by (auto simp: list_ex_iff)
  then have in_upd: "f r \<in> set (t_messages (updateMessages (ownedBy (msg_ID m) (op_WorkerID opts)) f db))"
    and "msg_ID r = msg_ID m" for f
    by (auto simp: updateMessages_def set_update_where ownedBy_def)
  then show ?thesis
    using assms
    by (auto simp: deliver_def prepare_def recordFailure_def IsPermanent_def NewPermanent_def
        AsFailure_def Let_def after_def Fail_def updateOwned_cases intro!: bexI[OF _ in_upd])
qed

text \<open>With retention set for failed messages only, every sent message older than the clock's
  current instant is purged: an unset retention keeps everything only when both are unset.\<close>

theorem one_retention_purges_the_other:
  assumes "op_RetainSent opts = 0" "op_RetainFailed opts > 0"
    and "msg_Status m = StatusSent" "msg_UpdatedAt m < now"
  shows "m \<notin> set (t_messages (purge opts now db))"
  using assms
  by (auto simp: purge_def Purge_def deleteMessages_def Let_def set_delete_where purgeable_def)

end
