(* ===== verification/App.thy ===== *)
theory App
  imports SmtpSession Crypto Worker
begin

text \<open>
  The backend the SMTP sessions run on: \<^verbatim>\<open>src/internal/app/auth.go\<close> and
  \<^verbatim>\<open>submit.go\<close>, over the account directory and the message queue.

  \<open>app_world\<close> is the database and a counter of the calls made; the clock, the generated
  identifiers and the random salts are functions of that counter in \<open>app_env\<close>, together with
  the key derivation, the number of processors, the CIDR parser and the printer of addresses.  The
  interface locale \<open>smtp_backend\<close> of the sessions is interpreted here on these definitions, and
  the end of the theory composes sessions, backend and delivery.
\<close>

section \<open>Definitions\<close>

record app_env =
  ae_kdf :: idkey
  ae_cpus :: int
  ae_clock :: "nat \<Rightarrow> instant"
  ae_newID :: "nat \<Rightarrow> string"
  ae_salt :: "nat \<Rightarrow> string"
  ae_parse_cidr :: "string \<Rightarrow> IPNet option"
  ae_show_ip :: "ip \<Rightarrow> string"

record app_world =
  aw_db :: DB
  aw_tick :: nat

text \<open>Why a login failed; a session turns every one of them into the same reply.\<close>

datatype auth_failure =
    NoAccount
  | HashUnusable crypto_error
  | WrongPassword
  | AccountDisabled
  | SourceRefused policy_error

definition rehash :: "app_env \<Rightarrow> nat \<Rightarrow> SMTPAccount \<Rightarrow> string \<Rightarrow> DB \<Rightarrow> DB" where
  "rehash ae n account password db =
    (case HashPassword (ae_kdf ae) (ae_cpus ae) (ae_salt ae n) password of
       Inl _ \<Rightarrow> db
     | Inr updated \<Rightarrow>
         (case Accounts_Update (ae_clock ae n) (account\<lparr> acc_PasswordHash := updated \<rparr>) db of
            Inl _ \<Rightarrow> db
          | Inr db' \<Rightarrow> db'))"

text \<open>The checks of \<^verbatim>\<open>Authenticate\<close> on one state of the database: the account, the policy
  view of it, and whether its hash is out of date.  The verification of the decoy hash for an
  unknown username takes time and decides nothing.\<close>

definition checkCredentials ::
  "app_env \<Rightarrow> string \<Rightarrow> string \<Rightarrow> ip option \<Rightarrow> DB \<Rightarrow> (auth_failure, SMTPAccount \<times> Account \<times> bool) result" where
  "checkCredentials ae username password remote db =
    (case Accounts_GetByUsername db username of
       Inl _ \<Rightarrow> Inl NoAccount
     | Inr account \<Rightarrow>
         (case VerifyPassword (ae_kdf ae) (ae_cpus ae) (acc_PasswordHash account) password of
            Inl e \<Rightarrow> Inl (HashUnusable e)
          | Inr (match, needsRehash) \<Rightarrow>
              if \<not> match then Inl WrongPassword
              else if \<not> acc_Enabled account then Inl AccountDisabled
              else
                (let policyAccount = AccountFromStore account (AllowedSenders db (acc_ID account)) in
                 (case CheckSourceAddress (ae_parse_cidr ae) policyAccount remote of
                    Some e \<Rightarrow> Inl (SourceRefused e)
                  | None \<Rightarrow> Inr (account, policyAccount, needsRehash)))))"

definition Authenticate :: "app_env \<Rightarrow> (auth_failure, app_world) Authenticator" where
  "Authenticate ae username password remote w =
    (let n = aw_tick w; db = aw_db w in
     (case checkCredentials ae username password remote db of
        Inl e \<Rightarrow> (Inl e, w\<lparr> aw_tick := n + 1 \<rparr>)
      | Inr (account, policyAccount, needsRehash) \<Rightarrow>
          (let mailboxes = ListForAccount db (acc_ID account);
               db1 = (if needsRehash then rehash ae n account password db else db);
               db2 = TouchLastUsed (acc_ID account) (ae_clock ae n) db1
           in (Inr \<lparr> id_AccountID = acc_ID account, id_Username = acc_Username account,
                     id_Account = policyAccount, id_Mailboxes = mailboxes \<rparr>,
               \<lparr> aw_db = db2, aw_tick = n + 1 \<rparr>))))"

definition clientIP :: "app_env \<Rightarrow> Submission \<Rightarrow> string" where
  "clientIP ae sub = (case sub_ClientIP sub of None \<Rightarrow> '''' | Some i \<Rightarrow> ae_show_ip ae i)"

text \<open>The row \<^verbatim>\<open>Submit\<close> builds; the fields it leaves at their zero value are the last lines.\<close>

definition submission_row :: "app_env \<Rightarrow> Submission \<Rightarrow> Message" where
  "submission_row ae sub =
    \<lparr> msg_Origin = '''', msg_ID = '''', msg_SMTPAccountID = NullString (id_AccountID (sub_Identity sub)),
      msg_MailboxID = NullString (mb_ID (sub_Mailbox sub)), msg_AccountUsername = id_Username (sub_Identity sub),
      msg_MailboxAddress = mb_Address (sub_Mailbox sub), msg_EnvelopeFrom = ad_Original (sub_EnvelopeFrom sub),
      msg_HeaderFrom = ad_Original (sub_HeaderFrom sub), msg_Recipients = sub_Recipients sub, msg_RecipientCount = 0,
      msg_SizeBytes = int (length (sub_Raw sub)), msg_Subject = sub_Subject sub, msg_MessageID = sub_MessageID sub,
      msg_Status = StatusUnset, msg_Attempts = 0, msg_NextAttemptAt = zero_time, msg_LeaseOwner = None,
      msg_LeaseExpiresAt = None, msg_LastError = '''', msg_LastErrorCode = '''', msg_LastErrorPermanent = False,
      msg_ClientIP = clientIP ae sub, msg_BlobRef = '''', msg_ReceivedAt = sub_ReceivedAt sub, msg_SentAt = None,
      msg_UpdatedAt = zero_time \<rparr>"

definition app_Submit :: "app_env \<Rightarrow> (store_error, app_world) Submitter" where
  "app_Submit ae sub w =
    (let n = aw_tick w in
     (case Enqueue (ae_clock ae n) (ae_newID ae n) (submission_row ae sub) (Some (sub_Raw sub)) (aw_db w) of
        Inl e \<Rightarrow> (Inl e, w\<lparr> aw_tick := n + 1 \<rparr>)
      | Inr (m, db') \<Rightarrow> (Inr (msg_ID m), \<lparr> aw_db = db', aw_tick = n + 1 \<rparr>)))"

section \<open>What authentication changes\<close>

lemma rehash_tables:
  "t_messages (rehash ae n a p db) = t_messages db \<and> t_blobs (rehash ae n a p db) = t_blobs db \<and>
   t_mailboxes (rehash ae n a p db) = t_mailboxes db \<and> t_account_mailboxes (rehash ae n a p db) = t_account_mailboxes db \<and>
   t_allowed_senders (rehash ae n a p db) = t_allowed_senders db"
  by (auto simp: rehash_def Accounts_Update_def split: sum.splits if_splits)

lemma Authenticate_tables:
  "t_messages (aw_db (snd (Authenticate ae u p ip w))) = t_messages (aw_db w) \<and>
   t_blobs (aw_db (snd (Authenticate ae u p ip w))) = t_blobs (aw_db w)"
  by (auto simp: Authenticate_def Let_def TouchLastUsed_def rehash_tables split: sum.split prod.split)

lemma directory_ok_rehash: "directory_ok db \<Longrightarrow> directory_ok (rehash ae n a p db)"
  by (auto simp: rehash_def split: sum.split intro: directory_ok_Accounts_Update)

definition world_ok :: "app_world \<Rightarrow> bool" where
  "world_ok w = (queue_ok (aw_db w) \<and> directory_ok (aw_db w))"

lemma world_ok_Authenticate: "world_ok w \<Longrightarrow> world_ok (snd (Authenticate ae u p ip w))"
proof -
  assume ok: "world_ok w"
  have "directory_ok (aw_db (snd (Authenticate ae u p ip w)))"
    using ok by (auto simp: world_ok_def Authenticate_def Let_def split: sum.split prod.split
        intro!: directory_ok_TouchLastUsed directory_ok_rehash)
  moreover have "queue_ok (aw_db (snd (Authenticate ae u p ip w)))"
    using ok Authenticate_tables[of ae u p ip w] by (simp add: world_ok_def queue_ok_def)
  ultimately show ?thesis by (simp add: world_ok_def)
qed

section \<open>The backend contract\<close>

definition app_stored :: "app_world \<Rightarrow> string \<Rightarrow> Submission \<Rightarrow> bool" where
  "app_stored w i sub =
    (list_ex (\<lambda>m. msg_ID m = i \<and> msg_Status m = StatusQueued \<and> msg_Recipients m = sub_Recipients sub \<and>
        msg_SMTPAccountID m = NullString (id_AccountID (sub_Identity sub)) \<and>
        msg_MailboxID m = NullString (mb_ID (sub_Mailbox sub)) \<and>
        msg_HeaderFrom m = ad_Original (sub_HeaderFrom sub)) (t_messages (aw_db w)) \<and>
     Body (aw_db w) i = Inr (sub_Raw sub))"

definition app_granted :: "app_env \<Rightarrow> string \<Rightarrow> ip option \<Rightarrow> Identity \<Rightarrow> bool" where
  "app_granted ae username remote identity =
    (id_Username identity = username \<and> pa_Enabled (id_Account identity) \<and> pa_ID (id_Account identity) = id_AccountID identity \<and>
     CheckSourceAddress (ae_parse_cidr ae) (id_Account identity) remote = None)"

lemma checkCredentials_Inr:
  "checkCredentials ae u p remote db = Inr (account, pol, needs) \<longleftrightarrow>
    Accounts_GetByUsername db u = Inr account \<and>
    VerifyPassword (ae_kdf ae) (ae_cpus ae) (acc_PasswordHash account) p = Inr (True, needs) \<and>
    acc_Enabled account \<and> pol = AccountFromStore account (AllowedSenders db (acc_ID account)) \<and>
    CheckSourceAddress (ae_parse_cidr ae) pol remote = None"
  by (auto simp: checkCredentials_def Let_def split: sum.splits if_splits option.splits)

lemma GetByUsername_D: "Accounts_GetByUsername db u = Inr a \<Longrightarrow> a \<in> set (t_accounts db) \<and> acc_Username a = u"
  by (auto simp: Accounts_GetByUsername_def split: option.splits dest!: select_one_Some_D)

lemma Authenticate_granted:
  assumes "fst (Authenticate ae u p remote w) = Inr identity"
  shows "app_granted ae u remote identity"
proof -
  obtain account pol needs where c: "checkCredentials ae u p remote (aw_db w) = Inr (account, pol, needs)"
    and i: "identity = \<lparr> id_AccountID = acc_ID account, id_Username = acc_Username account, id_Account = pol,
      id_Mailboxes = ListForAccount (aw_db w) (acc_ID account) \<rparr>"
    using assms by (auto simp: Authenticate_def Let_def split: sum.splits prod.splits)
  then show ?thesis
    using GetByUsername_D[of "aw_db w" u account] by (auto simp: app_granted_def checkCredentials_Inr AccountFromStore_def)
qed

lemma Enqueue_row:
  assumes "Enqueue now newID m0 (Some body) db = Inr (m, db')"
  shows "m = enqueueDefaults now newID m0" "t_messages db' = t_messages db @ [m]"
    "t_blobs db' = t_blobs db @ [(msg_ID m, body)]" "msg_ID m \<notin> fst ` set (t_blobs db)"
    "t_accounts db' = t_accounts db"
  using assms by (auto simp: Enqueue_def enqueueTx_def Let_def list_ex_iff split: if_splits)

lemma Enqueue_Body:
  assumes "Enqueue now newID m0 (Some body) db = Inr (m, db')"
  shows "Body db' (msg_ID m) = Inr body" "Body db i = Inr c \<Longrightarrow> Body db' i = Inr c"
proof -
  have "select_one (\<lambda>b. fst b = msg_ID m) (t_blobs db) = None"
    using Enqueue_row(4)[OF assms] by (force simp: select_one_None_iff)
  then show "Body db' (msg_ID m) = Inr body" using Enqueue_row(3)[OF assms] by (simp add: Body_def select_one_snoc)
  show "Body db i = Inr c \<Longrightarrow> Body db' i = Inr c"
    using Enqueue_row(3)[OF assms] by (auto simp: Body_def select_one_snoc split: option.splits)
qed

lemma world_ok_Submit:
  assumes "world_ok w"
  shows "world_ok (snd (app_Submit ae sub w))"
proof -
  have "fresh_submission (submission_row ae sub)" by (simp add: fresh_submission_def submission_row_def)
  then show ?thesis
    using assms by (auto simp: app_Submit_def world_ok_def Let_def split: sum.split
        intro: queue_ok_Enqueue directory_ok_Enqueue)
qed

lemma app_Submit_stored:
  assumes "fst (app_Submit ae sub w) = Inr i"
  shows "app_stored (snd (app_Submit ae sub w)) i sub"
proof -
  obtain m db' where e: "Enqueue (ae_clock ae (aw_tick w)) (ae_newID ae (aw_tick w)) (submission_row ae sub)
      (Some (sub_Raw sub)) (aw_db w) = Inr (m, db')" and i: "i = msg_ID m"
    using assms by (auto simp: app_Submit_def Let_def split: sum.splits)
  show ?thesis
    using Enqueue_row(1,2)[OF e] Enqueue_Body(1)[OF e] e i
    by (auto simp: app_stored_def app_Submit_def Let_def submission_row_def enqueueDefaults_def list_ex_iff)
qed

lemma app_Submit_keeps:
  assumes "app_stored w i sub'"
  shows "app_stored (snd (app_Submit ae sub w)) i sub'"
proof (cases "Enqueue (ae_clock ae (aw_tick w)) (ae_newID ae (aw_tick w)) (submission_row ae sub) (Some (sub_Raw sub)) (aw_db w)")
  case (Inl e)
  then show ?thesis using assms by (simp add: app_stored_def app_Submit_def Let_def)
next
  case (Inr r)
  obtain m db' where e: "Enqueue (ae_clock ae (aw_tick w)) (ae_newID ae (aw_tick w)) (submission_row ae sub)
      (Some (sub_Raw sub)) (aw_db w) = Inr (m, db')" using Inr by (cases r) auto
  show ?thesis
    using assms Enqueue_row(2)[OF e] Enqueue_Body(2)[OF e] e
    by (simp add: app_stored_def app_Submit_def Let_def)
qed

interpretation app: smtp_backend "Authenticate ae" "app_Submit ae" app_stored world_ok "app_granted ae" for ae
proof
  show "app_granted ae u ip identity" if "fst (Authenticate ae u p ip w) = Inr identity" for w u p ip identity
    using that by (rule Authenticate_granted)
  show "app_stored (snd (Authenticate ae u p ip w)) i sub" if "app_stored w i sub" for w i sub u p ip
    using that Authenticate_tables[of ae u p ip w] by (simp add: app_stored_def Body_def)
qed (simp_all add: world_ok_Authenticate world_ok_Submit app_Submit_stored app_Submit_keeps)

section \<open>Accepting mail\<close>

lemma session_accepted:
  assumes "session_run (Authenticate ae) (app_Submit ae) ev sv remote tls w (s, m, w', calls)" "world_ok w"
    and "SubmitCall sub (Some i) \<in> set calls"
  shows "app_stored w' i sub \<and> world_ok w' \<and> authorised ev sub \<and>
    (\<exists>username. app_granted ae username (remoteIP (ev_parse_ip ev) remote) (sub_Identity sub))"
proof -
  obtain before later where calls: "calls = before @ SubmitCall sub (Some i) # later"
    using split_list[OF assms(3)] by blast
  have "submit_ok ev sv (remoteIP (ev_parse_ip ev) remote) before sub"
    using conn_okD(2)[OF session_run_ok[OF assms(1)]] unfolding calls by (rule calls_okD)
  then obtain u where "AuthCall u (remoteIP (ev_parse_ip ev) remote) (Some (sub_Identity sub)) \<in> set calls" "authorised ev sub"
    by (auto simp: submit_ok_def calls)
  then show ?thesis
    using app.run_stored[OF assms] app.run_valid[OF assms(1,2)] app.run_granted[OF assms(1,2)] by blast
qed

text \<open>C3: What the client is told is what happened.  Whatever a client does on a connection over the real
  backend, every submission that was answered with success is in the queue when the connection ends, with
  its recipients, its mailbox and its exact bytes; the account behind it was enabled, its network
  restriction admits the client's address, and the sender policy allows the message; the queue and the
  directory keep their invariants.\<close>

theorem accepted_is_stored:
  assumes "session_run (Authenticate ae) (app_Submit ae) ev sv remote tls w (s, m, w', calls)" "world_ok w"
    and "SubmitCall sub (Some i) \<in> set calls"
  shows "app_stored w' i sub \<and> world_ok w' \<and> authorised ev sub \<and>
    (\<exists>username. app_granted ae username (remoteIP (ev_parse_ip ev) remote) (sub_Identity sub))"
  using assms by (rule session_accepted)

section \<open>Upgrading hashes\<close>

definition same_account :: "SMTPAccount \<Rightarrow> SMTPAccount \<Rightarrow> bool" where
  "same_account a b =
    (acc_ID b = acc_ID a \<and> acc_Username b = acc_Username a \<and> acc_Enabled b = acc_Enabled a \<and>
     acc_FromPolicy b = acc_FromPolicy a \<and> acc_DefaultMailboxID b = acc_DefaultMailboxID a \<and>
     acc_AllowCIDRs b = acc_AllowCIDRs a)"

lemma same_account_policy: "same_account a b \<Longrightarrow> AccountFromStore b al = AccountFromStore a al"
  by (simp add: same_account_def AccountFromStore_def)

lemma GetByUsername_unique:
  "directory_ok db \<Longrightarrow> a \<in> set (t_accounts db) \<Longrightarrow> Accounts_GetByUsername db (acc_Username a) = Inr a"
  using select_one_unique[of acc_Username "t_accounts db" a]
  by (simp add: Accounts_GetByUsername_def directory_ok_def keys_ok_def)

lemma rehash_row:
  assumes "a \<in> set (t_accounts db)"
  shows "\<exists>b\<in>set (t_accounts (rehash ae n a p db)). same_account a b \<and>
    (acc_PasswordHash b = acc_PasswordHash a \<or>
     HashPassword (ae_kdf ae) (ae_cpus ae) (ae_salt ae n) p = Inr (acc_PasswordHash b))"
proof (cases "HashPassword (ae_kdf ae) (ae_cpus ae) (ae_salt ae n) p")
  case (Inl e)
  then show ?thesis using assms by (auto simp: rehash_def same_account_def)
next
  case (Inr h)
  let ?a = "a\<lparr> acc_PasswordHash := h \<rparr>"
  show ?thesis
  proof (cases "Accounts_Update (ae_clock ae n) ?a db")
    case (Inl e)
    then show ?thesis using assms Inr by (auto simp: rehash_def same_account_def)
  next
    case upd: (Inr db')
    let ?b = "?a\<lparr> acc_UpdatedAt := ae_clock ae n \<rparr>"
    have "?b \<in> set (t_accounts db')"
      using upd assms by (auto simp: Accounts_Update_def set_update_where split: if_splits intro!: exI[of _ a])
    then show ?thesis using Inr upd by (auto simp: rehash_def same_account_def intro!: bexI[of _ ?b])
  qed
qed

lemma TouchLastUsed_row:
  "a \<in> set (t_accounts db) \<Longrightarrow> \<exists>b\<in>set (t_accounts (TouchLastUsed i t db)). same_account a b \<and> acc_PasswordHash b = acc_PasswordHash a"
  by (rule bexI[of _ "if acc_ID a = i then a\<lparr> acc_LastUsedAt := Some t \<rparr> else a"])
    (auto simp: TouchLastUsed_def update_where_def same_account_def)

lemma HashPassword_verifies:
  assumes "HashPassword kdf cpus salt p = Inr h" "\<And>pw s t m q n. length (kdf pw s t m q n) = nat n"
    and "length salt = 16" "1 \<le> cpus"
  shows "VerifyPassword kdf cpus h p = Inr (True, False)"
proof -
  have "params_ok (DefaultArgon2Params cpus)" using assms(4) by (simp add: params_ok_def DefaultArgon2Params_def)
  moreover have "salt \<noteq> []" using assms(3) by auto
  moreover have "int (length p) \<le> MaxPasswordLen"
    using assms(1) by (auto simp: HashPassword_def HashPasswordWith_def split: if_splits)
  ultimately show ?thesis
    using hash_verifies[OF assms(1)[unfolded HashPassword_def], of p] assms(2,3)
    by (auto simp: weakerThanDefault_def DefaultArgon2Params_def)
qed

lemma rehash_defaults:
  assumes "directory_ok db" "a \<in> set (t_accounts db)"
  shows "map (\<lambda>r. (acc_ID r, acc_DefaultMailboxID r)) (t_accounts (rehash ae n a p db)) =
    map (\<lambda>r. (acc_ID r, acc_DefaultMailboxID r)) (t_accounts db)"
proof -
  have "r = a" if "r \<in> set (t_accounts db)" "acc_ID r = acc_ID a" for r
    using that assms unique_keyD[of acc_ID "t_accounts db" r a] by (simp add: directory_ok_def keys_ok_def)
  then show ?thesis by (auto simp: rehash_def Accounts_Update_def update_where_def split: sum.split)
qed

lemma TouchLastUsed_defaults:
  "map (\<lambda>r. (acc_ID r, acc_DefaultMailboxID r)) (t_accounts (TouchLastUsed i t db)) =
    map (\<lambda>r. (acc_ID r, acc_DefaultMailboxID r)) (t_accounts db)"
  by (auto simp: TouchLastUsed_def update_where_def)

lemma TouchLastUsed_tables:
  "t_account_mailboxes (TouchLastUsed i t db) = t_account_mailboxes db" "t_mailboxes (TouchLastUsed i t db) = t_mailboxes db"
  "t_allowed_senders (TouchLastUsed i t db) = t_allowed_senders db"
  by (simp_all add: TouchLastUsed_def)

lemma linkedMailbox_defaults:
  assumes "map (\<lambda>r. (acc_ID r, acc_DefaultMailboxID r)) (t_accounts db') = map (\<lambda>r. (acc_ID r, acc_DefaultMailboxID r)) (t_accounts db)"
    and "t_account_mailboxes db' = t_account_mailboxes db"
  shows "linkedMailbox db' = linkedMailbox db"
proof -
  have *: "list_ex (\<lambda>r. acc_ID r = x \<and> acc_DefaultMailboxID r = Some y) (t_accounts d) =
      list_ex (\<lambda>q. q = (x, Some y)) (map (\<lambda>r. (acc_ID r, acc_DefaultMailboxID r)) (t_accounts d))" for d x y
    by (auto simp: list_ex_iff)
  show ?thesis using assms by (simp add: fun_eq_iff linkedMailbox_def *)
qed

text \<open>C27: Raising the hashing cost locks nobody out.  After a successful login, which may have replaced
  the stored hash by one with the current parameters, the same credentials from the same address log in
  again and give the same identity.\<close>

theorem login_repeatable:
  assumes "directory_ok (aw_db w)" "fst (Authenticate ae u p remote w) = Inr identity"
    and "\<And>pw s t m q n. length (ae_kdf ae pw s t m q n) = nat n" "\<And>n. length (ae_salt ae n) = 16" "1 \<le> ae_cpus ae"
  shows "fst (Authenticate ae u p remote (snd (Authenticate ae u p remote w))) = Inr identity"
proof -
  let ?db = "aw_db w" and ?w' = "snd (Authenticate ae u p remote w)" and ?n = "aw_tick w"
  obtain a pol needs where c: "checkCredentials ae u p remote ?db = Inr (a, pol, needs)"
    using assms(2) by (auto simp: Authenticate_def Let_def split: sum.splits prod.splits)
  define db1 where "db1 = (if needs then rehash ae ?n a p ?db else ?db)"
  have w': "aw_db ?w' = TouchLastUsed (acc_ID a) (ae_clock ae ?n) db1"
    and i: "identity = \<lparr> id_AccountID = acc_ID a, id_Username = acc_Username a, id_Account = pol,
      id_Mailboxes = ListForAccount ?db (acc_ID a) \<rparr>"
    using assms(2) c by (auto simp: Authenticate_def Let_def db1_def)
  note ok = c[unfolded checkCredentials_Inr]
  have a: "a \<in> set (t_accounts ?db)" "acc_Username a = u" using ok GetByUsername_D by blast+
  obtain b where b: "b \<in> set (t_accounts db1)" "same_account a b"
    "acc_PasswordHash b = acc_PasswordHash a \<or> HashPassword (ae_kdf ae) (ae_cpus ae) (ae_salt ae ?n) p = Inr (acc_PasswordHash b)"
  proof (cases needs)
    case True
    then show ?thesis using rehash_row[OF a(1), of ae ?n p] that unfolding db1_def by auto
  next
    case False
    then show ?thesis using a(1) that[of a] unfolding db1_def by (simp add: same_account_def)
  qed
  obtain b' where b': "b' \<in> set (t_accounts (aw_db ?w'))" "same_account b b'" "acc_PasswordHash b' = acc_PasswordHash b"
    using TouchLastUsed_row[OF b(1)] unfolding w' by blast
  have same: "same_account a b'" using b(2) b'(2) by (simp add: same_account_def)
  have "directory_ok (aw_db ?w')"
    unfolding w' db1_def using assms(1) by (simp add: directory_ok_TouchLastUsed directory_ok_rehash)
  then have get: "Accounts_GetByUsername (aw_db ?w') u = Inr b'"
    using GetByUsername_unique[OF _ b'(1)] same a(2) by (simp add: same_account_def)
  have ver: "\<exists>needs'. VerifyPassword (ae_kdf ae) (ae_cpus ae) (acc_PasswordHash b') p = Inr (True, needs')"
    using ok b(3) b'(3) HashPassword_verifies assms(3-5) by metis
  have "linkedMailbox (aw_db ?w') = linkedMailbox ?db"
    unfolding w' db1_def using rehash_defaults[OF assms(1) a(1), of ae ?n p]
    by (intro linkedMailbox_defaults) (auto simp: TouchLastUsed_defaults TouchLastUsed_tables rehash_tables)
  then have tabs: "AllowedSenders (aw_db ?w') = AllowedSenders ?db" "ListForAccount (aw_db ?w') = ListForAccount ?db"
    unfolding w' db1_def by (simp_all add: fun_eq_iff AllowedSenders_def ListForAccount_def TouchLastUsed_tables rehash_tables)
  obtain needs' where "checkCredentials ae u p remote (aw_db ?w') = Inr (b', pol, needs')"
    using get ver ok same same_account_policy[OF same] by (auto simp: checkCredentials_Inr tabs same_account_def)
  then show ?thesis using i same by (simp add: Authenticate_def[of ae u p remote ?w'] Let_def tabs same_account_def)
qed

text \<open>The upgrade writes back the whole row that was read before the password was verified.  If an
  operator disables the account in the meantime, the write enables it again.\<close>

theorem rehash_undoes_disable:
  assumes "account \<in> set (t_accounts db)" "acc_Enabled account"
    and "Accounts_Update now (account\<lparr> acc_Enabled := False \<rparr>) db = Inr db1"
    and "HashPassword (ae_kdf ae) (ae_cpus ae) (ae_salt ae n) p = Inr h"
  shows "\<exists>b\<in>set (t_accounts (rehash ae n account p db1)). acc_ID b = acc_ID account \<and> acc_Enabled b"
proof -
  let ?a = "account\<lparr> acc_PasswordHash := h \<rparr>"
  have db1: "t_mailboxes db1 = t_mailboxes db" "t_accounts db1 = update_where (\<lambda>r. acc_ID r = acc_ID account)
      (\<lambda>r. account\<lparr> acc_Enabled := False, acc_CreatedAt := acc_CreatedAt r, acc_LastUsedAt := acc_LastUsedAt r, acc_UpdatedAt := now \<rparr>)
      (t_accounts db)" "account_check account" "mailbox_exists db (acc_DefaultMailboxID account)"
    "\<not> list_ex (\<lambda>r. acc_ID r \<noteq> acc_ID account \<and> acc_Username r = acc_Username account) (t_accounts db)"
    using assms(3) by (auto simp: Accounts_Update_def account_check_def split: if_splits)
  have "account\<lparr> acc_Enabled := False, acc_UpdatedAt := now \<rparr> \<in> set (t_accounts db1)"
    unfolding db1(2) set_update_where using assms(1) by (auto intro!: exI[of _ account])
  then have "\<exists>r\<in>set (t_accounts db1). acc_ID r = acc_ID account" by (rule rev_bexI) simp
  then have ids: "list_ex (\<lambda>r. acc_ID r = acc_ID account) (t_accounts db1)"
    "\<not> list_ex (\<lambda>r. acc_ID r \<noteq> acc_ID account \<and> acc_Username r = acc_Username account) (t_accounts db1)"
    using db1(5) by (auto simp: db1(2) list_ex_iff set_update_where)
  moreover have "account_check ?a" "mailbox_exists db1 (acc_DefaultMailboxID ?a)"
    using db1(1,3,4) by (simp_all add: account_check_def mailbox_exists_def split: option.splits)
  ultimately have "\<exists>db2. Accounts_Update (ae_clock ae n) ?a db1 = Inr db2"
    by (simp add: Accounts_Update_def)
  then obtain db2 where u: "Accounts_Update (ae_clock ae n) ?a db1 = Inr db2" ..
  obtain r where "r \<in> set (t_accounts db1)" "acc_ID r = acc_ID account" using ids(1) by (auto simp: list_ex_iff)
  then have "?a\<lparr> acc_CreatedAt := acc_CreatedAt r, acc_LastUsedAt := acc_LastUsedAt r, acc_UpdatedAt := ae_clock ae n \<rparr> \<in> set (t_accounts db2)"
    using u by (auto simp: Accounts_Update_def set_update_where split: if_splits)
  then have "\<exists>b\<in>set (t_accounts db2). acc_ID b = acc_ID account \<and> acc_Enabled b"
    by (rule rev_bexI) (simp add: assms(2))
  then show ?thesis using assms(4) u by (simp add: rehash_def)
qed

section \<open>Scenarios and witnesses\<close>

definition sample_app_env :: app_env where
  "sample_app_env = \<lparr> ae_kdf = toy_kdf, ae_cpus = 4, ae_clock = (\<lambda>n. 100 + int n), ae_newID = (\<lambda>n. ''q'' @ Itoa n),
     ae_salt = (\<lambda>_. ''0123456789abcdef''), ae_parse_cidr = (\<lambda>_. None), ae_show_ip = (\<lambda>_. ''192.0.2.1'') \<rparr>"

definition sample_hash :: string where
  "sample_hash = format_hash (DefaultArgon2Params 4) ''0123456789abcdef''
     (toy_kdf ''pw'' ''0123456789abcdef'' 3 (64 * 1024) 2 32)"

lemma sample_hash_verifies: "VerifyPassword toy_kdf 4 sample_hash ''pw'' = Inr (True, False)"
proof (rule HashPassword_verifies)
  show "HashPassword toy_kdf 4 ''0123456789abcdef'' ''pw'' = Inr sample_hash"
    by (simp add: HashPassword_def HashPasswordWith_def sample_hash_def DefaultArgon2Params_def MaxPasswordLen_def)
qed (simp_all add: toy_kdf_def)

definition sample_account :: SMTPAccount where
  "sample_account = \<lparr> acc_ID = ''a1'', acc_Username = ''printer'', acc_PasswordHash = sample_hash, acc_Description = '''',
     acc_DefaultMailboxID = None, acc_FromPolicy = FromPolicyReject, acc_AllowCIDRs = [], acc_RateLimitPerMin = None,
     acc_Enabled = True, acc_LastUsedAt = None, acc_ManagedBy = ManagedByUI, acc_CreatedAt = 0, acc_UpdatedAt = 0 \<rparr>"

definition sample_app_db :: DB where
  "sample_app_db = empty_db\<lparr>
     t_credentials := [\<lparr> cred_ID = ''c1'', cred_Name = ''tenant'', cred_TenantID = '''', cred_ClientID = '''', cred_AuthType = AuthTypeSecret,
       cred_ClientSecretEnc = '''', cred_CertificatePEM = '''', cred_CertificateKeyEnc = '''', cred_CertificateThumbprint = '''',
       cred_AuthorityHost = '''', cred_ExpiresAt = None, cred_ManagedBy = ManagedByUI, cred_CreatedAt = 0, cred_UpdatedAt = 0 \<rparr>],
     t_mailboxes := [sample_mailbox], t_accounts := [sample_account], t_account_mailboxes := [(''a1'', ''m1'')],
     t_allowed_senders := [\<lparr> as_ID = ''s1'', as_SMTPAccountID = ''a1'', as_Pattern = ''*@shop.example.com'', as_CreatedAt = 0 \<rparr>] \<rparr>"

definition sample_world :: "nat \<Rightarrow> app_world" where
  "sample_world n = \<lparr> aw_db = sample_app_db, aw_tick = n \<rparr>"

definition sample_world_used :: app_world where
  "sample_world_used = \<lparr> aw_db = TouchLastUsed ''a1'' 105 sample_app_db, aw_tick = 6 \<rparr>"

lemma sample_logins:
  "Authenticate sample_app_env ''nobody'' ''pw'' (Some [192, 0, 2, 1]) (sample_world 4) = (Inl NoAccount, sample_world 5)"
  "Authenticate sample_app_env ''printer'' ''pw'' (Some [192, 0, 2, 1]) (sample_world 5) = (Inr sample_identity, sample_world_used)"
proof -
  have get: "Accounts_GetByUsername sample_app_db ''printer'' = Inr sample_account"
    "Accounts_GetByUsername sample_app_db ''nobody'' = Inl ErrNotFound"
    by (simp_all add: Accounts_GetByUsername_def sample_app_db_def sample_account_def select_one_def translateError_def)
  show "Authenticate sample_app_env ''nobody'' ''pw'' (Some [192, 0, 2, 1]) (sample_world 4) = (Inl NoAccount, sample_world 5)"
    by (simp add: Authenticate_def checkCredentials_def get sample_world_def)
  have "AccountFromStore sample_account (AllowedSenders sample_app_db ''a1'') = id_Account sample_identity"
    by (simp add: AccountFromStore_def AllowedSenders_def sample_app_db_def sample_account_def sample_identity_def sample_input_def
        null_string_def)
  moreover have "ListForAccount sample_app_db ''a1'' = [sample_mailbox]"
    by (simp add: ListForAccount_def linkedMailbox_def sample_app_db_def sample_mailbox_def)
  ultimately show "Authenticate sample_app_env ''printer'' ''pw'' (Some [192, 0, 2, 1]) (sample_world 5) = (Inr sample_identity, sample_world_used)"
    using sample_hash_verifies
    by (simp add: Authenticate_def checkCredentials_def get sample_world_def sample_world_used_def sample_app_env_def
        CheckSourceAddress_def sample_account_def sample_identity_def sample_input_def Let_def)
qed

lemma sample_world_ok: "world_ok (sample_world n)"
proof -
  have "queue_ok sample_app_db" by (simp add: queue_ok_def sample_app_db_def empty_db_def unique_key_def)
  moreover have "directory_ok sample_app_db"
    by (simp add: directory_ok_def keys_ok_def refs_ok_def sample_app_db_def empty_db_def unique_key_def keys_of_def opt_keys_def
        sample_mailbox_def sample_account_def)
  ultimately show ?thesis by (simp add: world_ok_def sample_world_def)
qed

theorem login_repeatable_witness:
  "fst (Authenticate sample_app_env ''printer'' ''pw'' (Some [192, 0, 2, 1]) (sample_world 5)) = Inr sample_identity \<and>
   fst (Authenticate sample_app_env ''printer'' ''pw'' (Some [192, 0, 2, 1]) sample_world_used) = Inr sample_identity"
proof -
  have "directory_ok (aw_db (sample_world 5))" using sample_world_ok by (simp add: world_ok_def)
  moreover have "length (ae_kdf sample_app_env pw s t m q n) = nat n" for pw s t m q n
    by (simp add: sample_app_env_def toy_kdf_def)
  moreover have "length (ae_salt sample_app_env n) = 16" "1 \<le> ae_cpus sample_app_env" for n
    by (simp_all add: sample_app_env_def)
  ultimately show ?thesis
    using login_repeatable[of "sample_world 5" sample_app_env "''printer''" "''pw''" "Some [192, 0, 2, 1]" sample_identity]
    by (simp add: sample_logins)
qed

lemma sample_submit_ok: "\<exists>i w. app_Submit sample_app_env sample_sub sample_world_used = (Inr i, w)"
proof -
  have "foreignKeysHold (aw_db sample_world_used) (enqueueDefaults 106 ''q6'' (submission_row sample_app_env sample_sub))"
    by (simp add: foreignKeysHold_def enqueueDefaults_def submission_row_def sample_sub_parts sample_identity_def sample_mailbox_def
        NullString_def sample_world_used_def TouchLastUsed_def update_where_def sample_app_db_def sample_account_def)
  moreover have "Itoa 6 = ''6''" by code_simp
  ultimately show ?thesis
    by (auto simp: app_Submit_def Enqueue_def enqueueTx_def Let_def sample_world_used_def sample_app_env_def TouchLastUsed_def
        sample_app_db_def empty_db_def)
qed

lemma sample_app_run:
  obtains s m w calls i where
    "session_run (Authenticate sample_app_env) (app_Submit sample_app_env) sample_env sample_server sample_peer True (sample_world 4)
       (s, m, w, calls)"
    "SubmitCall sample_sub (Some i) \<in> set calls" "app_Submit sample_app_env sample_sub sample_world_used = (Inr i, w)"
proof -
  let ?step = "session_step (Authenticate sample_app_env) (app_Submit sample_app_env) sample_env sample_server"
  let ?calls = "[AuthCall ''nobody'' (Some [192, 0, 2, 1]) None, AuthCall ''printer'' (Some [192, 0, 2, 1]) (Some sample_identity)]"
  obtain i w where sub: "app_Submit sample_app_env sample_sub sample_world_used = (Inr i, w)" using sample_submit_ok by blast
  have ip: "remoteIP (ev_parse_ip sample_env) sample_peer = Some [192, 0, 2, 1]" by code_simp
  let ?c0 = "(sample_start, False, sample_world 4, [])"
  let ?c1 = "(sample_failed, False, sample_world 5, take 1 ?calls)"
  let ?c2 = "(sample_authed, False, sample_world_used, ?calls)"
  let ?c3 = "(sample_mailed, True, sample_world_used, ?calls)"
  let ?c4 = "(sample_ready, True, sample_world_used, ?calls)"
  let ?c5 = "(sample_ready, True, w, ?calls @ [SubmitCall sample_sub (Some i)])"
  have "exec_auth (Authenticate sample_app_env) sample_env sample_server (PlainAuth '''' ''nobody'' ''pw'') ?c0 = ?c1"
    "exec_auth (Authenticate sample_app_env) sample_env sample_server (PlainAuth '''' ''printer'' ''pw'') ?c1 = ?c2"
    by (simp_all add: exec_auth_def Auth_def saslServers_def plainCallback_def SmtpSession.authenticate_def logAuth_def ip sample_logins
        recordAuthFailure_def sample_start_def sample_failed_def sample_authed_def NewSession_def sample_server_def)
  moreover have "exec_mail sample_env sample_server ''p@lan'' ?c2 = ?c3" "exec_rcpt sample_env sample_server ''u@example.org'' ?c3 = ?c4"
    by (simp_all add: exec_mail_def exec_rcpt_def sample_envelope)
  moreover have "exec_data (app_Submit sample_app_env) sample_env sample_server 5 sample_source ?c4 = ?c5"
    by (simp add: exec_data_def Data_def sample_prepared_ok logSubmit_def sub)
  moreover have "open_conn ?c0" "open_conn ?c1" "open_conn ?c2" "mailed ?c3" "mailed ?c4"
    by (simp_all add: open_conn_def mailed_def sample_start_def sample_failed_def sample_authed_def sample_mailed_def sample_ready_def
        NewSession_def)
  ultimately have steps: "?step ?c0 ?c1" "?step ?c1 ?c2" "?step ?c2 ?c3" "?step ?c3 ?c4" "?step ?c4 ?c5"
    by (metis exec_steps)+
  have "session_run (Authenticate sample_app_env) (app_Submit sample_app_env) sample_env sample_server sample_peer True (sample_world 4) ?c5"
    by (rule session_run_step[OF session_run_step[OF session_run_step[OF session_run_step[OF session_run_step[OF
            session_run_start steps(1)[unfolded sample_start_def]] steps(2)] steps(3)] steps(4)] steps(5)])
  then show ?thesis using sub by (intro that[of _ _ w "?calls @ [SubmitCall sample_sub (Some i)]" i]) simp_all
qed

theorem accepted_is_stored_witness:
  "\<exists>i w. app_Submit sample_app_env sample_sub sample_world_used = (Inr i, w) \<and> app_stored w i sample_sub"
proof -
  obtain s m w calls i where run: "session_run (Authenticate sample_app_env) (app_Submit sample_app_env) sample_env sample_server
      sample_peer True (sample_world 4) (s, m, w, calls)" and c: "SubmitCall sample_sub (Some i) \<in> set calls"
    and sub: "app_Submit sample_app_env sample_sub sample_world_used = (Inr i, w)"
    by (rule sample_app_run)
  from accepted_is_stored[OF run sample_world_ok c] sub show ?thesis by blast
qed

end
