(* ===== verification/Text.thy ===== *)
theory Text
  imports Models "HOL-Library.List_Lexorder" "HOL-Library.Char_ord"
begin

text \<open>
  Text as the proxy writes it out: UTF-8, the log sanitiser (\<^verbatim>\<open>src/internal/logsafe\<close>), the
  JSON text of \<^verbatim>\<open>encoding/json\<close> as far as the proxy produces and reads it, the list columns of
  the store (\<^verbatim>\<open>src/internal/store/jsonlist.go\<close>) and the masking of audit details
  (\<^verbatim>\<open>src/internal/store/audit.go\<close>).

  \<open>list_column_roundtrip\<close> is what allows the rows of \<^theory_text>\<open>Models\<close> to hold recipients and
  networks as lists: the column text reads back to the list that was written.
\<close>

section \<open>UTF-8\<close>

text \<open>The number of bytes of the rune a string begins with, as \<^verbatim>\<open>utf8.DecodeRune\<close> accepts it;
  0 for the empty string and for an invalid encoding.\<close>

definition byte_in :: "nat \<Rightarrow> nat \<Rightarrow> nat \<Rightarrow> string \<Rightarrow> bool" where
  "byte_in i lo hi s = (i < length s \<and> lo \<le> byte (s ! i) \<and> byte (s ! i) \<le> hi)"

definition rune_len :: "string \<Rightarrow> nat" where
  "rune_len s = (case s of [] \<Rightarrow> 0 | c # _ \<Rightarrow>
    let b = byte c in
    if b < 0x80 then 1
    else if b < 0xC2 then 0
    else if b < 0xE0 then (if byte_in 1 0x80 0xBF s then 2 else 0)
    else if b < 0xF0 then
      (if byte_in 1 (if b = 0xE0 then 0xA0 else 0x80) (if b = 0xED then 0x9F else 0xBF) s \<and>
          byte_in 2 0x80 0xBF s then 3 else 0)
    else if b < 0xF5 then
      (if byte_in 1 (if b = 0xF0 then 0x90 else 0x80) (if b = 0xF4 then 0x8F else 0xBF) s \<and>
          byte_in 2 0x80 0xBF s \<and> byte_in 3 0x80 0xBF s then 4 else 0)
    else 0)"

text \<open>A string cut into runes; an invalid byte is a piece of its own, marked by \<^const>\<open>None\<close>.\<close>

function runes :: "string \<Rightarrow> string option list" where
  "runes [] = []"
| "runes (c # cs) =
    (let n = rune_len (c # cs)
     in if n = 0 then None # runes cs
        else Some (take n (c # cs)) # runes (drop (n - 1) cs))"
  by pat_completeness auto
termination by (relation "measure length") auto

definition valid_utf8 :: "string \<Rightarrow> bool" where
  "valid_utf8 s = (None \<notin> set (runes s))"

definition bytes :: "nat list \<Rightarrow> string" where
  "bytes = map char_of"

text \<open>U+FFFD in UTF-8.\<close>

definition replacement :: string where
  "replacement = bytes [0xEF, 0xBF, 0xBD]"

lemma rune_len_le: "rune_len s \<le> length s"
  by (auto simp: rune_len_def byte_in_def Let_def Suc_le_eq split: list.splits)

lemma rune_len_ascii: "byte c < 0x80 \<Longrightarrow> rune_len (c # cs) = 1"
  by (simp add: rune_len_def)

lemma rune_len_1_iff: "rune_len (c # cs) = 1 \<longleftrightarrow> byte c < 0x80"
  by (simp add: rune_len_def Let_def)

text \<open>Every byte of a rune of several bytes is at least 128.\<close>

lemma rune_bytes_high:
  assumes "rune_len s = n" "n \<noteq> 1" "i < n"
  shows "128 \<le> byte (s ! i)"
proof -
  obtain c cs where s: "s = c # cs" using assms by (cases s) (auto simp: rune_len_def)
  have n: "n \<in> {2, 3, 4}" "128 \<le> byte c"
    using assms by (auto simp: s rune_len_def Let_def split: if_splits)
  then have "i = 0 \<or> i = 1 \<or> i = 2 \<or> i = 3" using assms(3) by auto
  then show ?thesis
    using assms n by (auto simp: s rune_len_def Let_def byte_in_def split: if_splits)
qed

lemma runes_ascii [simp]: "byte c < 0x80 \<Longrightarrow> runes (c # cs) = Some [c] # runes cs"
  by (simp add: rune_len_ascii)

declare runes.simps(2) [simp del]

section \<open>Logging\<close>

definition logsafe_maxLen :: nat where "logsafe_maxLen = 512"

text \<open>The effect of \<^verbatim>\<open>strings.Map\<close> with the closure of \<^verbatim>\<open>String\<close> on one rune: a control
  character is dropped, an invalid byte becomes the replacement character.\<close>

definition map_rune :: "string option \<Rightarrow> string" where
  "map_rune r = (case r of None \<Rightarrow> replacement
    | Some s \<Rightarrow> (case s of [c] \<Rightarrow> if byte c < 0x20 \<or> byte c = 0x7F then [] else [c] | _ \<Rightarrow> s))"

definition visible_newline :: "char \<Rightarrow> string" where
  "visible_newline c = (if c = LF then [CHR 0x5C, CHR ''n'']
    else if c = CR then [CHR 0x5C, CHR ''r''] else [c])"

definition truncated_mark :: string where
  "truncated_mark = bytes [0xE2, 0x80, 0xA6] @ ''(truncated)''"

definition logsafe_String :: "string \<Rightarrow> string" where
  "logsafe_String s =
    (let t = concat (map map_rune (runes (concat (map visible_newline s))))
     in if logsafe_maxLen < length t then take logsafe_maxLen t @ truncated_mark else t)"

lemma runes_concat: "concat (map (\<lambda>r. case r of None \<Rightarrow> [] | Some w \<Rightarrow> w) (runes s)) = s" if "valid_utf8 s"
  using that
proof (induction s rule: runes.induct)
  case (2 c cs)
  let ?n = "rune_len (c # cs)"
  have n: "?n \<noteq> 0" and v: "valid_utf8 (drop (?n - 1) cs)"
    using 2(3) by (auto simp: valid_utf8_def runes.simps(2) Let_def split: if_splits)
  then show ?case using 2(2)[OF refl n] by (cases "?n") (simp_all add: runes.simps(2) Let_def)
qed simp

lemma runes_char: "Some w \<in> set (runes s) \<Longrightarrow> (\<exists>c. w = [c] \<and> byte c < 128) \<or> (\<forall>c\<in>set w. 128 \<le> byte c)"
proof (induction s rule: runes.induct)
  case (2 c cs)
  let ?n = "rune_len (c # cs)"
  show ?case
  proof (cases "?n = 0 \<or> Some w \<in> set (runes (drop (?n - 1) cs))")
    case True
    then show ?thesis using 2 by (auto simp: runes.simps(2) Let_def split: if_splits)
  next
    case False
    then have w: "w = take ?n (c # cs)" using 2(3) by (auto simp: runes.simps(2) Let_def split: if_splits)
    show ?thesis
    proof (cases "?n = 1")
      case True
      then show ?thesis using w rune_len_1_iff[of c cs] by auto
    next
      case n: False
      have "128 \<le> byte x" if "x \<in> set w" for x
      proof -
        obtain i where "i < length w" "x = w ! i" using \<open>x \<in> set w\<close> by (metis in_set_conv_nth)
        then show ?thesis using rune_bytes_high[OF refl n, of i] w by simp
      qed
      then show ?thesis by blast
    qed
  qed
qed simp

lemma map_rune_clean: "r \<in> set (runes s) \<Longrightarrow> x \<in> set (map_rune r) \<Longrightarrow> 32 \<le> byte x \<and> byte x \<noteq> 127"
proof (cases r)
  case None
  assume "x \<in> set (map_rune r)"
  with None have "x \<in> {char_of (0xEF::nat), char_of (0xBF::nat), char_of (0xBD::nat)}"
    by (auto simp: map_rune_def replacement_def bytes_def)
  then show ?thesis by auto
next
  case (Some w)
  assume "r \<in> set (runes s)" "x \<in> set (map_rune r)"
  with Some runes_char[of w s] show ?thesis
    by (auto simp: map_rune_def split: list.splits if_splits)
qed

text \<open>What reaches the log cannot forge an entry or hide text: whatever a client sends, the logged
  value has no line break and no other ASCII control character, and at most 526 bytes.\<close>

theorem logsafe_clean:
  "list_all (\<lambda>c. 32 \<le> byte c \<and> byte c \<noteq> 127) (logsafe_String s) \<and> length (logsafe_String s) \<le> 526"
proof -
  let ?t = "concat (map map_rune (runes (concat (map visible_newline s))))"
  have t: "32 \<le> byte x \<and> byte x \<noteq> 127" if "x \<in> set ?t" for x using that map_rune_clean by auto
  have "\<forall>x\<in>set truncated_mark. 32 \<le> byte x \<and> byte x \<noteq> 127"
    by (simp add: truncated_mark_def bytes_def)
  moreover have "length truncated_mark = 14" by (simp add: truncated_mark_def bytes_def)
  moreover have "32 \<le> byte x \<and> byte x \<noteq> 127" if "x \<in> set (take 512 ?t)" for x
    using t in_set_takeD[OF that] by blast
  ultimately show ?thesis using t
    by (simp add: logsafe_String_def Let_def list_all_iff logsafe_maxLen_def) blast
qed

text \<open>The comment of \<^verbatim>\<open>String\<close> says that every control character but the line breaks is removed.
  Those from U+0080 to U+009F are not, next line (U+0085) among them.\<close>

theorem logsafe_keeps_C1: "logsafe_String (bytes [0xC2, 0x85]) = bytes [0xC2, 0x85]"
  by code_simp

section \<open>JSON\<close>

text \<open>The values the proxy encodes.  A Go map is the list of its entries; its keys are distinct.\<close>

datatype json = JNull | JBool bool | JInt int | JStr string | JArr "json list" | JObj "(string \<times> json) list"

definition QUOTE :: char where "QUOTE = CHR 0x22"
definition BACKSLASH :: char where "BACKSLASH = CHR 0x5C"

text \<open>The string writer of \<^verbatim>\<open>encoding/json\<close> with its HTML escapes: one ASCII character, then one
  rune.\<close>

definition json_escape :: "char \<Rightarrow> string" where
  "json_escape c =
    (if c = QUOTE \<or> c = BACKSLASH then [BACKSLASH, c]
     else if byte c = 8 then [BACKSLASH, CHR ''b'']
     else if byte c = 12 then [BACKSLASH, CHR ''f'']
     else if c = LF then [BACKSLASH, CHR ''n'']
     else if c = CR then [BACKSLASH, CHR ''r'']
     else if byte c = 9 then [BACKSLASH, CHR ''t'']
     else if byte c < 0x20 \<or> c \<in> {CHR ''<'', CHR ''>'', CHR ''&''}
     then [BACKSLASH, CHR ''u'', CHR ''0'', CHR ''0'', hex_digit (byte c div 16), hex_digit (byte c mod 16)]
     else [c])"

definition json_rune :: "string option \<Rightarrow> string" where
  "json_rune r = (case r of
      None \<Rightarrow> BACKSLASH # ''ufffd''
    | Some w \<Rightarrow>
        if length w = 1 then json_escape (hd w)
        else if w = bytes [0xE2, 0x80, 0xA8] then BACKSLASH # ''u2028''
        else if w = bytes [0xE2, 0x80, 0xA9] then BACKSLASH # ''u2029''
        else w)"

definition json_string :: "string \<Rightarrow> string" where
  "json_string s = [QUOTE] @ concat (map json_rune (runes s)) @ [QUOTE]"

definition json_int :: "int \<Rightarrow> string" where
  "json_int n = (if n < 0 then ''-'' @ Itoa (nat (- n)) else Itoa (nat n))"

text \<open>\<^verbatim>\<open>json.Marshal\<close>; the entries of a map are written in the order of their keys.\<close>

fun json_Marshal :: "json \<Rightarrow> string" where
  "json_Marshal JNull = ''null''"
| "json_Marshal (JBool b) = (if b then ''true'' else ''false'')"
| "json_Marshal (JInt n) = json_int n"
| "json_Marshal (JStr s) = json_string s"
| "json_Marshal (JArr xs) = ''['' @ Join (map json_Marshal xs) '','' @ '']''"
| "json_Marshal (JObj kvs) = ''{'' @
    Join (map (\<lambda>(k, t). json_string k @ '':'' @ t) (sort_key fst (map (\<lambda>(k, v). (k, json_Marshal v)) kvs))) '','' @ ''}''"

subsection \<open>Reading lists of strings\<close>

definition hex_val :: "char \<Rightarrow> nat option" where
  "hex_val c = (if is_digit c then Some (byte c - 48)
    else if 97 \<le> byte c \<and> byte c \<le> 102 then Some (byte c - 87)
    else if 65 \<le> byte c \<and> byte c \<le> 70 then Some (byte c - 55) else None)"

text \<open>The four digits of an escaped code unit.\<close>

fun getu4 :: "string \<Rightarrow> nat option" where
  "getu4 (a # b # c # d # _) =
    (case (hex_val a, hex_val b, hex_val c, hex_val d) of
       (Some p, Some q, Some r, Some s) \<Rightarrow> Some (((p * 16 + q) * 16 + r) * 16 + s) | _ \<Rightarrow> None)"
| "getu4 _ = None"

definition EncodeRune :: "nat \<Rightarrow> string" where
  "EncodeRune r =
    (if r < 0x80 then bytes [r]
     else if r < 0x800 then bytes [0xC0 + r div 0x40, 0x80 + r mod 0x40]
     else if r < 0x10000 then bytes [0xE0 + r div 0x1000, 0x80 + r div 0x40 mod 0x40, 0x80 + r mod 0x40]
     else bytes [0xF0 + r div 0x40000, 0x80 + r div 0x1000 mod 0x40, 0x80 + r div 0x40 mod 0x40, 0x80 + r mod 0x40])"

definition simple_escape :: "char \<Rightarrow> char option" where
  "simple_escape e =
    (if e \<in> {QUOTE, BACKSLASH, CHR ''/''} then Some e
     else if e = CHR ''b'' then Some (char_of (8::nat))
     else if e = CHR ''f'' then Some (char_of (12::nat))
     else if e = CHR ''n'' then Some LF
     else if e = CHR ''r'' then Some CR
     else if e = CHR ''t'' then Some (char_of (9::nat)) else None)"

definition low_surrogate :: "string \<Rightarrow> nat option" where
  "low_surrogate s = (if HasPrefix s [BACKSLASH, CHR ''u''] then
      (case getu4 (drop 2 s) of Some r \<Rightarrow> if 0xDC00 \<le> r \<and> r < 0xE000 then Some r else None | None \<Rightarrow> None)
    else None)"

text \<open>One character of a literal: its value and the number of bytes after the first it takes.  The
  argument of \<open>read_escape\<close> is what follows the backslash.\<close>

definition read_escape :: "string \<Rightarrow> (string \<times> nat) option" where
  "read_escape s = (case s of [] \<Rightarrow> None | e # es \<Rightarrow>
     if simple_escape e \<noteq> None then Some ([the (simple_escape e)], 1)
     else if e = CHR ''u'' then
       (case getu4 es of
          None \<Rightarrow> None
        | Some r \<Rightarrow>
            if 0xD800 \<le> r \<and> r < 0xE000 then
              (if r < 0xDC00 \<and> low_surrogate (drop 4 es) \<noteq> None
               then Some (EncodeRune (0x10000 + (r - 0xD800) * 0x400 + (the (low_surrogate (drop 4 es)) - 0xDC00)), 11)
               else Some (replacement, 5))
            else Some (EncodeRune r, 5))
     else None)"

definition read_char :: "char \<Rightarrow> string \<Rightarrow> (string \<times> nat) option" where
  "read_char c cs =
    (if c = BACKSLASH then read_escape cs
     else if byte c < 0x20 then None
     else if rune_len (c # cs) = 0 then Some (replacement, 0)
     else Some (take (rune_len (c # cs)) (c # cs), rune_len (c # cs) - 1))"

text \<open>A string literal after its opening quote: its value and what follows the closing quote.\<close>

function unquote :: "string \<Rightarrow> (string \<times> string) option" where
  "unquote [] = None"
| "unquote (c # cs) =
    (if c = QUOTE then Some ([], cs)
     else (case read_char c cs of
         None \<Rightarrow> None
       | Some (w, k) \<Rightarrow> map_option (apfst ((@) w)) (unquote (drop k cs))))"
  by pat_completeness auto
termination by (relation "measure length") auto

declare unquote.simps(2) [simp del]

lemma unquote_shorter: "unquote s = Some (w, r) \<Longrightarrow> length r < length s"
proof (induction s arbitrary: w rule: unquote.induct)
  case (2 c cs)
  then show ?case
  proof (cases "c = QUOTE")
    case False
    then obtain a k w' where k: "read_char c cs = Some (a, k)" "unquote (drop k cs) = Some (w', r)"
      using 2(2) by (auto simp: unquote.simps(2) split: option.splits)
    then have "length r < length (drop k cs)" using 2(1) False by blast
    then show ?thesis by simp
  qed (simp add: unquote.simps(2))
qed simp

definition is_json_space :: "char \<Rightarrow> bool" where
  "is_json_space c = (byte c \<in> {9, 10, 13, 32})"

definition skip_space :: "string \<Rightarrow> string" where
  "skip_space = dropWhile is_json_space"

text \<open>An element of a list of strings; null is the zero value.\<close>

definition parse_element :: "string \<Rightarrow> (string \<times> string) option" where
  "parse_element s = (case s of [] \<Rightarrow> None | c # cs \<Rightarrow>
    if c = QUOTE then unquote cs
    else if HasPrefix s ''null'' then Some ([], drop 4 s) else None)"

lemma parse_element_shorter: "parse_element s = Some (w, r) \<Longrightarrow> length r < length s"
  by (auto simp: parse_element_def split: list.splits if_splits dest: unquote_shorter)

function parse_elements :: "string \<Rightarrow> (string list \<times> string) option" where
  "parse_elements s =
    (case parse_element (skip_space s) of
       None \<Rightarrow> None
     | Some (w, r) \<Rightarrow>
         (case skip_space r of
            [] \<Rightarrow> None
          | c # cs \<Rightarrow>
              if c = CHR '']'' then Some ([w], cs)
              else if c = CHR '','' then map_option (apfst (Cons w)) (parse_elements cs)
              else None))"
  by pat_completeness auto
termination
proof (relation "measure length")
  fix s x w r c cs
  assume "parse_element (skip_space s) = Some x" "(w, r) = x" "skip_space r = c # cs"
  then have "length r < length (skip_space s)" "length (c # cs) \<le> length r"
    by (auto simp: skip_space_def dest!: parse_element_shorter intro: length_dropWhile_le)
      (metis length_Cons length_dropWhile_le)
  moreover have "length (skip_space s) \<le> length s" by (simp add: skip_space_def length_dropWhile_le)
  ultimately show "(cs, s) \<in> measure length" by simp
qed simp

declare parse_elements.simps [simp del]

text \<open>\<^verbatim>\<open>json.Unmarshal\<close> into a \<^verbatim>\<open>[]string\<close>: anything that is not such a list or null is an
  error, whether of syntax or of type.\<close>

definition unmarshal_strings :: "string \<Rightarrow> string list option" where
  "unmarshal_strings s =
    (let t = skip_space s in
     if HasPrefix t ''null'' \<and> skip_space (drop 4 t) = [] then Some []
     else (case t of
         [] \<Rightarrow> None
       | c # cs \<Rightarrow>
           if c \<noteq> CHR ''['' then None
           else (case skip_space cs of
               [] \<Rightarrow> None
             | d # ds \<Rightarrow>
                 if d = CHR '']'' then (if skip_space ds = [] then Some [] else None)
                 else (case parse_elements cs of
                     None \<Rightarrow> None
                   | Some (xs, r) \<Rightarrow> if skip_space r = [] then Some xs else None))))"

section \<open>List columns\<close>

definition marshalList :: "string list \<Rightarrow> string" where
  "marshalList v = (if v = [] then ''[]'' else ''['' @ Join (map json_string v) '','' @ '']'')"

definition unmarshalList :: "string \<Rightarrow> string list store_result" where
  "unmarshalList s = (if s = '''' \<or> s = ''[]'' then Inr []
    else (case unmarshal_strings s of None \<Rightarrow> Inl ErrDriver | Some xs \<Rightarrow> Inr xs))"

lemma hex_val_digit: "d < 16 \<Longrightarrow> hex_val (hex_digit d) = Some d"
  by (auto simp: hex_val_def hex_digit_def is_digit_def)

lemma getu4_ascii:
  "b < 128 \<Longrightarrow> getu4 (CHR ''0'' # CHR ''0'' # hex_digit (b div 16) # hex_digit (b mod 16) # t) = Some b"
  by (simp add: hex_val_digit) (simp add: hex_val_def is_digit_def)

lemma EncodeRune_ascii: "byte c < 128 \<Longrightarrow> EncodeRune (byte c) = [c]"
  by (simp add: EncodeRune_def bytes_def)

lemma json_chars_distinct [simp]:
  "BACKSLASH \<noteq> QUOTE" "QUOTE \<noteq> BACKSLASH" "simple_escape (CHR ''u'') = None"
  "simple_escape QUOTE = Some QUOTE" "simple_escape BACKSLASH = Some BACKSLASH"
  "simple_escape (CHR ''b'') = Some (char_of (8::nat))" "simple_escape (CHR ''f'') = Some (char_of (12::nat))"
  "simple_escape (CHR ''n'') = Some LF" "simple_escape (CHR ''r'') = Some CR"
  "simple_escape (CHR ''t'') = Some (char_of (9::nat))"
  by (simp_all add: QUOTE_def BACKSLASH_def simple_escape_def)

lemma append_one [simp]: "(@) [c] = (#) c"
  by auto

lemma char_of_byte: "byte c = n \<Longrightarrow> char_of n = c"
  by auto

text \<open>Reading back what the writer wrote for one rune.\<close>

lemma unquote_json_escape:
  assumes "byte c < 128"
  shows "unquote (json_escape c @ t) = map_option (apfst ((@) [c])) (unquote t)"
proof -
  have simple: "unquote (BACKSLASH # e # t) = map_option (apfst ((@) [c])) (unquote t)" if "simple_escape e = Some c" for e
    using that by (simp add: unquote.simps(2) read_char_def read_escape_def)
  have coded: "unquote (BACKSLASH # CHR ''u'' # CHR ''0'' # CHR ''0'' # hex_digit (byte c div 16) # hex_digit (byte c mod 16) # t)
      = map_option (apfst ((@) [c])) (unquote t)"
    using assms by (simp add: unquote.simps(2) read_char_def read_escape_def getu4_ascii EncodeRune_ascii del: getu4.simps)
  have plain: "unquote (c # t) = map_option (apfst ((@) [c])) (unquote t)"
    if "c \<noteq> QUOTE" "c \<noteq> BACKSLASH" "\<not> byte c < 32"
    using that assms by (simp add: unquote.simps(2) read_char_def rune_len_ascii)
  show ?thesis
    using simple coded plain by (auto simp: json_escape_def char_of_byte)
qed

lemma rune_len_take:
  assumes "rune_len s = n" "n \<noteq> 0"
  shows "rune_len (take n s @ t) = n"
proof -
  obtain c cs where s: "s = c # cs" using assms by (cases s) (auto simp: rune_len_def)
  obtain u' where u': "take n s @ t = c # u'" using assms(2) by (cases n) (simp_all add: s)
  have len: "n \<le> length s" using rune_len_le[of s] assms(1) by simp
  have "byte_in i lo hi (c # u') = byte_in i lo hi (c # cs)" if "i < n" for i lo hi
    using that len unfolding u'[symmetric] s[symmetric] by (auto simp: byte_in_def nth_append)
  moreover have "rune_len (c # cs) = n" using assms(1) s by simp
  ultimately have "rune_len (c # u') = n" using assms(2) by (simp add: rune_len_def Let_def split: if_splits)
  then show ?thesis by (simp add: u')
qed

lemma unquote_separators:
  "unquote (BACKSLASH # ''u2028'' @ t) = map_option (apfst ((@) (bytes [0xE2, 0x80, 0xA8]))) (unquote t)"
  "unquote (BACKSLASH # ''u2029'' @ t) = map_option (apfst ((@) (bytes [0xE2, 0x80, 0xA9]))) (unquote t)"
  by (simp_all add: unquote.simps(2) read_char_def read_escape_def hex_val_def is_digit_def EncodeRune_def)

lemma unquote_raw:
  assumes "rune_len s = n" "1 < n"
  shows "unquote (take n s @ t) = map_option (apfst ((@) (take n s))) (unquote t)"
proof -
  obtain c cs where s: "s = c # cs" using assms by (cases s) (auto simp: rune_len_def)
  have high: "128 \<le> byte c" using rune_bytes_high[OF assms(1), of 0] assms(2) by (simp add: s)
  then have "c \<noteq> QUOTE" "c \<noteq> BACKSLASH" by (auto simp: QUOTE_def BACKSLASH_def)
  moreover have len: "rune_len (c # take (n - 1) cs @ t) = n"
    using rune_len_take[OF assms(1)] assms(2) by (cases n) (simp_all add: s)
  moreover have "length (take (n - 1) cs) = n - 1"
    using rune_len_le[of s] assms(1) by (simp add: s)
  ultimately show ?thesis
    using high assms(2) by (cases n) (simp_all add: s unquote.simps(2) read_char_def)
qed

lemma unquote_json_rune:
  assumes "Some w \<in> set (runes s)"
  shows "unquote (json_rune (Some w) @ t) = map_option (apfst ((@) w)) (unquote t)"
  using assms
proof (induction s rule: runes.induct)
  case (2 c cs)
  let ?n = "rune_len (c # cs)"
  show ?case
  proof (cases "?n = 0 \<or> Some w \<in> set (runes (drop (?n - 1) cs))")
    case True
    then show ?thesis using 2 by (auto simp: runes.simps(2) Let_def split: if_splits)
  next
    case False
    then have w: "w = take ?n (c # cs)" and n: "?n \<noteq> 0"
      using 2(3) by (auto simp: runes.simps(2) Let_def split: if_splits)
    then have len: "length w = ?n" using rune_len_le[of "c # cs"] by simp
    show ?thesis
    proof (cases "?n = 1")
      case True
      then have "byte c < 128" "w = [c]" using w rune_len_1_iff[of c cs] by auto
      then show ?thesis by (simp add: json_rune_def unquote_json_escape)
    next
      case several: False
      then have "unquote (w @ t) = map_option (apfst ((@) w)) (unquote t)"
        using unquote_raw[of "c # cs" ?n t] n unfolding w by simp
      then show ?thesis using several len by (simp add: json_rune_def unquote_separators[simplified])
    qed
  qed
qed simp

lemma unquote_json_runes:
  assumes "set rs \<subseteq> set (runes s)" "None \<notin> set rs"
  shows "unquote (concat (map json_rune rs) @ QUOTE # t) =
    Some (concat (map (\<lambda>r. case r of None \<Rightarrow> [] | Some w \<Rightarrow> w) rs), t)"
  using assms
proof (induction rs)
  case (Cons r rs)
  then obtain w where "r = Some w" "Some w \<in> set (runes s)" by (cases r) auto
  then show ?case using Cons by (simp add: unquote_json_rune)
qed (simp add: unquote.simps(2))

lemma parse_json_string: "valid_utf8 s \<Longrightarrow> parse_element (json_string s @ t) = Some (s, t)"
  using unquote_json_runes[of "runes s" s t] runes_concat[of s]
  by (simp add: json_string_def parse_element_def valid_utf8_def)

lemma json_string_start: "skip_space (json_string s @ t) = json_string s @ t"
  by (simp add: json_string_def skip_space_def is_json_space_def QUOTE_def)

lemma parse_elements_Join:
  assumes "xs \<noteq> []" "list_all valid_utf8 xs"
  shows "parse_elements (Join (map json_string xs) '','' @ CHR '']'' # t) = Some (xs, t)"
  using assms
proof (induction xs rule: induct_list012)
  case (2 x)
  then show ?case
    by (simp add: parse_elements.simps json_string_start parse_json_string) (simp add: skip_space_def is_json_space_def)
next
  case (3 x y ys)
  then have "parse_elements (Join (map json_string (y # ys)) '','' @ CHR '']'' # t) = Some (y # ys, t)" by simp
  then show ?case using 3
    by (subst parse_elements.simps)
      (simp add: json_string_start parse_json_string, simp add: skip_space_def is_json_space_def)
qed simp

lemma Join_json_string: "xs \<noteq> [] \<Longrightarrow> \<exists>t. Join (map json_string xs) '','' = QUOTE # t"
  by (induction xs rule: induct_list012) (auto simp: json_string_def)

text \<open>The columns for recipients and networks hold JSON text.  Reading a column gives back the list
  that was written, for every list of UTF-8 strings, whatever quotes, backslashes, control characters
  or separators they contain.\<close>

theorem list_column_roundtrip:
  assumes "list_all valid_utf8 xs"
  shows "unmarshalList (marshalList xs) = Inr xs"
proof (cases "xs = []")
  case False
  then obtain t where t: "Join (map json_string xs) '','' = QUOTE # t" using Join_json_string by blast
  have "parse_elements (Join (map json_string xs) '','' @ [CHR '']'']) = Some (xs, [])"
    using False assms by (rule parse_elements_Join)
  then show ?thesis using False
    by (simp add: unmarshalList_def marshalList_def unmarshal_strings_def t)
      (simp add: skip_space_def is_json_space_def HasPrefix_def QUOTE_def)
qed (simp add: marshalList_def unmarshalList_def)

theorem list_column_roundtrip_witness:
  "unmarshalList (marshalList [''a,b@x'', [QUOTE, LF, BACKSLASH, CHR ''<''] @ bytes [0xE2, 0x80, 0xA8]]) =
    Inr [''a,b@x'', [QUOTE, LF, BACKSLASH, CHR ''<''] @ bytes [0xE2, 0x80, 0xA8]]"
proof (rule list_column_roundtrip)
  show "list_all valid_utf8 [''a,b@x'', [QUOTE, LF, BACKSLASH, CHR ''<''] @ bytes [0xE2, 0x80, 0xA8]]"
    by code_simp
qed

section \<open>Masking audit details\<close>

definition secretFields :: "string list" where
  "secretFields = [
    ''password'', ''passwordhash'', ''password_hash'',
    ''secret'', ''clientsecret'', ''client_secret'', ''client_secret_enc'',
    ''certificatekey'', ''certificate_key'', ''certificate_key_enc'',
    ''totp'', ''totpsecret'', ''totp_secret'', ''totp_secret_enc'',
    ''token'', ''accesstoken'', ''access_token'', ''refreshtoken'', ''refresh_token'',
    ''apikey'', ''api_key'']"

definition isSecretField :: "string \<Rightarrow> bool" where
  "isSecretField name =
    (let lowered = ToLower (map (\<lambda>c. if c = CHR ''-'' then CHR ''_'' else c) name)
     in list_ex (\<lambda>f. lowered = f \<or> HasSuffix lowered (''_'' @ f)) secretFields \<or>
        list_ex (Contains lowered) [''password'', ''secret'', ''token'', ''apikey'', ''api_key''])"

definition redactedValue :: "json \<Rightarrow> string" where
  "redactedValue v = (if v = JNull \<or> v = JStr '''' then ''(unset)'' else ''(redacted)'')"

text \<open>The type switch both \<^verbatim>\<open>maskMap\<close> and \<^verbatim>\<open>maskSlice\<close> apply to a value.\<close>

fun maskValue :: "json \<Rightarrow> json" where
  "maskValue (JObj kvs) =
    JObj (map (\<lambda>(k, v). (k, if isSecretField k then JStr (redactedValue v) else maskValue v)) kvs)"
| "maskValue (JArr xs) = JArr (map maskValue xs)"
| "maskValue v = v"

definition maskMap :: "(string \<times> json) list \<Rightarrow> (string \<times> json) list" where
  "maskMap kvs = map (\<lambda>(k, v). (k, if isSecretField k then JStr (redactedValue v) else maskValue v)) kvs"

definition maskSlice :: "json list \<Rightarrow> json list" where
  "maskSlice xs = map maskValue xs"

definition MaskSecrets :: "(string \<times> json) list \<Rightarrow> string" where
  "MaskSecrets details = json_Marshal (JObj (maskMap details))"

text \<open>Details that differ only in the values of secret fields, at any depth.\<close>

inductive differ_in_secrets :: "json \<Rightarrow> json \<Rightarrow> bool" where
  same: "differ_in_secrets v v"
| array: "list_all2 differ_in_secrets xs ys \<Longrightarrow> differ_in_secrets (JArr xs) (JArr ys)"
| object: "list_all2 (\<lambda>a b. fst a = fst b \<and>
      (if isSecretField (fst a) then redactedValue (snd a) = redactedValue (snd b)
       else differ_in_secrets (snd a) (snd b))) kvs kvs'
    \<Longrightarrow> differ_in_secrets (JObj kvs) (JObj kvs')"
  monos list_all2_mono if_mono

lemma maskValue_secrets: "differ_in_secrets v v' \<Longrightarrow> maskValue v = maskValue v'"
proof (induction rule: differ_in_secrets.induct)
  case (array xs ys)
  then show ?case by (induction rule: list_all2_induct) auto
next
  case (object kvs kvs')
  then show ?case by (induction rule: list_all2_induct) (auto split: if_splits)
qed simp



text \<open>The name the management interface uses for a certificate's private key is not recognised,
  although the list means to cover certificate keys.\<close>

theorem certificate_key_not_masked:
  "MaskSecrets [(''certificateKeyPem'', JStr ''MIIE'')] =
    [CHR ''{'', QUOTE] @ ''certificateKeyPem'' @ [QUOTE, CHR '':'', QUOTE] @ ''MIIE'' @ [QUOTE, CHR ''}'']"
  by code_simp

text \<open>The flags the handlers record, that a password was generated or a secret changed, are taken for
  secrets themselves: the log shows the same for true and false.\<close>

theorem flags_masked:
  "MaskSecrets [(''passwordGenerated'', JBool True)] = MaskSecrets [(''passwordGenerated'', JBool False)] \<and>
   MaskSecrets [(''secretChanged'', JBool True)] = MaskSecrets [(''secretChanged'', JBool False)]"
  by code_simp

end
