(* ===== verification/AdminStore.thy ===== *)
theory AdminStore
  imports Directory Text
begin

text \<open>
  The tables behind the management interface: administrators, their sessions, the audit log and the
  reservations of diagnostic messages (\<^verbatim>\<open>src/internal/store/users.go\<close>, \<^verbatim>\<open>sessions.go\<close>,
  \<^verbatim>\<open>audit.go\<close>, \<^verbatim>\<open>diagnostics.go\<close>).

  As in the directory, the constraints of the schema are part of each statement.  SHA-256 is a parameter.
  The lemmas show that every operation keeps the keys unique and the references resolved, and that a
  diagnostic request sends at most one message.
\<close>

section \<open>Administrators\<close>

definition LockedAt :: "AdminUser \<Rightarrow> instant \<Rightarrow> bool" where
  "LockedAt u now = (case usr_LockedUntil u of None \<Rightarrow> False | Some t \<Rightarrow> now < t)"

definition CanSignIn :: "AdminUser \<Rightarrow> instant \<Rightarrow> bool" where
  "CanSignIn u now = (\<not> usr_Disabled u \<and> \<not> LockedAt u now)"

text \<open>The CHECK constraints, and the partial unique index on the provider's subject.\<close>

definition user_check :: "AdminUser \<Rightarrow> bool" where
  "user_check u = (usr_Role u \<in> {RoleAdmin, RoleOperator, RoleViewer} \<and> usr_Source u \<in> {SourceLocal, SourceOIDC})"

definition user_subject :: "AdminUser \<Rightarrow> (string \<times> string) option" where
  "user_subject u = map_option (Pair (usr_Source u)) (usr_Subject u)"

definition user_clash :: "AdminUser \<Rightarrow> AdminUser \<Rightarrow> bool" where
  "user_clash u r = (usr_Username r = usr_Username u \<or> user_subject u \<noteq> None \<and> user_subject r = user_subject u)"

definition Users_Create :: "instant \<Rightarrow> string \<Rightarrow> AdminUser \<Rightarrow> DB \<Rightarrow> (AdminUser \<times> DB) store_result" where
  "Users_Create now newID u0 db =
    (let u = u0\<lparr> usr_ID := ensure_id newID (usr_ID u0), usr_CreatedAt := now, usr_UpdatedAt := now,
                 usr_Source := (if usr_Source u0 = '''' then SourceLocal else usr_Source u0) \<rparr>
     in if \<not> user_check u then Inl ErrDriver
        else if list_ex (\<lambda>r. usr_ID r = usr_ID u \<or> user_clash u r) (t_users db)
        then Inl (translateError UniqueViolation)
        else Inr (u, db\<lparr> t_users := t_users db @ [u] \<rparr>))"

definition Users_Get :: "DB \<Rightarrow> string \<Rightarrow> AdminUser store_result" where
  "Users_Get db i = (case select_one (\<lambda>u. usr_ID u = i) (t_users db) of
      None \<Rightarrow> Inl (translateError NoRows) | Some u \<Rightarrow> Inr u)"

definition Users_GetByUsername :: "DB \<Rightarrow> string \<Rightarrow> AdminUser store_result" where
  "Users_GetByUsername db n = (case select_one (\<lambda>u. usr_Username u = n) (t_users db) of
      None \<Rightarrow> Inl (translateError NoRows) | Some u \<Rightarrow> Inr u)"

definition Users_GetBySubject :: "DB \<Rightarrow> string \<Rightarrow> string \<Rightarrow> AdminUser store_result" where
  "Users_GetBySubject db source subject =
    (case select_one (\<lambda>u. usr_Source u = source \<and> usr_Subject u = Some subject) (t_users db) of
      None \<Rightarrow> Inl (translateError NoRows) | Some u \<Rightarrow> Inr u)"

definition Users_List :: "DB \<Rightarrow> AdminUser list" where
  "Users_List db = sort_key usr_Username (t_users db)"

text \<open>Every column but \<^verbatim>\<open>id\<close>, \<^verbatim>\<open>created_at\<close> and the login counters.\<close>

definition Users_Update :: "instant \<Rightarrow> AdminUser \<Rightarrow> DB \<Rightarrow> DB store_result" where
  "Users_Update now u db =
    (if \<not> list_ex (\<lambda>r. usr_ID r = usr_ID u) (t_users db) then Inl ErrNotFound
     else if \<not> user_check u then Inl ErrDriver
     else if list_ex (\<lambda>r. usr_ID r \<noteq> usr_ID u \<and> user_clash u r) (t_users db)
     then Inl (translateError UniqueViolation)
     else Inr (db\<lparr> t_users := update_where (\<lambda>r. usr_ID r = usr_ID u)
       (\<lambda>r. u\<lparr> usr_CreatedAt := usr_CreatedAt r, usr_FailedLogins := usr_FailedLogins r,
               usr_LockedUntil := usr_LockedUntil r, usr_LastLoginAt := usr_LastLoginAt r,
               usr_UpdatedAt := now \<rparr>) (t_users db) \<rparr>))"

text \<open>Sessions go with their user.\<close>

definition Users_Delete :: "string \<Rightarrow> DB \<Rightarrow> DB store_result" where
  "Users_Delete i db =
    (if \<not> list_ex (\<lambda>u. usr_ID u = i) (t_users db) then Inl ErrNotFound
     else Inr (db\<lparr> t_users := delete_where (\<lambda>u. usr_ID u = i) (t_users db),
                   t_sessions := delete_where (\<lambda>s. ses_UserID s = i) (t_sessions db) \<rparr>))"

definition CountByRole :: "DB \<Rightarrow> Role \<Rightarrow> nat" where
  "CountByRole db r = length (filter (\<lambda>u. \<not> usr_Disabled u \<and> usr_Role u = r) (t_users db))"

definition RecordFailedLogin :: "instant \<Rightarrow> string \<Rightarrow> int \<Rightarrow> duration \<Rightarrow> DB \<Rightarrow> DB store_result" where
  "RecordFailedLogin now i threshold lockFor db =
    (case select_one (\<lambda>u. usr_ID u = i) (t_users db) of
       None \<Rightarrow> Inl (translateError NoRows)
     | Some u \<Rightarrow>
         (let failures = usr_FailedLogins u + 1;
              lockedUntil = (if 0 < threshold \<and> threshold \<le> failures then NullTime (now + lockFor) else None)
          in Inr (db\<lparr> t_users := update_where (\<lambda>r. usr_ID r = i)
               (\<lambda>r. r\<lparr> usr_FailedLogins := failures, usr_LockedUntil := lockedUntil, usr_UpdatedAt := now \<rparr>)
               (t_users db) \<rparr>)))"

definition RecordSuccessfulLogin :: "instant \<Rightarrow> string \<Rightarrow> DB \<Rightarrow> DB" where
  "RecordSuccessfulLogin now i db =
    db\<lparr> t_users := update_where (\<lambda>r. usr_ID r = i)
      (\<lambda>r. r\<lparr> usr_FailedLogins := 0, usr_LockedUntil := None, usr_LastLoginAt := Some now, usr_UpdatedAt := now \<rparr>)
      (t_users db) \<rparr>"

section \<open>Sessions\<close>

definition hex_encode :: "string \<Rightarrow> string" where
  "hex_encode s = concat (map (\<lambda>c. [hex_digit (byte c div 16), hex_digit (byte c mod 16)]) s)"

definition HashSessionToken :: "(string \<Rightarrow> string) \<Rightarrow> string \<Rightarrow> string" where
  "HashSessionToken sha256 token = hex_encode (sha256 token)"

definition Sessions_Create :: "instant \<Rightarrow> string \<Rightarrow> Session \<Rightarrow> DB \<Rightarrow> (Session \<times> DB) store_result" where
  "Sessions_Create now newID s0 db =
    (let s = s0\<lparr> ses_ID := ensure_id newID (ses_ID s0),
                 ses_CreatedAt := (if ses_CreatedAt s0 = zero_time then now else ses_CreatedAt s0),
                 ses_LastSeenAt := now \<rparr>
     in if list_ex (\<lambda>r. ses_ID r = ses_ID s \<or> ses_TokenHash r = ses_TokenHash s) (t_sessions db)
        then Inl (translateError UniqueViolation)
        else if \<not> list_ex (\<lambda>u. usr_ID u = ses_UserID s) (t_users db)
        then Inl (translateError ForeignKeyViolation)
        else Inr (s, db\<lparr> t_sessions := t_sessions db @ [s] \<rparr>))"

record Authenticated =
  au_Session :: Session
  au_User :: AdminUser

definition Sessions_Delete :: "string \<Rightarrow> DB \<Rightarrow> DB" where
  "Sessions_Delete i db = db\<lparr> t_sessions := delete_where (\<lambda>s. ses_ID s = i) (t_sessions db) \<rparr>"

text \<open>The join of a session with its user.\<close>

definition session_row :: "DB \<Rightarrow> string \<Rightarrow> (Session \<times> AdminUser) option" where
  "session_row db h =
    (case select_one (\<lambda>s. ses_TokenHash s = h) (t_sessions db) of
       None \<Rightarrow> None
     | Some s \<Rightarrow> map_option (Pair s) (select_one (\<lambda>u. usr_ID u = ses_UserID s) (t_users db)))"

definition Lookup ::
  "(string \<Rightarrow> string) \<Rightarrow> instant \<Rightarrow> string \<Rightarrow> duration \<Rightarrow> DB \<Rightarrow> Authenticated store_result \<times> DB" where
  "Lookup sha256 now token idleTimeout db =
    (case session_row db (HashSessionToken sha256 token) of
       None \<Rightarrow> (Inl (translateError NoRows), db)
     | Some (s, u) \<Rightarrow>
         if \<not> now < ses_ExpiresAt s then (Inl ErrNotFound, Sessions_Delete (ses_ID s) db)
         else if 0 < idleTimeout \<and> idleTimeout < now - ses_LastSeenAt s
         then (Inl ErrNotFound, Sessions_Delete (ses_ID s) db)
         else if usr_Disabled u then (Inl ErrNotFound, db)
         else (Inr \<lparr> au_Session = s, au_User = u \<rparr>, db))"

definition Touch :: "instant \<Rightarrow> string \<Rightarrow> DB \<Rightarrow> DB" where
  "Touch now i db =
    db\<lparr> t_sessions := update_where (\<lambda>s. ses_ID s = i) (\<lambda>s. s\<lparr> ses_LastSeenAt := now \<rparr>) (t_sessions db) \<rparr>"

definition DeleteForUser :: "string \<Rightarrow> DB \<Rightarrow> nat \<times> DB" where
  "DeleteForUser userID db =
    (rows_affected (\<lambda>s. ses_UserID s = userID) (t_sessions db),
     db\<lparr> t_sessions := delete_where (\<lambda>s. ses_UserID s = userID) (t_sessions db) \<rparr>)"

definition ListForUser :: "instant \<Rightarrow> DB \<Rightarrow> string \<Rightarrow> Session list" where
  "ListForUser now db userID =
    sort_key (\<lambda>s. - ses_LastSeenAt s) (filter (\<lambda>s. ses_UserID s = userID \<and> now < ses_ExpiresAt s) (t_sessions db))"

definition PurgeExpired :: "instant \<Rightarrow> DB \<Rightarrow> nat \<times> DB" where
  "PurgeExpired now db =
    (rows_affected (\<lambda>s. ses_ExpiresAt s < now) (t_sessions db),
     db\<lparr> t_sessions := delete_where (\<lambda>s. ses_ExpiresAt s < now) (t_sessions db) \<rparr>)"

section \<open>The audit log\<close>

definition ActorUser :: string where "ActorUser = ''user''"
definition ActorSystem :: string where "ActorSystem = ''system''"
definition ActorBootstrap :: string where "ActorBootstrap = ''bootstrap''"
definition ResultSuccess :: string where "ResultSuccess = ''success''"
definition ResultFailure :: string where "ResultFailure = ''failure''"

definition audit_check :: "AuditEntry \<Rightarrow> bool" where
  "audit_check e = (aud_ActorType e \<in> {ActorUser, ActorSystem, ActorBootstrap} \<and>
    aud_Result e \<in> {ResultSuccess, ResultFailure})"

definition insertAudit :: "AuditEntry \<Rightarrow> DB \<Rightarrow> DB store_result" where
  "insertAudit e db =
    (if \<not> audit_check e \<or> list_ex (\<lambda>r. aud_ID r = aud_ID e) (t_audit db) then Inl ErrDriver
     else Inr (db\<lparr> t_audit := t_audit db @ [e] \<rparr>))"

definition Audit_Append :: "instant \<Rightarrow> string \<Rightarrow> AuditEntry \<Rightarrow> DB \<Rightarrow> DB store_result" where
  "Audit_Append now newID e0 db =
    insertAudit (e0\<lparr> aud_ID := ensure_id newID (aud_ID e0),
      aud_At := (if aud_At e0 = zero_time then now else aud_At e0),
      aud_Result := (if aud_Result e0 = '''' then ResultSuccess else aud_Result e0),
      aud_Details := (if aud_Details e0 = '''' then ''{}'' else aud_Details e0) \<rparr>) db"

record AuditFilter =
  af_ActorID :: string
  af_Action :: string
  af_TargetType :: string
  af_TargetID :: string
  af_Since :: instant
  af_Until :: instant
  af_Limit :: int
  af_Offset :: int

text \<open>The clauses \<^verbatim>\<open>build\<close> joins with AND.\<close>

definition audit_matches :: "AuditFilter \<Rightarrow> AuditEntry \<Rightarrow> bool" where
  "audit_matches f e =
    ((af_ActorID f \<noteq> '''' \<longrightarrow> aud_ActorID e = af_ActorID f) \<and>
     (af_Action f \<noteq> '''' \<longrightarrow> aud_Action e = af_Action f) \<and>
     (af_TargetType f \<noteq> '''' \<longrightarrow> aud_TargetType e = af_TargetType f) \<and>
     (af_TargetID f \<noteq> '''' \<longrightarrow> aud_TargetID e = af_TargetID f) \<and>
     (af_Since f \<noteq> zero_time \<longrightarrow> af_Since f \<le> aud_At e) \<and>
     (af_Until f \<noteq> zero_time \<longrightarrow> aud_At e \<le> af_Until f))"

definition Audit_List :: "DB \<Rightarrow> AuditFilter \<Rightarrow> AuditEntry list" where
  "Audit_List db f =
    (let limit = (if af_Limit f \<le> 0 \<or> 500 < af_Limit f then 100 else nat (af_Limit f))
     in take limit (drop (nat (af_Offset f))
          (rev (sort_key (\<lambda>e. (aud_At e, aud_ID e)) (filter (audit_matches f) (t_audit db))))))"

definition Audit_Count :: "DB \<Rightarrow> AuditFilter \<Rightarrow> nat" where
  "Audit_Count db f = length (filter (audit_matches f) (t_audit db))"

section \<open>Diagnostic messages\<close>

text \<open>What the transaction checks again of the mailbox and its credential.\<close>

definition diagnostic_ready :: "Mailbox \<Rightarrow> OAuthCredential \<Rightarrow> string \<Rightarrow> bool" where
  "diagnostic_ready mb c address =
    (mb_Enabled mb \<and> mb_Address mb = address \<and> mb_Transport mb \<in> {TransportSMTP, TransportGraph} \<and>
     \<not> (cred_AuthType c = AuthTypeSecret \<and> cred_ClientSecretEnc c = '''') \<and>
     \<not> (cred_AuthType c = AuthTypeCertificate \<and> (cred_CertificatePEM c = '''' \<or> cred_CertificateKeyEnc c = '''')))"

definition mailbox_credential :: "DB \<Rightarrow> string \<Rightarrow> (Mailbox \<times> OAuthCredential) option" where
  "mailbox_credential db i =
    (case select_one (\<lambda>m. mb_ID m = i) (t_mailboxes db) of
       None \<Rightarrow> None
     | Some m \<Rightarrow> map_option (Pair m) (select_one (\<lambda>c. cred_ID c = mb_OAuthCredentialID m) (t_credentials db)))"

definition diagnostic_entry ::
  "instant \<Rightarrow> string \<Rightarrow> string \<Rightarrow> string \<Rightarrow> string \<Rightarrow> string \<Rightarrow> string \<Rightarrow> string \<Rightarrow> string \<Rightarrow> AuditEntry" where
  "diagnostic_entry now auditID actorID actorName requestID mailboxID address recipient messageID =
    \<lparr> aud_ID = auditID, aud_At = now, aud_ActorType = ActorUser, aud_ActorID = actorID,
      aud_ActorName = actorName, aud_Action = ''mailbox.test_send'', aud_TargetType = ''mailbox'',
      aud_TargetID = mailboxID, aud_TargetName = address,
      aud_Details = MaskSecrets [(''messageId'', JStr messageID), (''requestId'', JStr requestID), (''recipient'', JStr recipient)],
      aud_Result = ResultSuccess, aud_IP = '''', aud_UserAgent = '''' \<rparr>"

text \<open>A new reservation: the message, the link from the reservation and the audit entry.\<close>

definition diagnosticTx ::
  "instant \<Rightarrow> string \<Rightarrow> string \<Rightarrow> string \<Rightarrow> string \<Rightarrow> string \<Rightarrow> string \<Rightarrow> Message \<Rightarrow> string \<Rightarrow> DB \<Rightarrow> (string \<times> DB) store_result" where
  "diagnosticTx now newID auditID actorID requestID mailboxID recipient m body db =
    (case mailbox_credential db mailboxID of
       None \<Rightarrow> Inl (translateError NoRows)
     | Some (mb, c) \<Rightarrow>
         if \<not> diagnostic_ready mb c (msg_MailboxAddress m) then Inl ErrStateConflict
         else (case enqueueTx now newID (m\<lparr> msg_Origin := ''diagnostic'', msg_SMTPAccountID := None,
                   msg_AccountUsername := '''', msg_MailboxID := NullString mailboxID \<rparr>) (Some body) db of
             Inl e \<Rightarrow> Inl e
           | Inr (m', db1) \<Rightarrow>
               (let db2 = db1\<lparr> t_diagnostics := update_where (\<lambda>d. dr_ActorID d = actorID \<and> dr_RequestID d = requestID)
                        (\<lambda>d. d\<lparr> dr_MessageID := Some (msg_ID m') \<rparr>) (t_diagnostics db1) \<rparr>;
                    actorName = (case select_one (\<lambda>u. usr_ID u = actorID) (t_users db2) of
                        None \<Rightarrow> actorID | Some u \<Rightarrow> usr_Username u)
                in (case insertAudit (diagnostic_entry now auditID actorID actorName requestID mailboxID (mb_Address mb)
                          recipient (msg_ID m')) db2 of
                      Inl e \<Rightarrow> Inl e
                    | Inr db3 \<Rightarrow> Inr (msg_ID m', db3)))))"

text \<open>The result is the identifier of the message and whether it was created now.\<close>

definition EnqueueDiagnostic ::
  "instant \<Rightarrow> string \<Rightarrow> string \<Rightarrow> string \<Rightarrow> string \<Rightarrow> string \<Rightarrow> string \<Rightarrow> Message \<Rightarrow> string \<Rightarrow> DB
    \<Rightarrow> (string \<times> bool \<times> DB) store_result" where
  "EnqueueDiagnostic now newID auditID actorID requestID mailboxID recipient m body db =
    (case select_one (\<lambda>d. dr_ActorID d = actorID \<and> dr_RequestID d = requestID) (t_diagnostics db) of
       Some d \<Rightarrow>
         if dr_MailboxID d \<noteq> mailboxID \<or> dr_Recipient d \<noteq> recipient \<or> dr_MessageID d = None
         then Inl ErrStateConflict else Inr (the (dr_MessageID d), False, db)
     | None \<Rightarrow>
         (case diagnosticTx now newID auditID actorID requestID mailboxID recipient m body
                 (db\<lparr> t_diagnostics := t_diagnostics db @
                    [\<lparr> dr_ActorID = actorID, dr_RequestID = requestID, dr_MailboxID = mailboxID,
                       dr_Recipient = recipient, dr_MessageID = None, dr_CreatedAt = now \<rparr>] \<rparr>) of
            Inl e \<Rightarrow> Inl e
          | Inr (i, db') \<Rightarrow> Inr (i, True, db')))"

section \<open>Integrity\<close>

definition subjects_unique :: "AdminUser list \<Rightarrow> bool" where
  "subjects_unique us = list_all (\<lambda>u. list_all (\<lambda>r.
     user_subject u \<noteq> None \<and> user_subject r = user_subject u \<longrightarrow> usr_ID r = usr_ID u) us) us"

lemma subjects_uniqueI:
  assumes "\<And>u r. u \<in> set us \<Longrightarrow> r \<in> set us \<Longrightarrow> user_subject u \<noteq> None \<Longrightarrow> user_subject r = user_subject u \<Longrightarrow> usr_ID r = usr_ID u"
  shows "subjects_unique us"
  unfolding subjects_unique_def list_all_iff using assms by blast

lemma subjects_uniqueD:
  "subjects_unique us \<Longrightarrow> u \<in> set us \<Longrightarrow> r \<in> set us \<Longrightarrow> user_subject u \<noteq> None \<Longrightarrow> user_subject r = user_subject u \<Longrightarrow>
   usr_ID r = usr_ID u"
  unfolding subjects_unique_def list_all_iff by blast

definition admin_ok :: "DB \<Rightarrow> bool" where
  "admin_ok db =
    (unique_key usr_ID (t_users db) \<and> unique_key usr_Username (t_users db) \<and> subjects_unique (t_users db) \<and>
     list_all user_check (t_users db) \<and>
     unique_key ses_ID (t_sessions db) \<and> unique_key ses_TokenHash (t_sessions db) \<and>
     keys_of ses_UserID (t_sessions db) \<subseteq> keys_of usr_ID (t_users db) \<and>
     unique_key aud_ID (t_audit db) \<and>
     unique_key (\<lambda>d. (dr_ActorID d, dr_RequestID d)) (t_diagnostics db) \<and>
     opt_keys dr_MessageID (t_diagnostics db) \<subseteq> keys_of msg_ID (t_messages db))"

text \<open>The invariant of the whole database.\<close>

definition db_ok :: "DB \<Rightarrow> bool" where
  "db_ok db = (queue_ok db \<and> directory_ok db \<and> admin_ok db)"

named_theorems admin_preserve \<open>each operation keeps the integrity of the administrative tables\<close>

definition same_admin :: "DB \<Rightarrow> DB \<Rightarrow> bool" where
  "same_admin db db' = (t_users db' = t_users db \<and> t_sessions db' = t_sessions db \<and> t_audit db' = t_audit db)"

definition same_directory :: "DB \<Rightarrow> DB \<Rightarrow> bool" where
  "same_directory db db' = (t_credentials db' = t_credentials db \<and> t_mailboxes db' = t_mailboxes db \<and>
     t_accounts db' = t_accounts db \<and> t_account_mailboxes db' = t_account_mailboxes db \<and>
     t_allowed_senders db' = t_allowed_senders db \<and> t_messages db' = t_messages db \<and> t_blobs db' = t_blobs db)"

lemma same_directory_ok: "same_directory db db' \<Longrightarrow> queue_ok db' = queue_ok db \<and> directory_ok db' = directory_ok db"
  by (simp add: same_directory_def queue_ok_def directory_ok_def keys_ok_def refs_ok_def)

lemma admin_ok_same:
  assumes "admin_ok db" "same_admin db db'" "t_diagnostics db' = t_diagnostics db"
    and "keys_of msg_ID (t_messages db) \<subseteq> keys_of msg_ID (t_messages db')"
  shows "admin_ok db'"
  using assms by (auto simp: admin_ok_def same_admin_def)

subsection \<open>Administrators and sessions\<close>

lemma user_subject_upd [simp]:
  "user_subject (u\<lparr> usr_CreatedAt := a \<rparr>) = user_subject u"
  "user_subject (u\<lparr> usr_FailedLogins := b \<rparr>) = user_subject u"
  "user_subject (u\<lparr> usr_LockedUntil := c \<rparr>) = user_subject u"
  "user_subject (u\<lparr> usr_LastLoginAt := d \<rparr>) = user_subject u"
  "user_subject (u\<lparr> usr_UpdatedAt := e \<rparr>) = user_subject u"
  by (simp_all add: user_subject_def)

lemma admin_ok_Users_Create [admin_preserve]:
  assumes "admin_ok db" "Users_Create now newID u db = Inr (u', db')"
  shows "admin_ok db'"
proof -
  have db': "db' = db\<lparr> t_users := t_users db @ [u'] \<rparr>" and c: "user_check u'"
    and new: "\<And>r. r \<in> set (t_users db) \<Longrightarrow> usr_ID r \<noteq> usr_ID u' \<and> \<not> user_clash u' r"
    using assms(2) by (auto simp: Users_Create_def Let_def list_ex_iff split: if_splits)
  have old: "subjects_unique (t_users db)" using assms(1) by (simp add: admin_ok_def)
  have "subjects_unique (t_users db @ [u'])"
  proof (rule subjects_uniqueI)
    fix u r assume m: "u \<in> set (t_users db @ [u'])" "r \<in> set (t_users db @ [u'])"
      and s: "user_subject u \<noteq> None" "user_subject r = user_subject u"
    from m have "u \<in> set (t_users db) \<or> u = u'" "r \<in> set (t_users db) \<or> r = u'" by auto
    then show "usr_ID r = usr_ID u" using s new subjects_uniqueD[OF old] unfolding user_clash_def by metis
  qed
  moreover have "usr_ID u' \<notin> keys_of usr_ID (t_users db)" "usr_Username u' \<notin> keys_of usr_Username (t_users db)"
    using new unfolding keys_of_def user_clash_def image_iff by metis+
  ultimately show ?thesis using assms(1) c
    by (auto simp: db' admin_ok_def unique_key_snoc_keys)
qed

lemma admin_ok_update_users:
  assumes "admin_ok db" "\<And>r. p r \<Longrightarrow> usr_ID (f r) = usr_ID r \<and> usr_Username (f r) = usr_Username r \<and>
      user_subject (f r) = user_subject r \<and> (user_check r \<longrightarrow> user_check (f r))"
  shows "admin_ok (db\<lparr> t_users := update_where p f (t_users db) \<rparr>)"
proof -
  let ?u = "update_where p f (t_users db)"
  have "keys_of usr_ID ?u = keys_of usr_ID (t_users db)" by (rule keys_of_update) (simp add: assms(2))
  moreover have "unique_key usr_ID ?u" "unique_key usr_Username ?u"
    using assms by (auto simp: admin_ok_def unique_key_update)
  moreover have old: "subjects_unique (t_users db)" using assms(1) by (simp add: admin_ok_def)
  have origin: "\<exists>r\<in>set (t_users db). usr_ID r = usr_ID x \<and> user_subject r = user_subject x" if "x \<in> set ?u" for x
    using that assms(2) by (auto simp: set_update_where)
  have "subjects_unique ?u"
  proof (rule subjects_uniqueI)
    fix u r assume "u \<in> set ?u" "r \<in> set ?u" "user_subject u \<noteq> None" "user_subject r = user_subject u"
    then show "usr_ID r = usr_ID u" using origin subjects_uniqueD[OF old] by metis
  qed
  moreover have "list_all user_check ?u"
    using assms by (auto simp: admin_ok_def list_all_iff set_update_where)
  ultimately show ?thesis using assms(1) by (simp add: admin_ok_def)
qed

lemma admin_ok_Users_Update [admin_preserve]:
  assumes "admin_ok db" "Users_Update now u db = Inr db'"
  shows "admin_ok db'"
proof -
  let ?f = "\<lambda>r. u\<lparr> usr_CreatedAt := usr_CreatedAt r, usr_FailedLogins := usr_FailedLogins r,
    usr_LockedUntil := usr_LockedUntil r, usr_LastLoginAt := usr_LastLoginAt r, usr_UpdatedAt := now \<rparr>"
  let ?u = "update_where (\<lambda>r. usr_ID r = usr_ID u) ?f (t_users db)"
  have db': "db' = db\<lparr> t_users := ?u \<rparr>" and c: "user_check u"
    and other: "\<And>r. r \<in> set (t_users db) \<Longrightarrow> usr_ID r \<noteq> usr_ID u \<Longrightarrow> \<not> user_clash u r"
    using assms(2) by (auto simp: Users_Update_def list_ex_iff split: if_splits)
  have "keys_of usr_ID ?u = keys_of usr_ID (t_users db)" by (rule keys_of_update) simp
  moreover have "unique_key usr_ID ?u = unique_key usr_ID (t_users db)" by (rule unique_key_update) simp
  moreover have "unique_key usr_Username ?u"
    using assms(1) other by (intro unique_key_replace[where k = "usr_Username u"]) (auto simp: admin_ok_def user_clash_def)
  moreover have old: "subjects_unique (t_users db)" using assms(1) by (simp add: admin_ok_def)
  have origin: "usr_ID x = usr_ID u \<and> user_subject x = user_subject u \<or>
      x \<in> set (t_users db) \<and> \<not> user_clash u x" if "x \<in> set ?u" for x
    using that other by (auto simp: set_update_where)
  have "subjects_unique ?u"
  proof (rule subjects_uniqueI)
    fix a r assume "a \<in> set ?u" "r \<in> set ?u" "user_subject a \<noteq> None" "user_subject r = user_subject a"
    then show "usr_ID r = usr_ID a"
      using origin[of a] origin[of r] subjects_uniqueD[OF old, of a r] unfolding user_clash_def by metis
  qed
  moreover have "user_check (?f r)" for r using c by (simp add: user_check_def)
  then have "list_all user_check ?u"
    using assms(1) by (auto simp: admin_ok_def list_all_iff set_update_where)
  ultimately show ?thesis using assms(1) by (simp add: db' admin_ok_def)
qed

lemma admin_ok_Users_Delete [admin_preserve]:
  assumes "admin_ok db" "Users_Delete i db = Inr db'"
  shows "admin_ok db'"
proof -
  have db': "db' = db\<lparr> t_users := delete_where (\<lambda>u. usr_ID u = i) (t_users db),
      t_sessions := delete_where (\<lambda>s. ses_UserID s = i) (t_sessions db) \<rparr>"
    using assms(2) by (auto simp: Users_Delete_def split: if_splits)
  have old: "subjects_unique (t_users db)" using assms(1) by (simp add: admin_ok_def)
  have "subjects_unique (delete_where (\<lambda>u. usr_ID u = i) (t_users db))"
    by (rule subjects_uniqueI) (use subjects_uniqueD[OF old] in \<open>unfold set_delete_where, blast\<close>)
  then show ?thesis using assms(1)
    by (auto simp: db' admin_ok_def unique_key_delete keys_of_delete list_all_iff set_delete_where)
qed

lemma admin_ok_RecordFailedLogin [admin_preserve]:
  assumes "admin_ok db" "RecordFailedLogin now i threshold lockFor db = Inr db'"
  shows "admin_ok db'"
  using assms by (auto simp: RecordFailedLogin_def Let_def user_check_def intro!: admin_ok_update_users split: option.splits)

lemma admin_ok_RecordSuccessfulLogin [admin_preserve]: "admin_ok db \<Longrightarrow> admin_ok (RecordSuccessfulLogin now i db)"
  by (auto simp: RecordSuccessfulLogin_def user_check_def intro!: admin_ok_update_users)

lemma admin_ok_Sessions_Create [admin_preserve]:
  assumes "admin_ok db" "Sessions_Create now newID s db = Inr (s', db')"
  shows "admin_ok db'"
  using assms
  by (auto simp: Sessions_Create_def Let_def admin_ok_def unique_key_snoc_keys list_ex_disj list_ex_key split: if_splits)

lemma admin_ok_delete_sessions:
  assumes "admin_ok db"
  shows "admin_ok (db\<lparr> t_sessions := delete_where p (t_sessions db) \<rparr>)"
  using assms keys_of_delete_subset[of ses_UserID p "t_sessions db"]
  by (auto simp: admin_ok_def unique_key_delete)

lemma admin_ok_sessions [admin_preserve]:
  assumes "admin_ok db"
  shows "admin_ok (Sessions_Delete i db)" "admin_ok (snd (DeleteForUser u db))" "admin_ok (snd (PurgeExpired now db))"
    "admin_ok (Touch now i db)"
  using assms
  by (auto simp: Sessions_Delete_def DeleteForUser_def PurgeExpired_def intro!: admin_ok_delete_sessions)
    (simp add: Touch_def admin_ok_def unique_key_update keys_of_update)

lemma admin_ok_insertAudit [admin_preserve]:
  assumes "admin_ok db" "insertAudit e db = Inr db'"
  shows "admin_ok db'"
  using assms by (auto simp: insertAudit_def admin_ok_def unique_key_snoc_keys list_ex_key split: if_splits)

lemma admin_ok_Audit_Append [admin_preserve]:
  assumes "admin_ok db" "Audit_Append now newID e db = Inr db'"
  shows "admin_ok db'"
  using assms unfolding Audit_Append_def by (rule admin_ok_insertAudit)

lemma same_directory_admin:
  "Users_Create now newID u db = Inr (u', db') \<Longrightarrow> same_directory db db'"
  "Users_Update now u db = Inr db' \<Longrightarrow> same_directory db db'"
  "Users_Delete i db = Inr db' \<Longrightarrow> same_directory db db'"
  "RecordFailedLogin now i threshold lockFor db = Inr db' \<Longrightarrow> same_directory db db'"
  "same_directory db (RecordSuccessfulLogin now i db)"
  "Sessions_Create now newID s db = Inr (s', db') \<Longrightarrow> same_directory db db'"
  "same_directory db (Sessions_Delete i db)" "same_directory db (snd (DeleteForUser i db))"
  "same_directory db (snd (PurgeExpired now db))" "same_directory db (Touch now i db)"
  "Audit_Append now newID e db = Inr db' \<Longrightarrow> same_directory db db'"
  by (auto simp: same_directory_def Users_Create_def Users_Update_def Users_Delete_def RecordFailedLogin_def
      RecordSuccessfulLogin_def Sessions_Create_def Sessions_Delete_def DeleteForUser_def PurgeExpired_def Touch_def
      Audit_Append_def insertAudit_def Let_def split: if_splits option.splits)

subsection \<open>The directory and the queue\<close>

lemma admin_ok_updateMessages:
  assumes "admin_ok db" "\<And>m. p m \<Longrightarrow> msg_ID (f m) = msg_ID m"
  shows "admin_ok (updateMessages p f db)"
  using assms(1)
  by (rule admin_ok_same) (simp_all add: updateMessages_def same_admin_def keys_of_update assms(2))

lemma admin_ok_deleteMessages:
  assumes "admin_ok db"
  shows "admin_ok (deleteMessages p db)"
proof -
  define gone where "gone i = (\<exists>m\<in>set (t_messages db). p m \<and> msg_ID m = i)" for i
  let ?ds = "update_where (\<lambda>d. case dr_MessageID d of None \<Rightarrow> False | Some i \<Rightarrow> gone i)
    (\<lambda>d. d\<lparr> dr_MessageID := None \<rparr>) (t_diagnostics db)"
  have "opt_keys dr_MessageID ?ds \<subseteq> keys_of msg_ID (delete_where p (t_messages db))"
  proof
    fix i assume "i \<in> opt_keys dr_MessageID ?ds"
    then obtain d where d: "d \<in> set (t_diagnostics db)" "dr_MessageID d = Some i" "\<not> gone i"
      by (auto simp: opt_keys_def set_update_where split: option.splits if_splits)
    then have "i \<in> keys_of msg_ID (t_messages db)"
      using assms by (force simp: admin_ok_def opt_keys_def)
    then show "i \<in> keys_of msg_ID (delete_where p (t_messages db))"
      using d(3) by (auto simp: keys_of_def gone_def set_delete_where)
  qed
  then show ?thesis using assms
    by (simp add: deleteMessages_def Let_def admin_ok_def unique_key_update gone_def[symmetric])
qed

lemma admin_ok_updateOwned:
  assumes "admin_ok db" "updateOwned i owner f db = Inr db'" "\<And>m. msg_ID (f m) = msg_ID m"
  shows "admin_ok db'"
  using assms by (auto simp: updateOwned_cases intro!: admin_ok_updateMessages split: if_splits)

lemma admin_ok_Enqueue [admin_preserve]:
  assumes "admin_ok db" "Enqueue now newID m body db = Inr (m', db')"
  shows "admin_ok db'"
  using assms(1)
  by (rule admin_ok_same)
    (use assms(2) in \<open>auto simp: Enqueue_def enqueueTx_def Let_def same_admin_def split: if_splits option.splits\<close>)

lemma admin_ok_queue [admin_preserve]:
  assumes "admin_ok db"
  shows "ClaimMessages owner limit leaseFor now db = Inr (ms, db') \<Longrightarrow> admin_ok db'"
    and "finish oc i owner now db = Inr db' \<Longrightarrow> admin_ok db'"
    and "Requeue i now db = Inr db' \<Longrightarrow> admin_ok db'"
    and "Hold i now db = Inr db' \<Longrightarrow> admin_ok db'"
    and "Messages_Delete i db = Inr db' \<Longrightarrow> admin_ok db'"
    and "admin_ok (snd (ReleaseExpiredLeases now db))"
    and "admin_ok (snd (Purge sb fb db))"
proof -
  show "finish oc i owner now db = Inr db' \<Longrightarrow> admin_ok db'"
    using assms
    by (cases oc) (auto simp: finish_def MarkSent_def Defer_def Fail_def elim!: admin_ok_updateOwned)
qed (use assms in \<open>auto simp: ClaimMessages_def Requeue_def Hold_def Messages_Delete_def ReleaseExpiredLeases_def
      Purge_def Let_def takeLease_def requireAction_Inr_iff intro!: admin_ok_updateMessages admin_ok_deleteMessages
      split: if_splits\<close>)

lemma admin_ok_after:
  "admin_ok db \<Longrightarrow> (\<And>db'. r = Inr db' \<Longrightarrow> admin_ok db') \<Longrightarrow> admin_ok (after db r)"
  by (simp add: after_def split: sum.splits)

lemma admin_ok_queue_step: "queue_step orderly s s' \<Longrightarrow> admin_ok (qs_db s) \<Longrightarrow> admin_ok (qs_db s')"
  by (induction rule: queue_step.induct) (auto intro: admin_preserve intro!: admin_ok_after)

definition only_directory :: "DB \<Rightarrow> DB \<Rightarrow> bool" where
  "only_directory db db' = (same_admin db db' \<and> t_diagnostics db' = t_diagnostics db \<and>
     t_messages db' = t_messages db \<and> t_blobs db' = t_blobs db)"

lemma directory_writes_keep:
  "Credentials_Create now newID c db = Inr (c', db') \<Longrightarrow> only_directory db db'"
  "Credentials_Update now c db = Inr db' \<Longrightarrow> only_directory db db'"
  "Credentials_Delete i db = Inr db' \<Longrightarrow> only_directory db db'"
  "Mailboxes_Create now newID m db = Inr (m', db') \<Longrightarrow> only_directory db db'"
  "Mailboxes_Update now m db = Inr db' \<Longrightarrow> only_directory db db'"
  "Accounts_Create now newID a db = Inr (a', db') \<Longrightarrow> only_directory db db'"
  "Accounts_Update now a db = Inr db' \<Longrightarrow> only_directory db db'"
  by (auto simp: only_directory_def same_admin_def Credentials_Create_def Credentials_Update_def Credentials_Delete_def Mailboxes_Create_def
      Mailboxes_Update_def Accounts_Create_def Accounts_Update_def Let_def split: if_splits)

lemma queue_ok_same: "t_messages db' = t_messages db \<Longrightarrow> t_blobs db' = t_blobs db \<Longrightarrow> queue_ok db' = queue_ok db"
  by (simp add: queue_ok_def)

lemma insertLinks_keep:
  "insertLinks a seen is db = Inr db' \<Longrightarrow> \<exists>ls. db' = db\<lparr> t_account_mailboxes := ls \<rparr>"
  using insertLinks_links by blast

lemma insertSenders_keep:
  "insertSenders now a ids seen ps db = Inr db' \<Longrightarrow> \<exists>ss. db' = db\<lparr> t_allowed_senders := ss \<rparr>"
proof (induction now a ids seen ps db rule: insertSenders.induct)
  case (1 now a ids seen db)
  then show ?case by (intro exI[of _ "t_allowed_senders db"]) simp
next
  case (2 now a ids seen p ps db)
  then show ?case by (fastforce split: if_splits)
qed

lemma queue_admin_deletes:
  assumes "queue_ok db" "admin_ok db"
  shows "Mailboxes_Delete i db = Inr db' \<Longrightarrow> queue_ok db' \<and> admin_ok db'"
    and "Accounts_Delete i db = Inr db' \<Longrightarrow> queue_ok db' \<and> admin_ok db'"
proof -
  have q: "queue_ok (updateMessages p f db) \<and> admin_ok (updateMessages p f db)"
    if "\<And>m. msg_ID (f m) = msg_ID m" "\<And>m. lease_ok (f m) = lease_ok m" for p f
    using assms that by (auto intro!: queue_ok_update admin_ok_updateMessages)
  have lease: "lease_ok (m\<lparr> msg_MailboxID := a \<rparr>) = lease_ok m" "lease_ok (m\<lparr> msg_SMTPAccountID := a \<rparr>) = lease_ok m" for m a
    by (simp_all add: lease_ok_def)
  show "queue_ok db' \<and> admin_ok db'" if del: "Mailboxes_Delete i db = Inr db'"
  proof -
    let ?d = "updateMessages (\<lambda>m. msg_MailboxID m = Some i) (\<lambda>m. m\<lparr> msg_MailboxID := None \<rparr>) db"
    have "t_messages db' = t_messages ?d" "t_blobs db' = t_blobs ?d" "same_admin ?d db'" "t_diagnostics db' = t_diagnostics ?d"
      using del by (auto simp: Mailboxes_Delete_def updateMessages_def same_admin_def split: if_splits)
    moreover have "queue_ok ?d" "admin_ok ?d" using q lease by auto
    ultimately show ?thesis using queue_ok_same admin_ok_same by (metis order_refl)
  qed
  show "queue_ok db' \<and> admin_ok db'" if del: "Accounts_Delete i db = Inr db'"
  proof -
    let ?d = "updateMessages (\<lambda>m. msg_SMTPAccountID m = Some i) (\<lambda>m. m\<lparr> msg_SMTPAccountID := None \<rparr>) db"
    have "t_messages db' = t_messages ?d" "t_blobs db' = t_blobs ?d" "same_admin ?d db'" "t_diagnostics db' = t_diagnostics ?d"
      using del by (auto simp: Accounts_Delete_def updateMessages_def same_admin_def split: if_splits)
    moreover have "queue_ok ?d" "admin_ok ?d" using q lease by auto
    ultimately show ?thesis using queue_ok_same admin_ok_same by (metis order_refl)
  qed
qed

lemma queue_admin_keep:
  assumes "queue_ok db" "admin_ok db" "only_directory db db'"
  shows "queue_ok db' \<and> admin_ok db'"
  using assms queue_ok_same admin_ok_same unfolding only_directory_def by (metis order_refl)

lemma directory_step_queue_admin:
  "directory_step db db' \<Longrightarrow> queue_ok db \<and> admin_ok db \<Longrightarrow> queue_ok db' \<and> admin_ok db'"
proof (induction rule: directory_step.induct)
  case (AccMailboxes i "is" db db')
  then obtain ls where "db' = db\<lparr> t_account_mailboxes := ls \<rparr>"
    using insertLinks_keep[of i "[]" "is"] by (fastforce simp: SetMailboxes_def)
  then show ?case using AccMailboxes(2) by (intro queue_admin_keep[of db]) (simp_all add: only_directory_def same_admin_def)
next
  case (AccSenders now i ids ps db db')
  then obtain ss where "db' = db\<lparr> t_allowed_senders := ss \<rparr>"
    using insertSenders_keep[of now i ids "[]" ps] by (fastforce simp: SetAllowedSenders_def)
  then show ?case using AccSenders(2) by (intro queue_admin_keep[of db]) (simp_all add: only_directory_def same_admin_def)
next
  case (AccTouch db i at)
  then have "queue_ok (TouchLastUsed i at db) \<and> admin_ok (TouchLastUsed i at db)"
    by (intro queue_admin_keep[of db]) (auto simp: only_directory_def TouchLastUsed_def same_admin_def)
  then show ?case by simp
qed (blast intro: directory_writes_keep queue_admin_keep[THEN conjunct1] queue_admin_keep[THEN conjunct2]
  queue_admin_deletes[THEN conjunct1] queue_admin_deletes[THEN conjunct2] queue_step_ok admin_ok_queue_step)+

lemma directory_step_db_ok: "directory_step db db' \<Longrightarrow> db_ok db \<Longrightarrow> db_ok db'"
  using directory_step_queue_admin directory_step_ok unfolding db_ok_def by blast

subsection \<open>Diagnostics\<close>

definition reserve :: "instant \<Rightarrow> string \<Rightarrow> string \<Rightarrow> string \<Rightarrow> string \<Rightarrow> DB \<Rightarrow> DB" where
  "reserve now actorID requestID mailboxID recipient db = db\<lparr> t_diagnostics := t_diagnostics db @
     [\<lparr> dr_ActorID = actorID, dr_RequestID = requestID, dr_MailboxID = mailboxID,
        dr_Recipient = recipient, dr_MessageID = None, dr_CreatedAt = now \<rparr>] \<rparr>"

definition attach :: "string \<Rightarrow> string \<Rightarrow> string \<Rightarrow> DB \<Rightarrow> DB" where
  "attach actorID requestID i db = db\<lparr> t_diagnostics := update_where (\<lambda>d. dr_ActorID d = actorID \<and> dr_RequestID d = requestID)
     (\<lambda>d. d\<lparr> dr_MessageID := Some i \<rparr>) (t_diagnostics db) \<rparr>"

text \<open>The four writes of a new diagnostic message.\<close>

lemma EnqueueDiagnostic_created:
  assumes "EnqueueDiagnostic now newID auditID actorID requestID mailboxID recipient m body db = Inr (i, True, db')"
  obtains m' m1 db1 e where "select_one (\<lambda>d. dr_ActorID d = actorID \<and> dr_RequestID d = requestID) (t_diagnostics db) = None"
    and "m' = m\<lparr> msg_Origin := ''diagnostic'', msg_SMTPAccountID := None, msg_AccountUsername := '''',
           msg_MailboxID := NullString mailboxID \<rparr>"
    and "Enqueue now newID m' (Some body) (reserve now actorID requestID mailboxID recipient db) = Inr (m1, db1)"
    and "i = msg_ID m1" "insertAudit e (attach actorID requestID (msg_ID m1) db1) = Inr db'" "aud_ActorID e = actorID"
  using assms
  by (auto simp: EnqueueDiagnostic_def diagnosticTx_def reserve_def attach_def Enqueue_def Let_def diagnostic_entry_def
      split: option.splits if_splits sum.splits prod.splits)

lemma EnqueueDiagnostic_repeated:
  assumes "EnqueueDiagnostic now newID auditID actorID requestID mailboxID recipient m body db = Inr (i, False, db')"
  shows "db' = db \<and> (\<exists>d\<in>set (t_diagnostics db). dr_ActorID d = actorID \<and> dr_RequestID d = requestID \<and> dr_MessageID d = Some i)"
  using assms
  by (auto simp: EnqueueDiagnostic_def split: option.splits if_splits sum.splits prod.splits dest!: select_one_Some_D)

lemma queue_ok_attach [simp]: "queue_ok (attach a r i db) = queue_ok db" "queue_ok (reserve now a r mb rc db) = queue_ok db"
  "directory_ok (attach a r i db) = directory_ok db" "directory_ok (reserve now a r mb rc db) = directory_ok db"
  by (simp_all add: attach_def reserve_def queue_ok_def directory_ok_def keys_ok_def refs_ok_def)

lemma admin_ok_reserve:
  assumes "admin_ok db" "select_one (\<lambda>d. dr_ActorID d = a \<and> dr_RequestID d = r) (t_diagnostics db) = None"
  shows "admin_ok (reserve now a r mb rc db)"
  using assms by (auto simp: admin_ok_def reserve_def unique_key_snoc select_one_None_iff)

lemma admin_ok_attach:
  assumes "admin_ok db" "i \<in> keys_of msg_ID (t_messages db)"
  shows "admin_ok (attach a r i db)"
proof -
  have "unique_key (\<lambda>d. (dr_ActorID d, dr_RequestID d)) (update_where (\<lambda>d. dr_ActorID d = a \<and> dr_RequestID d = r)
      (\<lambda>d. d\<lparr> dr_MessageID := Some i \<rparr>) (t_diagnostics db))"
    using assms(1) by (subst unique_key_update) (auto simp: admin_ok_def)
  moreover have "opt_keys dr_MessageID (update_where (\<lambda>d. dr_ActorID d = a \<and> dr_RequestID d = r)
      (\<lambda>d. d\<lparr> dr_MessageID := Some i \<rparr>) (t_diagnostics db)) \<subseteq> keys_of msg_ID (t_messages db)"
    using assms by (auto simp: admin_ok_def dest!: subsetD[OF opt_keys_update_subset])
  ultimately show ?thesis using assms(1) by (simp add: admin_ok_def attach_def)
qed

lemma Enqueue_appends: "Enqueue now newID m body db = Inr (m1, db1) \<Longrightarrow> t_messages db1 = t_messages db @ [m1]"
  by (auto simp: Enqueue_def enqueueTx_def Let_def split: if_splits option.splits)

lemma db_ok_EnqueueDiagnostic [admin_preserve]:
  assumes "db_ok db" "fresh_submission m"
    and "EnqueueDiagnostic now newID auditID actorID requestID mailboxID recipient m body db = Inr (i, created, db')"
  shows "db_ok db'"
proof (cases created)
  case True
  let ?d0 = "reserve now actorID requestID mailboxID recipient db"
  obtain m' m1 db1 e where free: "select_one (\<lambda>d. dr_ActorID d = actorID \<and> dr_RequestID d = requestID) (t_diagnostics db) = None"
    and m': "m' = m\<lparr> msg_Origin := ''diagnostic'', msg_SMTPAccountID := None, msg_AccountUsername := '''',
           msg_MailboxID := NullString mailboxID \<rparr>"
    and enq: "Enqueue now newID m' (Some body) ?d0 = Inr (m1, db1)"
    and "i = msg_ID m1" and ins: "insertAudit e (attach actorID requestID (msg_ID m1) db1) = Inr db'"
    and "aud_ActorID e = actorID"
    using assms(3) unfolding eqTrueI[OF True] by (rule EnqueueDiagnostic_created)
  have fresh: "fresh_submission m'" using assms(2) by (simp add: m' fresh_submission_def)
  have a0: "admin_ok ?d0" using assms(1) free by (auto simp: db_ok_def intro: admin_ok_reserve)
  have "queue_ok db1" "directory_ok db1" "admin_ok db1"
    using queue_ok_Enqueue[OF _ fresh enq] directory_ok_Enqueue[OF _ enq] admin_ok_Enqueue[OF a0 enq] assms(1)
    by (simp_all add: db_ok_def)
  moreover have "msg_ID m1 \<in> keys_of msg_ID (t_messages db1)" using Enqueue_appends[OF enq] by simp
  ultimately have "admin_ok db'" using ins by (blast intro: admin_ok_attach admin_ok_insertAudit)
  moreover have "same_directory (attach actorID requestID (msg_ID m1) db1) db'"
    using ins by (auto simp: insertAudit_def same_directory_def split: if_splits)
  ultimately show ?thesis
    using same_directory_ok \<open>queue_ok db1\<close> \<open>directory_ok db1\<close> by (auto simp: db_ok_def)
next
  case False
  then have "created = False" by simp
  then show ?thesis using assms(1) EnqueueDiagnostic_repeated[OF assms(3)[unfolded \<open>created = False\<close>]] by simp
qed

subsection \<open>Every write\<close>

text \<open>The writers of the database: the repositories of the directory and the queue, and those of this
  theory.\<close>

inductive store_step :: "DB \<Rightarrow> DB \<Rightarrow> bool" where
  Directory: "directory_step db db' \<Longrightarrow> store_step db db'"
| UserCreate: "Users_Create now newID u db = Inr (u', db') \<Longrightarrow> store_step db db'"
| UserUpdate: "Users_Update now u db = Inr db' \<Longrightarrow> store_step db db'"
| UserDelete: "Users_Delete i db = Inr db' \<Longrightarrow> store_step db db'"
| LoginFailed: "RecordFailedLogin now i threshold lockFor db = Inr db' \<Longrightarrow> store_step db db'"
| LoginSucceeded: "store_step db (RecordSuccessfulLogin now i db)"
| SessionCreate: "Sessions_Create now newID s db = Inr (s', db') \<Longrightarrow> store_step db db'"
| SessionDelete: "store_step db (Sessions_Delete i db)"
| SessionTouch: "store_step db (Touch now i db)"
| SessionsOfUser: "store_step db (snd (DeleteForUser u db))"
| SessionPurge: "store_step db (snd (PurgeExpired now db))"
| AuditWrite: "Audit_Append now newID e db = Inr db' \<Longrightarrow> store_step db db'"
| Diagnostic: "fresh_submission m \<Longrightarrow>
    EnqueueDiagnostic now newID auditID actorID requestID mailboxID recipient m body db = Inr (i, created, db') \<Longrightarrow>
    store_step db db'"

inductive_cases store_stepE: "store_step db db'"

lemma db_ok_admin:
  assumes "db_ok db" "same_directory db db'" "admin_ok db \<Longrightarrow> admin_ok db'"
  shows "db_ok db'"
  using assms same_directory_ok unfolding db_ok_def by blast

lemma store_step_ok: "store_step db db' \<Longrightarrow> db_ok db \<Longrightarrow> db_ok db'"
proof (induction rule: store_step.induct)
  case (Directory db db')
  then show ?case by (blast intro: directory_step_db_ok)
next
  case (Diagnostic m now newID auditID actorID requestID mailboxID recipient body db i created db')
  then show ?case by (blast intro: db_ok_EnqueueDiagnostic)
qed (erule db_ok_admin, blast intro: same_directory_admin, blast intro: admin_preserve)+

lemma store_steps_ok: "store_step\<^sup>*\<^sup>* db db' \<Longrightarrow> db_ok db \<Longrightarrow> db_ok db'"
  by (induction rule: rtranclp_induct) (auto intro: store_step_ok)

lemma db_ok_empty: "db_ok empty_db"
  by (simp add: db_ok_def directory_ok_empty)
    (simp add: queue_ok_def admin_ok_def subjects_unique_def empty_db_def unique_key_def keys_of_def opt_keys_def)

end
