(* ===== verification/AdminAuth.thy ===== *)
theory AdminAuth
  imports AdminStore Crypto Gate
begin

text \<open>
  Who may use the management interface: roles and permissions (\<^verbatim>\<open>src/internal/adminauth/rbac.go\<close>),
  password sign-in with its lockout (\<^verbatim>\<open>local.go\<close>), and sessions with their cookies and CSRF tokens
  (\<^verbatim>\<open>session.go\<close>).

  \<open>admin_env\<close> holds what the code takes from libraries (SHA-256, the key derivation, address
  parsers); \<open>tick\<close> holds what one request takes from the outside: the clock, generated
  identifiers and random bytes, each named by its purpose.  The lemmas show that roles only add
  permissions, that guessing a password is limited to one attempt per lockout period, and when a
  request is taken to be signed in.
\<close>

section \<open>Roles\<close>

datatype Permission =
    PermRunDiagnostics | PermViewStatus | PermViewConfig | PermViewAudit | PermManageQueue | PermReadMessageBody
  | PermManageAccounts | PermManageMailboxes | PermManageCredentials | PermManageUsers | PermManageSettings

definition rolePermissions :: "Role \<Rightarrow> Permission list option" where
  "rolePermissions r = (case r of
      RoleViewer \<Rightarrow> Some [PermViewStatus, PermViewConfig]
    | RoleOperator \<Rightarrow> Some [PermRunDiagnostics, PermViewStatus, PermViewConfig, PermViewAudit, PermManageQueue]
    | RoleAdmin \<Rightarrow> Some [PermRunDiagnostics, PermViewStatus, PermViewConfig, PermViewAudit, PermManageQueue,
        PermReadMessageBody, PermManageAccounts, PermManageMailboxes, PermManageCredentials, PermManageUsers,
        PermManageSettings]
    | RoleUnknown _ \<Rightarrow> None)"

definition AllPermissions :: "Permission list" where
  "AllPermissions = [PermRunDiagnostics, PermViewStatus, PermViewConfig, PermViewAudit, PermManageQueue,
     PermReadMessageBody, PermManageAccounts, PermManageMailboxes, PermManageCredentials, PermManageUsers,
     PermManageSettings]"

definition AllRoles :: "Role list" where
  "AllRoles = [RoleAdmin, RoleOperator, RoleViewer]"

definition Can :: "Role \<Rightarrow> Permission \<Rightarrow> bool" where
  "Can role perm = (case rolePermissions role of None \<Rightarrow> False | Some ps \<Rightarrow> perm \<in> set ps)"

definition PermissionsFor :: "Role \<Rightarrow> Permission list" where
  "PermissionsFor role = filter (Can role) AllPermissions"

datatype auth_error =
    ErrInvalidCredentials | ErrLockedOut | ErrLocalDisabled | ErrNoSession | ErrCSRF
  | ErrNoRole | ErrSignupDisabled | ErrBadState | ErrRole | ErrProvider string
  | ErrCrypto crypto_error | ErrStore store_error

definition ParseRole :: "string \<Rightarrow> (auth_error, Role) result" where
  "ParseRole s = (if rolePermissions (Role_of s) = None then Inl ErrRole else Inr (Role_of s))"

section \<open>Environment\<close>

record admin_env =
  ax_sha256 :: "string \<Rightarrow> string"
  ax_kdf :: idkey
  ax_cpus :: int
  ax_parse_ip :: "string \<Rightarrow> ip option"
  ax_show_ip :: "ip \<Rightarrow> string"
  ax_parse_cidr :: "string \<Rightarrow> IPNet option"
  ax_mail_parse :: "string \<Rightarrow> mail_address option"
  ax_parse_time :: "string \<Rightarrow> instant option"

record tick =
  tk_now :: instant
  tk_id :: "string \<Rightarrow> string"
  tk_random :: "string \<Rightarrow> nat \<Rightarrow> string"

definition hash_password :: "admin_env \<Rightarrow> tick \<Rightarrow> string \<Rightarrow> (crypto_error, string) result" where
  "hash_password ax tk password = HashPassword (ax_kdf ax) (ax_cpus ax) (tk_random tk ''salt'' 16) password"

section \<open>Password sign-in\<close>

record LocalConfig =
  lc_Enabled :: bool
  lc_LockoutThreshold :: int
  lc_LockoutDuration :: duration

definition local_recordFailure :: "LocalConfig \<Rightarrow> tick \<Rightarrow> AdminUser \<Rightarrow> DB \<Rightarrow> DB" where
  "local_recordFailure cfg tk user db =
    after db (RecordFailedLogin (tk_now tk) (usr_ID user) (lc_LockoutThreshold cfg) (lc_LockoutDuration cfg) db)"

text \<open>The handed-out user carries the new hash whether or not it could be stored.\<close>

definition local_rehash :: "admin_env \<Rightarrow> tick \<Rightarrow> AdminUser \<Rightarrow> string \<Rightarrow> DB \<Rightarrow> AdminUser \<times> DB" where
  "local_rehash ax tk user password db =
    (case hash_password ax tk password of
       Inl _ \<Rightarrow> (user, db)
     | Inr updated \<Rightarrow>
         (let user' = user\<lparr> usr_PasswordHash := NullString updated, usr_UpdatedAt := tk_now tk \<rparr>
          in (user', after db (Users_Update (tk_now tk) user' db))))"

definition local_Authenticate ::
  "LocalConfig \<Rightarrow> admin_env \<Rightarrow> tick \<Rightarrow> string \<Rightarrow> string \<Rightarrow> DB \<Rightarrow> (auth_error, AdminUser) result \<times> DB" where
  "local_Authenticate cfg ax tk username password db =
    (if \<not> lc_Enabled cfg then (Inl ErrLocalDisabled, db)
     else (case Users_GetByUsername db username of
         Inl e \<Rightarrow> (if e = ErrNotFound then (Inl ErrInvalidCredentials, db) else (Inl (ErrStore e), db))
       | Inr user \<Rightarrow>
           if LockedAt user (tk_now tk) then (Inl ErrLockedOut, db)
           else if null_string (usr_PasswordHash user) = '''' then (Inl ErrInvalidCredentials, db)
           else (case VerifyPassword (ax_kdf ax) (ax_cpus ax) (null_string (usr_PasswordHash user)) password of
               Inl _ \<Rightarrow> (Inl ErrInvalidCredentials, db)
             | Inr (match, needsRehash) \<Rightarrow>
                 if \<not> match then (Inl ErrInvalidCredentials, local_recordFailure cfg tk user db)
                 else if usr_Disabled user then (Inl ErrInvalidCredentials, db)
                 else (let (user', db') = (if needsRehash then local_rehash ax tk user password db else (user, db))
                       in (Inr user', RecordSuccessfulLogin (tk_now tk) (usr_ID user) db')))))"

definition SetPassword ::
  "admin_env \<Rightarrow> tick \<Rightarrow> AdminUser \<Rightarrow> string \<Rightarrow> DB \<Rightarrow> (auth_error, unit) result \<times> DB" where
  "SetPassword ax tk user password db =
    (case hash_password ax tk password of
       Inl e \<Rightarrow> (Inl (ErrCrypto e), db)
     | Inr hash \<Rightarrow>
         (case Users_Update (tk_now tk) (user\<lparr> usr_PasswordHash := NullString hash \<rparr>) db of
            Inl e \<Rightarrow> (Inl (ErrStore e), db)
          | Inr db' \<Rightarrow> (Inr (), snd (DeleteForUser (usr_ID user) db'))))"

section \<open>Requests\<close>

text \<open>What the handlers read of a request.  The path is split at its slashes; the body is the decoded
  JSON value, or \<^const>\<open>None\<close> if it is missing, too large or not JSON.\<close>

record http_request =
  rq_Method :: string
  rq_Path :: "string list"
  rq_Query :: "(string \<times> string) list"
  rq_Cookies :: "(string \<times> string) list"
  rq_CSRF :: string
  rq_ForwardedFor :: string
  rq_RemoteAddr :: string
  rq_UserAgent :: string
  rq_Body :: "json option"

definition http_truncate :: "string \<Rightarrow> nat \<Rightarrow> string" where
  "http_truncate s limit = take limit s"

definition containsIP :: "IPNet list \<Rightarrow> ip \<Rightarrow> bool" where
  "containsIP networks i = list_ex (\<lambda>n. net_Contains n i) networks"

definition http_remoteIP :: "admin_env \<Rightarrow> string \<Rightarrow> ip option" where
  "http_remoteIP ax addr =
    (case SplitHostPort addr of None \<Rightarrow> ax_parse_ip ax addr | Some (host, _) \<Rightarrow> ax_parse_ip ax host)"

text \<open>A nil address prints as \<^verbatim>\<open><nil>\<close>.\<close>

definition ClientIP :: "admin_env \<Rightarrow> http_request \<Rightarrow> IPNet list \<Rightarrow> string" where
  "ClientIP ax r trusted =
    (case http_remoteIP ax (rq_RemoteAddr r) of
       None \<Rightarrow> ''<nil>''
     | Some remote \<Rightarrow>
         if trusted = [] \<or> \<not> containsIP trusted remote \<or> rq_ForwardedFor r = '''' then ax_show_ip ax remote
         else (case ax_parse_ip ax (TrimSpace (hd (SplitByte (rq_ForwardedFor r) (CHR '','')))) of
             Some i \<Rightarrow> ax_show_ip ax i | None \<Rightarrow> ax_show_ip ax remote))"

definition ParseTrustedProxies :: "admin_env \<Rightarrow> string list \<Rightarrow> (string, IPNet list) result" where
  "ParseTrustedProxies ax cidrs =
    (case those (map (ax_parse_cidr ax) cidrs) of None \<Rightarrow> Inl ''adminauth: invalid trusted proxy'' | Some ns \<Rightarrow> Inr ns)"

section \<open>Sessions\<close>

record SessionConfig =
  sc_CookieName :: string
  sc_Lifetime :: duration
  sc_IdleTimeout :: duration
  sc_Secure :: bool
  sc_Path :: string

definition NewSessionManager :: "SessionConfig \<Rightarrow> SessionConfig" where
  "NewSessionManager cfg = cfg\<lparr>
     sc_CookieName := (if sc_CookieName cfg = '''' then ''sap_session'' else sc_CookieName cfg),
     sc_Path := (if sc_Path cfg = '''' then ''/'' else sc_Path cfg),
     sc_Lifetime := (if sc_Lifetime cfg \<le> 0 then 12 * hour else sc_Lifetime cfg) \<rparr>"

record Issued =
  is_Session :: Session
  is_Token :: string
  is_CSRFToken :: string

definition Issue ::
  "SessionConfig \<Rightarrow> admin_env \<Rightarrow> tick \<Rightarrow> AdminUser \<Rightarrow> http_request \<Rightarrow> DB \<Rightarrow> (Issued \<times> DB) store_result" where
  "Issue m ax tk user r db =
    (let token = GenerateToken (tk_random tk ''session'');
         csrf = GenerateToken (tk_random tk ''csrf'');
         s = \<lparr> ses_ID = '''', ses_UserID = usr_ID user, ses_TokenHash = HashSessionToken (ax_sha256 ax) token,
               ses_CSRFToken = csrf, ses_IP = ClientIP ax r [], ses_UserAgent = http_truncate (rq_UserAgent r) 512,
               ses_CreatedAt = tk_now tk, ses_LastSeenAt = zero_time, ses_ExpiresAt = tk_now tk + sc_Lifetime m \<rparr>
     in (case Sessions_Create (tk_now tk) (tk_id tk ''session'') s db of
           Inl e \<Rightarrow> Inl e
         | Inr (s', db') \<Rightarrow> Inr (\<lparr> is_Session = s', is_Token = token, is_CSRFToken = csrf \<rparr>, db')))"

record cookie =
  ck_Name :: string
  ck_Value :: string
  ck_Path :: string
  ck_HttpOnly :: bool
  ck_Secure :: bool
  ck_SameSiteLax :: bool
  ck_Expires :: "instant option"
  ck_MaxAge :: int

definition Cookie :: "SessionConfig \<Rightarrow> string \<Rightarrow> instant \<Rightarrow> cookie" where
  "Cookie m token expires =
    \<lparr> ck_Name = sc_CookieName m, ck_Value = token, ck_Path = sc_Path m, ck_HttpOnly = True,
      ck_Secure = sc_Secure m, ck_SameSiteLax = True, ck_Expires = Some expires, ck_MaxAge = 0 \<rparr>"

definition ClearCookie :: "SessionConfig \<Rightarrow> cookie" where
  "ClearCookie m = (Cookie m '''' 0)\<lparr> ck_MaxAge := -1 \<rparr>"

text \<open>The first cookie of the name.\<close>

definition request_cookie :: "http_request \<Rightarrow> string \<Rightarrow> string option" where
  "request_cookie r name = map_of (rq_Cookies r) name"

definition session_Authenticate ::
  "SessionConfig \<Rightarrow> admin_env \<Rightarrow> tick \<Rightarrow> http_request \<Rightarrow> DB \<Rightarrow> (auth_error, Authenticated) result \<times> DB" where
  "session_Authenticate m ax tk r db =
    (case request_cookie r (sc_CookieName m) of
       None \<Rightarrow> (Inl ErrNoSession, db)
     | Some token \<Rightarrow>
         if token = '''' then (Inl ErrNoSession, db)
         else (case Lookup (ax_sha256 ax) (tk_now tk) token (sc_IdleTimeout m) db of
             (Inl e, db') \<Rightarrow> (Inl (if e = ErrNotFound then ErrNoSession else ErrStore e), db')
           | (Inr auth, db') \<Rightarrow> (Inr auth, Touch (tk_now tk) (ses_ID (au_Session auth)) db')))"

definition isSafeMethod :: "string \<Rightarrow> bool" where
  "isSafeMethod meth = (meth \<in> {''GET'', ''HEAD'', ''OPTIONS''})"

definition CheckCSRF :: "Authenticated \<Rightarrow> http_request \<Rightarrow> auth_error option" where
  "CheckCSRF auth r =
    (if isSafeMethod (rq_Method r) then None
     else if rq_CSRF r = '''' \<or> \<not> ConstantTimeEqual (rq_CSRF r) (ses_CSRFToken (au_Session auth)) then Some ErrCSRF
     else None)"

definition Revoke :: "string \<Rightarrow> DB \<Rightarrow> DB" where
  "Revoke sessionID db = Sessions_Delete sessionID db"

definition RevokeAllForUser :: "string \<Rightarrow> DB \<Rightarrow> DB" where
  "RevokeAllForUser userID db = snd (DeleteForUser userID db)"

section \<open>What the role table says\<close>

text \<open>Every role above another holds its permissions, the table names no permission that is not listed,
  an administrator holds all of them, and a role this build does not know holds none.\<close>

lemma role_table:
  "(Can RoleViewer p \<longrightarrow> Can RoleOperator p) \<and> (Can RoleOperator p \<longrightarrow> Can RoleAdmin p) \<and> Can RoleAdmin p \<and>
   \<not> Can (RoleUnknown s) p \<and> p \<in> set AllPermissions"
  by (cases p) (auto simp: Can_def rolePermissions_def AllPermissions_def)

lemma PermissionsFor_iff: "p \<in> set (PermissionsFor r) \<longleftrightarrow> Can r p"
  using role_table by (auto simp: PermissionsFor_def)

lemma ParseRole_iff: "ParseRole s = Inr r \<longleftrightarrow> r = Role_of s \<and> r \<in> set AllRoles"
  by (auto simp: ParseRole_def rolePermissions_def AllRoles_def split: Role.splits)

lemma ParseRole_user_check: "ParseRole s = Inr r \<Longrightarrow> r \<in> {RoleAdmin, RoleOperator, RoleViewer}"
  by (auto simp: ParseRole_iff AllRoles_def)

section \<open>Guessing passwords\<close>

definition counters :: "DB \<Rightarrow> string \<Rightarrow> (int \<times> instant option) option" where
  "counters db i = map_option (\<lambda>u. (usr_FailedLogins u, usr_LockedUntil u)) (select_one (\<lambda>u. usr_ID u = i) (t_users db))"

text \<open>The attempt is checked against the password of the administrator with identifier \<open>i\<close>, and is
  wrong.\<close>

definition wrong_guess :: "LocalConfig \<Rightarrow> admin_env \<Rightarrow> tick \<Rightarrow> string \<Rightarrow> string \<Rightarrow> string \<Rightarrow> DB \<Rightarrow> bool" where
  "wrong_guess cfg ax tk username password i db =
    (lc_Enabled cfg \<and> (case Users_GetByUsername db username of
        Inl _ \<Rightarrow> False
      | Inr u \<Rightarrow> usr_ID u = i \<and> \<not> LockedAt u (tk_now tk) \<and> null_string (usr_PasswordHash u) \<noteq> '''' \<and>
          (case VerifyPassword (ax_kdf ax) (ax_cpus ax) (null_string (usr_PasswordHash u)) password of
             Inl _ \<Rightarrow> False | Inr (match, _) \<Rightarrow> \<not> match)))"

text \<open>A course of the interface in which nobody signs in as the administrator \<open>i\<close> with a password:
  attempts for any username, in the order of time, and any other writes that leave the counters of
  this administrator alone (the repository's \<^verbatim>\<open>Update\<close> does).  The list holds the times of
  the wrong guesses.\<close>

inductive login_run :: "LocalConfig \<Rightarrow> admin_env \<Rightarrow> string \<Rightarrow> DB \<Rightarrow> instant list \<Rightarrow> instant \<Rightarrow> DB \<Rightarrow> bool"
  for cfg ax i db0 where
  Start: "0 \<le> t \<Longrightarrow> login_run cfg ax i db0 [] t db0"
| Attempt: "login_run cfg ax i db0 gs t db \<Longrightarrow> t \<le> tk_now tk \<Longrightarrow>
    local_Authenticate cfg ax tk username password db = (r, db') \<Longrightarrow> (\<forall>u. r = Inr u \<longrightarrow> usr_ID u \<noteq> i) \<Longrightarrow>
    login_run cfg ax i db0 (if wrong_guess cfg ax tk username password i db then gs @ [tk_now tk] else gs) (tk_now tk) db'"
| Write: "login_run cfg ax i db0 gs t db \<Longrightarrow> t \<le> t' \<Longrightarrow> admin_ok db' \<Longrightarrow> counters db' i = counters db i \<Longrightarrow>
    login_run cfg ax i db0 gs t' db'"

lemma counters_other:
  assumes "j \<noteq> i" "\<And>r. usr_ID (f r) = usr_ID r \<or> usr_ID (f r) = j"
  shows "counters (db\<lparr> t_users := update_where (\<lambda>r. usr_ID r = j) f (t_users db) \<rparr>) i = counters db i"
proof -
  have other: "usr_ID (f r) \<noteq> i" if "usr_ID r = j" for r using assms that by metis
  have "select_one (\<lambda>u. usr_ID u = i) (update_where (\<lambda>r. usr_ID r = j) f us) = select_one (\<lambda>u. usr_ID u = i) us" for us
    using assms(1) other by (induction us) (simp_all add: select_one_def update_where_def)
  then show ?thesis by (simp add: counters_def)
qed

lemma Users_GetByUsername_row:
  "Users_GetByUsername db n = Inr u \<Longrightarrow> u \<in> set (t_users db) \<and> usr_Username u = n"
  by (auto simp: Users_GetByUsername_def split: option.splits dest: select_one_Some_D)

lemma counters_row:
  assumes "unique_key usr_ID (t_users db)" "u \<in> set (t_users db)"
  shows "counters db (usr_ID u) = Some (usr_FailedLogins u, usr_LockedUntil u)"
  using select_one_unique[OF assms] by (simp add: counters_def)

lemma updated_row:
  assumes "select_one (\<lambda>r. usr_ID r = i) us = Some u" "\<And>r. usr_ID (f r) = usr_ID r"
  shows "select_one (\<lambda>r. usr_ID r = i) (update_where (\<lambda>r. usr_ID r = i) f us) = Some (f u)"
proof -
  have "usr_ID u = i" using select_one_Some_D[OF assms(1)] by simp
  then show ?thesis using assms by (subst select_one_update) simp_all
qed

lemma counters_failure:
  assumes "unique_key usr_ID (t_users db)" "u \<in> set (t_users db)"
  shows "counters (local_recordFailure cfg tk u db) (usr_ID u) =
    Some (usr_FailedLogins u + 1, if 0 < lc_LockoutThreshold cfg \<and> lc_LockoutThreshold cfg \<le> usr_FailedLogins u + 1
      then NullTime (tk_now tk + lc_LockoutDuration cfg) else None)"
proof -
  have row: "select_one (\<lambda>r. usr_ID r = usr_ID u) (t_users db) = Some u" using select_one_unique[OF assms] .
  show ?thesis
    by (simp add: local_recordFailure_def RecordFailedLogin_def Let_def after_def counters_def row
        updated_row[OF row] del: if_split)
qed

lemma counters_rehash: "j \<noteq> i \<Longrightarrow> usr_ID u = j \<Longrightarrow> counters (snd (local_rehash ax tk u password db)) i = counters db i"
  by (auto simp: local_rehash_def Let_def after_def Users_Update_def intro!: counters_other split: sum.splits)

lemma counters_success: "j \<noteq> i \<Longrightarrow> counters (RecordSuccessfulLogin now j db) i = counters db i"
  by (auto simp: RecordSuccessfulLogin_def intro!: counters_other)

lemma rehash_ID: "usr_ID (fst (local_rehash ax tk u password db)) = usr_ID u"
  by (simp add: local_rehash_def Let_def split: sum.splits)

lemma admin_ok_local_Authenticate:
  assumes "admin_ok db"
  shows "admin_ok (snd (local_Authenticate cfg ax tk n p db))"
proof -
  have "admin_ok (local_recordFailure cfg tk u db)" for u
    using assms unfolding local_recordFailure_def by (blast intro: admin_ok_after admin_ok_RecordFailedLogin)
  moreover have "admin_ok (snd (local_rehash ax tk u p db))" for u
    using assms by (auto simp: local_rehash_def Let_def intro!: admin_ok_after intro: admin_ok_Users_Update split: sum.splits)
  ultimately show ?thesis
    using assms by (auto simp: local_Authenticate_def Let_def case_prod_beta intro: admin_ok_RecordSuccessfulLogin split: sum.split)
qed

text \<open>One attempt and the counters of \<open>i\<close>.\<close>

lemma attempt_counters:
  assumes "admin_ok db" "local_Authenticate cfg ax tk n p db = (r, db')" "\<forall>u. r = Inr u \<longrightarrow> usr_ID u \<noteq> i"
  shows "if wrong_guess cfg ax tk n p i db
    then \<exists>c l. counters db i = Some (c, l) \<and> (case l of None \<Rightarrow> True | Some t \<Rightarrow> t \<le> tk_now tk) \<and>
      counters db' i = Some (c + 1, if 0 < lc_LockoutThreshold cfg \<and> lc_LockoutThreshold cfg \<le> c + 1
        then NullTime (tk_now tk + lc_LockoutDuration cfg) else None)
    else counters db' i = counters db i"
proof (cases "\<exists>u. lc_Enabled cfg \<and> Users_GetByUsername db n = Inr u")
  case False
  then show ?thesis using assms(2)
    by (auto simp: local_Authenticate_def wrong_guess_def split: sum.splits if_splits)
next
  case True
  then obtain u where en: "lc_Enabled cfg" and u: "Users_GetByUsername db n = Inr u" by blast
  have uniq: "unique_key usr_ID (t_users db)" "u \<in> set (t_users db)"
    using assms(1) Users_GetByUsername_row[OF u] by (simp_all add: admin_ok_def)
  show ?thesis
  proof (cases "usr_ID u = i")
    case True
    then show ?thesis
      using assms(2,3) counters_row[OF uniq] counters_failure[OF uniq, of cfg tk] rehash_ID[of ax tk u p db]
      by (auto simp: local_Authenticate_def wrong_guess_def en u LockedAt_def case_prod_beta
          split: sum.splits if_splits option.splits)
  next
    case False
    have "counters (local_recordFailure cfg tk u db) i = counters db i"
      using False by (auto simp: local_recordFailure_def after_def RecordFailedLogin_def Let_def
          intro!: counters_other split: sum.splits option.splits)
    then show ?thesis
      using assms(2) False
      by (auto simp: local_Authenticate_def wrong_guess_def en u case_prod_beta counters_success counters_rehash
          split: sum.splits if_splits)
  qed
qed

text \<open>The state after the guesses at the times \<open>gs\<close>.\<close>

definition lockout_inv :: "LocalConfig \<Rightarrow> string \<Rightarrow> int \<Rightarrow> instant list \<Rightarrow> instant \<Rightarrow> DB \<Rightarrow> bool" where
  "lockout_inv cfg i c0 gs t db =
    (admin_ok db \<and> 0 \<le> t \<and>
     (\<exists>l. counters db i = Some (c0 + int (length gs), l) \<and>
        (gs \<noteq> [] \<and> lc_LockoutThreshold cfg \<le> int (length gs) \<longrightarrow> l = Some (last gs + lc_LockoutDuration cfg))) \<and>
     (gs \<noteq> [] \<longrightarrow> hd gs \<le> last gs \<and> last gs \<le> t \<and>
        (int (length gs) - lc_LockoutThreshold cfg) * lc_LockoutDuration cfg \<le> last gs - hd gs))"

lemma lockout_inv_attempt:
  assumes inv: "lockout_inv cfg i c0 gs t db" and later: "t \<le> tk_now tk" and "0 \<le> c0"
    and guess: "local_Authenticate cfg ax tk n p db = (r, db')" "\<forall>u. r = Inr u \<longrightarrow> usr_ID u \<noteq> i"
    and pos: "0 < lc_LockoutThreshold cfg" "0 < lc_LockoutDuration cfg"
  shows "lockout_inv cfg i c0 (if wrong_guess cfg ax tk n p i db then gs @ [tk_now tk] else gs) (tk_now tk) db'"
proof -
  let ?L = "lc_LockoutDuration cfg" and ?T = "lc_LockoutThreshold cfg" and ?now = "tk_now tk"
  have ok: "admin_ok db" "admin_ok db'" and t: "0 \<le> t"
    using inv admin_ok_local_Authenticate[of db cfg ax tk n p] guess(1) by (simp_all add: lockout_inv_def)
  obtain l where l: "counters db i = Some (c0 + int (length gs), l)"
    "gs \<noteq> [] \<Longrightarrow> ?T \<le> int (length gs) \<Longrightarrow> l = Some (last gs + ?L)"
    using inv by (auto simp: lockout_inv_def)
  show ?thesis
  proof (cases "wrong_guess cfg ax tk n p i db")
    case False
    then show ?thesis
      using inv ok later attempt_counters[OF ok(1) guess] by (auto simp: lockout_inv_def)
  next
    case True
    then have free: "case l of None \<Rightarrow> True | Some u \<Rightarrow> u \<le> ?now"
      and c: "counters db' i = Some (c0 + int (length gs) + 1,
        if 0 < ?T \<and> ?T \<le> c0 + int (length gs) + 1 then NullTime (?now + ?L) else None)"
      using attempt_counters[OF ok(1) guess] l(1) by auto
    have "zero_time < 0" by (simp add: zero_time_def second_def)
    then have nt: "NullTime (?now + ?L) = Some (?now + ?L)" using t later pos(2) by (simp add: NullTime_def)
    have gap: "last gs + ?L \<le> ?now" if "gs \<noteq> []" "?T \<le> int (length gs)" using free l(2)[OF that] by simp
    have "(int (length gs) + 1 - ?T) * ?L \<le> ?now - hd (gs @ [?now])"
    proof (cases "gs \<noteq> [] \<and> ?T \<le> int (length gs)")
      case True
      then have "(int (length gs) - ?T) * ?L \<le> last gs - hd gs" using inv by (simp add: lockout_inv_def)
      moreover have "(int (length gs) + 1 - ?T) * ?L = (int (length gs) - ?T) * ?L + ?L" by (simp add: algebra_simps)
      ultimately show ?thesis using gap True by simp
    next
      case False
      then have "int (length gs) + 1 - ?T \<le> 0" using pos(1) by auto
      then have "(int (length gs) + 1 - ?T) * ?L \<le> 0" using pos(2) by (simp add: mult_nonpos_nonneg)
      moreover have "hd (gs @ [?now]) \<le> ?now" using inv later by (cases gs) (auto simp: lockout_inv_def)
      ultimately show ?thesis by simp
    qed
    moreover have "hd (gs @ [?now]) \<le> ?now" using inv later by (cases gs) (auto simp: lockout_inv_def)
    ultimately show ?thesis
      using True ok t later c nt pos(1) assms(3) by (simp add: lockout_inv_def add.commute add.left_commute)
  qed
qed

lemma login_run_inv:
  assumes "login_run cfg ax i db0 gs t db" "admin_ok db0" "counters db0 i = Some (c0, l0)" "0 \<le> c0"
    and "0 < lc_LockoutThreshold cfg" "0 < lc_LockoutDuration cfg"
  shows "lockout_inv cfg i c0 gs t db"
  using assms(1)
proof (induction rule: login_run.induct)
  case (Start t)
  then show ?case using assms(2,3) by (simp add: lockout_inv_def)
next
  case (Attempt gs t db tk n p r db')
  then show ?case using lockout_inv_attempt[OF Attempt(5,2) assms(4)] assms(5,6) by blast
next
  case (Write gs t db t' db')
  then show ?case by (auto simp: lockout_inv_def)
qed


definition sample_admin_env :: admin_env where
  "sample_admin_env = \<lparr> ax_sha256 = (\<lambda>s. s), ax_kdf = (\<lambda>pw _ _ _ _ _. if pw = ''correct horse'' then ''key'' else ''no''),
     ax_cpus = 2, ax_parse_ip = (\<lambda>s. if s = ''192.0.2.1'' then Some [192, 0, 2, 1] else None),
     ax_show_ip = (\<lambda>_. ''192.0.2.1''), ax_parse_cidr = (\<lambda>_. None), ax_mail_parse = (\<lambda>s. Some ('''', s)),
     ax_parse_time = (\<lambda>_. None) \<rparr>"

definition sample_tick :: "instant \<Rightarrow> tick" where
  "sample_tick t = \<lparr> tk_now = t, tk_id = (\<lambda>s. ''id-'' @ s), tk_random = (\<lambda>s n. take n (s @ replicate n CHR ''r'')) \<rparr>"

definition sample_admin :: "string \<Rightarrow> Role \<Rightarrow> AdminUser" where
  "sample_admin i role = \<lparr> usr_ID = i, usr_Username = ''user-'' @ i, usr_Email = '''', usr_DisplayName = '''',
     usr_PasswordHash = Some ''$argon2id$v=19$m=8,t=1,p=1$c2FsdA$a2V5'', usr_Role = role, usr_Source = SourceLocal,
     usr_Subject = None, usr_TOTPSecretEnc = '''', usr_TOTPEnrolledAt = None, usr_Disabled = False, usr_FailedLogins = 0,
     usr_LockedUntil = None, usr_LastLoginAt = None, usr_CreatedAt = 0, usr_UpdatedAt = 0 \<rparr>"

definition sample_admin_db :: DB where
  "sample_admin_db = empty_db\<lparr> t_users := [sample_admin ''root'' RoleAdmin, sample_admin ''op'' RoleOperator] \<rparr>"

definition sample_lockout :: LocalConfig where
  "sample_lockout = \<lparr> lc_Enabled = True, lc_LockoutThreshold = 1, lc_LockoutDuration = 10 \<rparr>"

definition sample_guess :: "instant \<Rightarrow> DB \<Rightarrow> (auth_error, AdminUser) result \<times> DB" where
  "sample_guess t = local_Authenticate sample_lockout sample_admin_env (sample_tick t) ''user-root'' ''guess''"

lemma sample_guess_step:
  assumes "login_run sample_lockout sample_admin_env ''root'' sample_admin_db gs t db" "t \<le> t'"
    and "fst (sample_guess t' db) = Inl e"
    and "wrong_guess sample_lockout sample_admin_env (sample_tick t') ''user-root'' ''guess'' ''root'' db"
  shows "login_run sample_lockout sample_admin_env ''root'' sample_admin_db (gs @ [t']) t' (snd (sample_guess t' db))"
proof -
  have "local_Authenticate sample_lockout sample_admin_env (sample_tick t') ''user-root'' ''guess'' db =
      (Inl e, snd (sample_guess t' db))"
    using assms(3) by (simp add: sample_guess_def prod_eq_iff)
  from Attempt[OF assms(1) _ this] show ?thesis using assms(2,4) by (simp add: sample_tick_def)
qed

lemma sample_guess_run:
  "login_run sample_lockout sample_admin_env ''root'' sample_admin_db [5, 15] 15
    (snd (sample_guess 15 (snd (sample_guess 5 sample_admin_db))))"
proof -
  let ?d1 = "snd (sample_guess 5 sample_admin_db)"
  have "login_run sample_lockout sample_admin_env ''root'' sample_admin_db [] 0 sample_admin_db" by (rule Start) simp
  then have "login_run sample_lockout sample_admin_env ''root'' sample_admin_db ([] @ [5]) 5 ?d1"
    by (rule sample_guess_step[where e = ErrInvalidCredentials]) (simp, code_simp+)
  then have "login_run sample_lockout sample_admin_env ''root'' sample_admin_db (([] @ [5]) @ [15]) 15 (snd (sample_guess 15 ?d1))"
    by (rule sample_guess_step[where e = ErrInvalidCredentials]) (simp, code_simp+)
  then show ?thesis by simp
qed


section \<open>Signed-in requests\<close>

text \<open>When a request is taken to be signed in: its cookie is the token of a stored session that has
  neither expired nor been idle for too long, and the session's user exists and is not disabled.  The
  user handed to the handlers is the stored row, so a changed role takes effect at once.\<close>

lemma session_Authenticate_sound:
  assumes "session_Authenticate m ax tk r db = (Inr auth, db')"
  obtains token where "request_cookie r (sc_CookieName m) = Some token" "token \<noteq> ''''"
    and "au_Session auth \<in> set (t_sessions db)" "ses_TokenHash (au_Session auth) = HashSessionToken (ax_sha256 ax) token"
    and "tk_now tk < ses_ExpiresAt (au_Session auth)"
    and "sc_IdleTimeout m \<le> 0 \<or> tk_now tk - ses_LastSeenAt (au_Session auth) \<le> sc_IdleTimeout m"
    and "au_User auth \<in> set (t_users db)" "usr_ID (au_User auth) = ses_UserID (au_Session auth)" "\<not> usr_Disabled (au_User auth)"
  using assms
  by (auto simp: session_Authenticate_def Lookup_def session_row_def
      split: option.splits prod.splits if_splits sum.splits dest!: select_one_Some_D)

text \<open>Deleting the sessions of a user signs the user out everywhere.\<close>

lemma revoked_everywhere:
  assumes "session_Authenticate m ax tk r (RevokeAllForUser i db) = (Inr auth, db')"
  shows "usr_ID (au_User auth) \<noteq> i"
proof -
  have "au_Session auth \<in> set (t_sessions (RevokeAllForUser i db))" "usr_ID (au_User auth) = ses_UserID (au_Session auth)"
    using assms by (auto elim: session_Authenticate_sound)
  then show ?thesis by (auto simp: RevokeAllForUser_def DeleteForUser_def set_delete_where)
qed

section \<open>Writes\<close>

lemma store_steps_after: "(\<And>db'. r = Inr db' \<Longrightarrow> store_step db db') \<Longrightarrow> store_step\<^sup>*\<^sup>* db (after db r)"
  by (cases r) (auto simp: after_def)

lemma store_steps_trans: "store_step\<^sup>*\<^sup>* a b \<Longrightarrow> store_step b c \<Longrightarrow> store_step\<^sup>*\<^sup>* a c"
  by (rule rtranclp.rtrancl_into_rtrancl)

lemma store_steps_local_Authenticate: "store_step\<^sup>*\<^sup>* db (snd (local_Authenticate cfg ax tk n p db))"
proof -
  have fail: "store_step\<^sup>*\<^sup>* db (local_recordFailure cfg tk u db)" for u
    unfolding local_recordFailure_def by (blast intro: store_steps_after LoginFailed)
  have "store_step\<^sup>*\<^sup>* db (snd (local_rehash ax tk u p db))" for u
    by (auto simp: local_rehash_def Let_def intro!: store_steps_after intro: UserUpdate split: sum.splits)
  then have "store_step\<^sup>*\<^sup>* db (RecordSuccessfulLogin now i (snd (local_rehash ax tk u p db)))" for u now i
    by (rule store_steps_trans) (rule LoginSucceeded)
  moreover have "store_step\<^sup>*\<^sup>* db (RecordSuccessfulLogin now i db)" for now i by (simp add: LoginSucceeded r_into_rtranclp)
  ultimately show ?thesis
    using fail by (auto simp: local_Authenticate_def Let_def case_prod_beta split: sum.split)
qed

lemma store_steps_SetPassword: "store_step\<^sup>*\<^sup>* db (snd (SetPassword ax tk u p db))"
  by (auto simp: SetPassword_def split: sum.splits
      intro: store_steps_trans[OF r_into_rtranclp, OF UserUpdate SessionsOfUser])

lemma store_steps_Issue: "Issue m ax tk u r db = Inr (s, db') \<Longrightarrow> store_step db db'"
  by (auto simp: Issue_def Let_def split: sum.splits intro: SessionCreate)

lemma store_steps_session_Authenticate: "store_step\<^sup>*\<^sup>* db (snd (session_Authenticate m ax tk r db))"
  by (auto simp: session_Authenticate_def Lookup_def split: option.splits prod.splits sum.splits if_splits
      intro: r_into_rtranclp SessionDelete SessionTouch)

end
