(* ===== verification/Oidc.thy ===== *)
theory Oidc
  imports AdminAuth
begin

text \<open>
  Single sign-on (\<^verbatim>\<open>src/internal/adminauth/oidc.go\<close>): the authorization code flow, the mapping of
  claims to a role, and the account a sign-in is resolved to.

  The identity provider and the libraries that talk to it are a parameter, \<open>idp\<close>: the URL a browser is
  sent to, the exchange of a code, and the verification of an ID token, whose claims are a decoded JSON
  object.  The lemmas show that a completed sign-in belongs to the request that started it, carries the
  most privileged role its claims map to, and is that of an enabled account of exactly the verified subject.
\<close>

section \<open>Configuration\<close>

record OIDCConfig =
  oc_Enabled :: bool
  oc_Issuer :: string
  oc_ClientID :: string
  oc_ClientSecret :: string
  oc_Scopes :: "string list"
  oc_BaseURL :: string
  oc_UsernameClaim :: string
  oc_RoleClaim :: string
  oc_RoleMappings :: "(string \<times> string) list"
  oc_DefaultRole :: string
  oc_AllowSignup :: bool

definition CallbackPath :: string where
  "CallbackPath = ''/api/v1/auth/oidc/callback''"

record id_token =
  it_Subject :: string
  it_Nonce :: string
  it_Claims :: "(string \<times> json) list option"

record idp =
  ip_discover :: "string \<Rightarrow> string option"
  ip_auth_url :: "string \<Rightarrow> string \<Rightarrow> string \<Rightarrow> string"
  ip_exchange :: "string \<Rightarrow> string \<Rightarrow> (string, string option) result"
  ip_verify :: "string \<Rightarrow> (string, id_token) result"

record OIDCAuthenticator =
  oa_cfg :: OIDCConfig
  oa_RedirectURL :: string
  oa_Scopes :: "string list"

definition TrimRightSlashes :: "string \<Rightarrow> string" where
  "TrimRightSlashes s = rev (dropWhile (\<lambda>c. c = CHR ''/'') (rev s))"

text \<open>\<^const>\<open>None\<close> is the nil authenticator of a deployment without single sign-on;
  \<open>ip_discover\<close> gives the error of the discovery, if any.\<close>

definition NewOIDCAuthenticator :: "idp \<Rightarrow> OIDCConfig \<Rightarrow> (auth_error, OIDCAuthenticator option) result" where
  "NewOIDCAuthenticator ip cfg =
    (if \<not> oc_Enabled cfg then Inr None
     else (case ip_discover ip (oc_Issuer cfg) of
         Some e \<Rightarrow> Inl (ErrProvider e)
       | None \<Rightarrow> Inr (Some \<lparr> oa_cfg = cfg, oa_RedirectURL = TrimRightSlashes (oc_BaseURL cfg) @ CallbackPath,
           oa_Scopes = (if oc_Scopes cfg = [] then [''openid'', ''profile'', ''email''] else oc_Scopes cfg) \<rparr>)))"

record AuthRequest =
  ar_URL :: string
  ar_State :: string
  ar_Nonce :: string
  ar_Verifier :: string

definition Start :: "idp \<Rightarrow> tick \<Rightarrow> AuthRequest" where
  "Start ip tk =
    (let state = GenerateToken (tk_random tk ''state''); nonce = GenerateToken (tk_random tk ''nonce'');
         verifier = tk_random tk ''verifier'' 43
     in \<lparr> ar_URL = ip_auth_url ip state nonce verifier, ar_State = state, ar_Nonce = nonce, ar_Verifier = verifier \<rparr>)"

section \<open>Claims\<close>

record Claims =
  cl_Subject :: string
  cl_Email :: string
  cl_PreferredUsername :: string
  cl_Name :: string
  cl_raw :: "(string \<times> json) list"

text \<open>A number is decoded to a float, never to a \<^verbatim>\<open>json.Number\<close>, so it reads as empty.\<close>

definition claim_value :: "(string \<times> json) list \<Rightarrow> string \<Rightarrow> string" where
  "claim_value raw name =
    (if name = '''' then '''' else (case map_of raw name of Some (JStr v) \<Rightarrow> v | _ \<Rightarrow> ''''))"

definition string_items :: "json list \<Rightarrow> string list" where
  "string_items items = concat (map (\<lambda>item. case item of JStr s \<Rightarrow> [s] | _ \<Rightarrow> []) items)"

definition claim_values :: "(string \<times> json) list \<Rightarrow> string \<Rightarrow> string list" where
  "claim_values raw name =
    (if name = '''' then []
     else (case map_of raw name of Some (JStr v) \<Rightarrow> [v] | Some (JArr items) \<Rightarrow> string_items items | _ \<Rightarrow> []))"

definition readClaims :: "id_token \<Rightarrow> (auth_error, Claims) result" where
  "readClaims t =
    (case it_Claims t of
       None \<Rightarrow> Inl (ErrProvider ''reading the ID token claims'')
     | Some raw \<Rightarrow> Inr \<lparr> cl_Subject = it_Subject t, cl_Email = claim_value raw ''email'',
         cl_PreferredUsername = claim_value raw ''preferred_username'', cl_Name = claim_value raw ''name'', cl_raw = raw \<rparr>)"

definition rank :: "Role \<Rightarrow> nat" where
  "rank r = (case r of RoleAdmin \<Rightarrow> 3 | RoleOperator \<Rightarrow> 2 | RoleViewer \<Rightarrow> 1 | RoleUnknown _ \<Rightarrow> 0)"

definition morePrivileged :: "Role \<Rightarrow> Role \<Rightarrow> bool" where
  "morePrivileged a b = (rank b < rank a)"

text \<open>The loop over the values of the claim; \<^const>\<open>None\<close> is the empty role it starts with.\<close>

fun best_role :: "(string \<times> string) list \<Rightarrow> string list \<Rightarrow> Role option \<Rightarrow> Role option" where
  "best_role mappings [] best = best"
| "best_role mappings (v # vs) best =
    (case map_of mappings v of
       None \<Rightarrow> best_role mappings vs best
     | Some mapped \<Rightarrow>
         (case ParseRole mapped of
            Inl _ \<Rightarrow> best_role mappings vs best
          | Inr role \<Rightarrow>
              best_role mappings vs
                (case best of None \<Rightarrow> Some role | Some b \<Rightarrow> if morePrivileged role b then Some role else best)))"

definition roleFor :: "OIDCConfig \<Rightarrow> Claims \<Rightarrow> (auth_error, Role) result" where
  "roleFor cfg claims =
    (case best_role (oc_RoleMappings cfg) (claim_values (cl_raw claims) (oc_RoleClaim cfg)) None of
       Some best \<Rightarrow> Inr best
     | None \<Rightarrow> if oc_DefaultRole cfg = '''' then Inl ErrNoRole else ParseRole (oc_DefaultRole cfg))"

definition first_nonempty :: "string list \<Rightarrow> string" where
  "first_nonempty xs = (case find (\<lambda>s. s \<noteq> '''') xs of None \<Rightarrow> '''' | Some s \<Rightarrow> s)"

definition usernameFor :: "OIDCConfig \<Rightarrow> Claims \<Rightarrow> string" where
  "usernameFor cfg claims =
    first_nonempty [claim_value (cl_raw claims) (oc_UsernameClaim cfg), cl_PreferredUsername claims, cl_Email claims,
      cl_Subject claims]"

section \<open>Accounts\<close>

definition syncExisting ::
  "OIDCConfig \<Rightarrow> tick \<Rightarrow> AdminUser \<Rightarrow> Claims \<Rightarrow> Role \<Rightarrow> DB \<Rightarrow> (auth_error, AdminUser) result \<times> DB" where
  "syncExisting cfg tk user claims role db =
    (if usr_Disabled user then (Inl ErrInvalidCredentials, db)
     else
       (let roleChanged = (usr_Role user \<noteq> role);
            name = usernameFor cfg claims;
            user' = user\<lparr> usr_Role := role, usr_Username := (if name \<noteq> '''' then name else usr_Username user),
                          usr_Email := cl_Email claims, usr_DisplayName := cl_Name claims \<rparr>
        in (case Users_Update (tk_now tk) user' db of
              Inl e \<Rightarrow> (Inl (ErrStore e), db)
            | Inr db1 \<Rightarrow>
                (let db2 = (if roleChanged then snd (DeleteForUser (usr_ID user') db1) else db1)
                 in (Inr (user'\<lparr> usr_UpdatedAt := tk_now tk \<rparr>), RecordSuccessfulLogin (tk_now tk) (usr_ID user') db2)))))"

definition provision ::
  "OIDCConfig \<Rightarrow> tick \<Rightarrow> Claims \<Rightarrow> Role \<Rightarrow> DB \<Rightarrow> (auth_error, AdminUser) result \<times> DB" where
  "provision cfg tk claims role db =
    (let username = usernameFor cfg claims
     in if username = '''' then (Inl (ErrProvider ''the identity provider returned no claim to use as a username''), db)
        else (case Users_Create (tk_now tk) (tk_id tk ''user'')
                \<lparr> usr_ID = '''', usr_Username = username, usr_Email = cl_Email claims, usr_DisplayName = cl_Name claims,
                  usr_PasswordHash = None, usr_Role = role, usr_Source = SourceOIDC, usr_Subject = NullString (cl_Subject claims),
                  usr_TOTPSecretEnc = '''', usr_TOTPEnrolledAt = None, usr_Disabled = False, usr_FailedLogins = 0,
                  usr_LockedUntil = None, usr_LastLoginAt = None, usr_CreatedAt = zero_time, usr_UpdatedAt = zero_time \<rparr> db of
            Inl e \<Rightarrow> (Inl (ErrStore e), db)
          | Inr (user, db') \<Rightarrow> (Inr user, RecordSuccessfulLogin (tk_now tk) (usr_ID user) db')))"

definition resolveUser :: "OIDCConfig \<Rightarrow> tick \<Rightarrow> Claims \<Rightarrow> DB \<Rightarrow> (auth_error, AdminUser) result \<times> DB" where
  "resolveUser cfg tk claims db =
    (case roleFor cfg claims of
       Inl e \<Rightarrow> (Inl e, db)
     | Inr role \<Rightarrow>
         (case Users_GetBySubject db SourceOIDC (cl_Subject claims) of
            Inr existing \<Rightarrow> syncExisting cfg tk existing claims role db
          | Inl e \<Rightarrow>
              if e \<noteq> ErrNotFound then (Inl (ErrStore e), db)
              else if \<not> oc_AllowSignup cfg then (Inl ErrSignupDisabled, db)
              else provision cfg tk claims role db))"

definition Complete ::
  "idp \<Rightarrow> OIDCConfig \<Rightarrow> tick \<Rightarrow> string \<Rightarrow> AuthRequest \<Rightarrow> string \<Rightarrow> DB \<Rightarrow> (auth_error, AdminUser) result \<times> DB" where
  "Complete ip cfg tk code req returnedState db =
    (if returnedState = '''' \<or> \<not> ConstantTimeEqual returnedState (ar_State req) then (Inl ErrBadState, db)
     else (case ip_exchange ip code (ar_Verifier req) of
         Inl e \<Rightarrow> (Inl (ErrProvider e), db)
       | Inr token \<Rightarrow>
           if token = None \<or> token = Some '''' then (Inl (ErrProvider ''the identity provider returned no ID token''), db)
           else (case ip_verify ip (the token) of
               Inl e \<Rightarrow> (Inl (ErrProvider e), db)
             | Inr idToken \<Rightarrow>
                 if \<not> ConstantTimeEqual (it_Nonce idToken) (ar_Nonce req) then (Inl ErrBadState, db)
                 else (case readClaims idToken of
                     Inl e \<Rightarrow> (Inl e, db)
                   | Inr claims \<Rightarrow> resolveUser cfg tk claims db))))"

definition StateCookie :: "string \<Rightarrow> string \<Rightarrow> bool \<Rightarrow> cookie" where
  "StateCookie name val secure =
    \<lparr> ck_Name = name, ck_Value = val, ck_Path = CallbackPath, ck_HttpOnly = True, ck_Secure = secure,
      ck_SameSiteLax = True, ck_Expires = None, ck_MaxAge = 600 \<rparr>"

section \<open>The role of a sign-in\<close>

text \<open>The roles the values of the claim map to.\<close>

definition roles_of :: "(string \<times> string) list \<Rightarrow> string list \<Rightarrow> Role set" where
  "roles_of mappings vs = {r. \<exists>v\<in>set vs. \<exists>s. map_of mappings v = Some s \<and> ParseRole s = Inr r}"

definition mapped_roles :: "OIDCConfig \<Rightarrow> Claims \<Rightarrow> Role set" where
  "mapped_roles cfg claims = roles_of (oc_RoleMappings cfg) (claim_values (cl_raw claims) (oc_RoleClaim cfg))"

lemma roles_of_Cons:
  "roles_of mappings (v # vs) =
    (case map_of mappings v of None \<Rightarrow> {} | Some s \<Rightarrow> (case ParseRole s of Inl _ \<Rightarrow> {} | Inr r \<Rightarrow> {r})) \<union> roles_of mappings vs"
  by (auto simp: roles_of_def split: option.splits sum.splits)

lemma best_role_max:
  "case best_role mappings vs best of None \<Rightarrow> roles_of mappings vs \<union> set_option best = {}
   | Some r \<Rightarrow> r \<in> roles_of mappings vs \<union> set_option best \<and> (\<forall>q\<in>roles_of mappings vs \<union> set_option best. rank q \<le> rank r)"
proof (induction vs arbitrary: best)
  case Nil
  then show ?case by (auto simp: roles_of_def split: option.splits)
next
  case (Cons v vs)
  show ?case
  proof (cases "\<exists>s r. map_of mappings v = Some s \<and> ParseRole s = Inr r")
    case False
    then show ?thesis using Cons[of best] by (auto simp: roles_of_Cons split: option.splits sum.splits)
  next
    case True
    then obtain s r where v: "map_of mappings v = Some s" "ParseRole s = Inr r" by blast
    show ?thesis
    proof (cases best)
      case None
      then show ?thesis using Cons[of "Some r"] v by (auto simp: roles_of_Cons split: option.splits)
    next
      case (Some b)
      then show ?thesis
        using Cons[of "if morePrivileged r b then Some r else Some b"] v
        by (auto simp: roles_of_Cons morePrivileged_def split: option.splits if_splits)
    qed
  qed
qed

lemma roleFor_max:
  "roleFor cfg claims = Inr r \<Longrightarrow>
   (if mapped_roles cfg claims = {} then oc_DefaultRole cfg \<noteq> '''' \<and> ParseRole (oc_DefaultRole cfg) = Inr r
    else r \<in> mapped_roles cfg claims \<and> (\<forall>q\<in>mapped_roles cfg claims. rank q \<le> rank r))"
  using best_role_max[of "oc_RoleMappings cfg" "claim_values (cl_raw claims) (oc_RoleClaim cfg)" None]
  by (auto simp: roleFor_def mapped_roles_def split: option.splits if_splits)

section \<open>Who is signed in\<close>

definition others :: "string \<Rightarrow> DB \<Rightarrow> AdminUser list" where
  "others i db = filter (\<lambda>r. usr_ID r \<noteq> i) (t_users db)"

text \<open>The stored account of a completed sign-in.\<close>

definition signed_in :: "AdminUser \<Rightarrow> string \<Rightarrow> Role \<Rightarrow> DB \<Rightarrow> bool" where
  "signed_in u subject role db =
    (usr_Role u = role \<and> list_ex (\<lambda>r. usr_ID r = usr_ID u \<and> usr_Source r = SourceOIDC \<and>
       null_string (usr_Subject r) = subject \<and> usr_Role r = role \<and> \<not> usr_Disabled r) (t_users db))"

lemma others_update: "others i (db\<lparr> t_users := update_where (\<lambda>r. usr_ID r = i) f (t_users db) \<rparr>) = others i db"
  if "\<And>r. usr_ID r = i \<Longrightarrow> usr_ID (f r) = i"
proof -
  have "filter (\<lambda>r. usr_ID r \<noteq> i) (update_where (\<lambda>r. usr_ID r = i) f us) = filter (\<lambda>r. usr_ID r \<noteq> i) us" for us
    using that by (induction us) (auto simp: update_where_def)
  then show ?thesis by (simp add: others_def)
qed

lemma others_login: "others i (RecordSuccessfulLogin now i db) = others i db"
  by (simp add: RecordSuccessfulLogin_def others_update)

lemma signed_in_login: "signed_in u subject role (RecordSuccessfulLogin now i db) = signed_in u subject role db"
proof -
  define g where "g r = (if usr_ID r = i then r\<lparr> usr_FailedLogins := 0, usr_LockedUntil := None, usr_LastLoginAt := Some now,
    usr_UpdatedAt := now \<rparr> else r)" for r :: AdminUser
  have "usr_ID (g r) = usr_ID r" "usr_Source (g r) = usr_Source r" "usr_Subject (g r) = usr_Subject r" "usr_Role (g r) = usr_Role r"
    "usr_Disabled (g r) = usr_Disabled r" for r by (simp_all add: g_def)
  moreover have "t_users (RecordSuccessfulLogin now i db) = map g (t_users db)"
    by (simp add: RecordSuccessfulLogin_def update_where_def g_def)
  ultimately show ?thesis by (simp add: signed_in_def list_ex_iff)
qed

lemma syncExisting_signed_in:
  assumes "syncExisting cfg tk user claims role db = (Inr u, db')"
    and "user \<in> set (t_users db)" "usr_Source user = SourceOIDC" "usr_Subject user = Some (cl_Subject claims)"
  shows "signed_in u (cl_Subject claims) role db' \<and> others (usr_ID u) db' = others (usr_ID u) db"
proof -
  define user' where "user' = user\<lparr> usr_Role := role,
    usr_Username := (if usernameFor cfg claims \<noteq> '''' then usernameFor cfg claims else usr_Username user),
    usr_Email := cl_Email claims, usr_DisplayName := cl_Name claims \<rparr>"
  obtain db1 where en: "\<not> usr_Disabled user" and upd: "Users_Update (tk_now tk) user' db = Inr db1"
    and u: "u = user'\<lparr> usr_UpdatedAt := tk_now tk \<rparr>"
    and db': "db' = RecordSuccessfulLogin (tk_now tk) (usr_ID u)
      (if usr_Role user \<noteq> role then snd (DeleteForUser (usr_ID u) db1) else db1)"
    using assms(1) by (auto simp: syncExisting_def user'_def Let_def split: if_splits sum.splits)
  define f where "f r = user'\<lparr> usr_CreatedAt := usr_CreatedAt r, usr_FailedLogins := usr_FailedLogins r,
    usr_LockedUntil := usr_LockedUntil r, usr_LastLoginAt := usr_LastLoginAt r, usr_UpdatedAt := tk_now tk \<rparr>" for r :: AdminUser
  have i: "usr_ID user' = usr_ID user" "usr_ID u = usr_ID user" by (simp_all add: user'_def u)
  have db1: "db1 = db\<lparr> t_users := update_where (\<lambda>r. usr_ID r = usr_ID u) f (t_users db) \<rparr>"
    using upd by (auto simp: Users_Update_def i f_def[abs_def] split: if_splits)
  have users: "t_users (snd (DeleteForUser j d)) = t_users d" for j d by (simp add: DeleteForUser_def)
  have "f user \<in> set (t_users db1)" using assms(2) by (auto simp: db1 set_update_where i)
  then have "signed_in u (cl_Subject claims) role db1"
    using en assms(3,4) by (auto simp: signed_in_def list_ex_iff f_def user'_def u null_string_def intro!: bexI[of _ "f user"])
  moreover have "others (usr_ID u) db1 = others (usr_ID u) db"
    unfolding db1 by (rule others_update) (simp add: f_def i)
  ultimately show ?thesis
    by (simp add: db' signed_in_login others_login) (simp add: signed_in_def others_def users)
qed

lemma provision_signed_in:
  assumes "provision cfg tk claims role db = (Inr u, db')"
  shows "signed_in u (cl_Subject claims) role db' \<and> others (usr_ID u) db' = others (usr_ID u) db"
  using assms
  by (auto simp: provision_def Users_Create_def Let_def signed_in_login others_login split: if_splits sum.splits)
    (simp_all add: signed_in_def others_def SourceOIDC_def)

text \<open>C15: Single sign-on is completed only for the request that started it, and signs in only the account
  of the subject the identity provider vouched for.  The stored account is enabled and carries the most
  privileged role the claims map to, or the default role if they map to none; no other account
  is touched.\<close>

theorem sso_sound:
  assumes "Complete ip cfg tk code req returnedState db = (Inr u, db')"
  shows "returnedState = ar_State req \<and> returnedState \<noteq> '''' \<and>
    (\<exists>raw t claims role. ip_exchange ip code (ar_Verifier req) = Inr (Some raw) \<and> ip_verify ip raw = Inr t \<and>
       it_Nonce t = ar_Nonce req \<and> readClaims t = Inr claims \<and>
       (if mapped_roles cfg claims = {} then oc_DefaultRole cfg \<noteq> '''' \<and> ParseRole (oc_DefaultRole cfg) = Inr role
        else role \<in> mapped_roles cfg claims \<and> (\<forall>q\<in>mapped_roles cfg claims. rank q \<le> rank role)) \<and>
       signed_in u (it_Subject t) role db') \<and>
    others (usr_ID u) db' = others (usr_ID u) db"
proof -
  obtain raw t claims where flow: "returnedState = ar_State req" "returnedState \<noteq> ''''"
    "ip_exchange ip code (ar_Verifier req) = Inr (Some raw)" "ip_verify ip raw = Inr t" "it_Nonce t = ar_Nonce req"
    "readClaims t = Inr claims" and res: "resolveUser cfg tk claims db = (Inr u, db')"
    using assms by (auto simp: Complete_def ConstantTimeEqual_def split: if_splits sum.splits)
  have subject: "cl_Subject claims = it_Subject t" using flow(6) by (auto simp: readClaims_def split: option.splits)
  obtain role where role: "roleFor cfg claims = Inr role" using res by (auto simp: resolveUser_def split: sum.splits)
  have "signed_in u (cl_Subject claims) role db' \<and> others (usr_ID u) db' = others (usr_ID u) db"
  proof (cases "Users_GetBySubject db SourceOIDC (cl_Subject claims)")
    case (Inl e)
    then show ?thesis using res role by (auto simp: resolveUser_def split: if_splits intro: provision_signed_in[THEN conjunct1]
          provision_signed_in[THEN conjunct2])
  next
    case (Inr existing)
    then have "existing \<in> set (t_users db)" "usr_Source existing = SourceOIDC" "usr_Subject existing = Some (cl_Subject claims)"
      by (auto simp: Users_GetBySubject_def split: option.splits dest: select_one_Some_D)
    then show ?thesis using res role Inr syncExisting_signed_in[of cfg tk existing claims role db u db']
      by (simp add: resolveUser_def)
  qed
  then show ?thesis
    using flow roleFor_max[OF role] subject
    by (intro conjI exI[of _ raw] exI[of _ t] exI[of _ claims] exI[of _ role]; simp)
qed

lemma store_steps_Complete: "store_step\<^sup>*\<^sup>* db (snd (Complete ip cfg tk code req returnedState db))"
proof -
  have sync: "store_step\<^sup>*\<^sup>* db (snd (syncExisting cfg tk user claims role db))" for user claims role
  proof (cases "snd (syncExisting cfg tk user claims role db) = db")
    case False
    then obtain db1 user' where "Users_Update (tk_now tk) user' db = Inr db1"
      "snd (syncExisting cfg tk user claims role db) = RecordSuccessfulLogin (tk_now tk) (usr_ID user) db1 \<or>
       snd (syncExisting cfg tk user claims role db) = RecordSuccessfulLogin (tk_now tk) (usr_ID user) (snd (DeleteForUser (usr_ID user) db1))"
      by (auto simp: syncExisting_def Let_def split: if_splits sum.splits)
    then show ?thesis
      by (metis UserUpdate LoginSucceeded SessionsOfUser r_into_rtranclp store_steps_trans)
  qed simp
  have prov: "store_step\<^sup>*\<^sup>* db (snd (provision cfg tk claims role db))" for claims role
    by (auto simp: provision_def Let_def split: sum.split prod.split
        intro: store_steps_trans[OF r_into_rtranclp, OF UserCreate LoginSucceeded])
  have "store_step\<^sup>*\<^sup>* db (snd (resolveUser cfg tk claims db))" for claims
    using sync prov by (auto simp: resolveUser_def split: sum.split)
  then show ?thesis by (auto simp: Complete_def split: sum.split)
qed

section \<open>Witnesses\<close>

definition sample_sso :: OIDCConfig where
  "sample_sso = \<lparr> oc_Enabled = True, oc_Issuer = ''https://idp.example'', oc_ClientID = ''proxy'', oc_ClientSecret = '''',
     oc_Scopes = [], oc_BaseURL = ''https://proxy.example/'', oc_UsernameClaim = ''preferred_username'', oc_RoleClaim = ''groups'',
     oc_RoleMappings = [(''ops'', ''operator''), (''admins'', ''admin''), (''odd'', ''owner'')], oc_DefaultRole = ''viewer'',
     oc_AllowSignup = False \<rparr>"

definition sample_idp :: "string list \<Rightarrow> idp" where
  "sample_idp groups = \<lparr> ip_discover = (\<lambda>_. None), ip_auth_url = (\<lambda>s n v. ''https://idp.example/auth''),
     ip_exchange = (\<lambda>code v. if code = ''code'' then Inr (Some ''id'') else Inl ''bad code''),
     ip_verify = (\<lambda>_. Inr \<lparr> it_Subject = ''s1'', it_Nonce = ''nonce'',
        it_Claims = Some [(''preferred_username'', JStr ''alex''), (''groups'', JArr (map JStr groups))] \<rparr>) \<rparr>"

definition sample_request :: AuthRequest where
  "sample_request = \<lparr> ar_URL = '''', ar_State = ''state'', ar_Nonce = ''nonce'', ar_Verifier = ''v'' \<rparr>"

definition sample_sso_db :: DB where
  "sample_sso_db = empty_db\<lparr> t_users :=
     [(sample_admin ''a1'' RoleAdmin)\<lparr> usr_Source := SourceOIDC, usr_Subject := Some ''s1'', usr_PasswordHash := None \<rparr>] \<rparr>"

definition sample_sign_in :: "string list \<Rightarrow> (auth_error, AdminUser) result \<times> DB" where
  "sample_sign_in groups = Complete (sample_idp groups) sample_sso (sample_tick 5) ''code'' sample_request ''state'' sample_sso_db"

theorem sso_sound_witness:
  "\<exists>u db' role. sample_sign_in [''ops'', ''odd'', ''admins''] = (Inr u, db') \<and> usr_Username u = ''alex'' \<and>
     role = RoleAdmin \<and> signed_in u ''s1'' role db'"
proof -
  have "fst (sample_sign_in [''ops'', ''odd'', ''admins'']) = Inr ((hd (t_users sample_sso_db))\<lparr> usr_Username := ''alex'',
      usr_UpdatedAt := 5 \<rparr>)" by code_simp
  then obtain u db' where s: "sample_sign_in [''ops'', ''odd'', ''admins''] = (Inr u, db')"
    and u: "usr_Username u = ''alex''" "usr_Role u = RoleAdmin"
    by (cases "sample_sign_in [''ops'', ''odd'', ''admins'']") (auto simp: sample_sso_db_def sample_admin_def)
  obtain role t raw where "ip_verify (sample_idp [''ops'', ''odd'', ''admins'']) raw = Inr t" "signed_in u (it_Subject t) role db'"
    using sso_sound[OF s[unfolded sample_sign_in_def]] by blast
  then have "it_Subject t = ''s1''" "signed_in u (it_Subject t) RoleAdmin db'"
    using u by (auto simp: sample_idp_def signed_in_def)
  then show ?thesis using s u by auto
qed

text \<open>The management interface refuses to demote the last administrator; a sign-in whose claims no longer
  map to the administrator role does it.\<close>

lemma sso_demotes_last_admin:
  "CountByRole sample_sso_db RoleAdmin = 1 \<and> CountByRole (snd (sample_sign_in [''ops''])) RoleAdmin = 0"
  by code_simp

end
