(* ===== verification/OAuth.thy ===== *)
theory OAuth
  imports AdminStore Crypto "HOL-Library.AList"
begin

text \<open>
  Access tokens for stored credentials (\<^verbatim>\<open>src/internal/oauth/provider.go\<close>).

  The authentication library is a parameter: \<open>msal\<close> builds a client from an authority, a client
  identifier and a secret or certificate, parses certificates and answers token requests.  A client is the
  data it was built from, so that a cached client can be compared with the stored credential.  The map of
  cached clients is part of the state; its lock makes each access atomic.

  The lemmas show that a token is always requested with a client built from the credential as it is
  stored now, although clients are cached, and what the error text of a refused request may contain.
\<close>

section \<open>Tokens\<close>

record Token =
  tok_AccessToken :: string
  tok_ExpiresAt :: instant

definition RefreshMargin :: duration where "RefreshMargin = 5 * minute"

definition Expired :: "Token \<Rightarrow> instant \<Rightarrow> duration \<Rightarrow> bool" where
  "Expired t now margin = (\<not> now + margin < tok_ExpiresAt t)"

definition Usable :: "Token \<Rightarrow> instant \<Rightarrow> bool" where
  "Usable t now = (tok_AccessToken t \<noteq> '''' \<and> \<not> Expired t now RefreshMargin)"

datatype oauth_error =
    ErrScopeRequired
  | ErrCredentialUnusable string
  | ErrTokenRequestFailed string
  | ErrTenantRequired

section \<open>The provider\<close>

text \<open>What a client is built from: the secret, or the certificates and their key.\<close>

datatype msal_credential = FromSecret string | FromCert string

record msal_client =
  mc_Authority :: string
  mc_ClientID :: string
  mc_Credential :: msal_credential
  mc_InstanceDiscovery :: bool

text \<open>The library: whether it takes a secret, how many certificates it finds in a PEM text or the error
  it reports, whether it takes them, the error of building a client, and its answer to a
  request for a token.\<close>

record msal =
  ms_secret_error :: "string \<Rightarrow> string option"
  ms_parse_pem :: "string \<Rightarrow> (string, nat) result"
  ms_cert_error :: "string \<Rightarrow> string option"
  ms_new_error :: "msal_client \<Rightarrow> string option"
  ms_acquire :: "msal_client \<Rightarrow> string \<Rightarrow> (string, Token) result"

record cachedClient =
  cc_client :: msal_client
  cc_fingerprint :: string

record Provider =
  pv_keyring :: Keyring
  pv_instanceDiscovery :: bool
  pv_defaultAuthorityHost :: string
  pv_clients :: "(string \<times> cachedClient) list"

definition DefaultAuthorityHost :: string where
  "DefaultAuthorityHost = ''https://login.microsoftonline.com''"

type_synonym ProviderOption = "Provider \<Rightarrow> Provider"

definition WithoutInstanceDiscovery :: ProviderOption where
  "WithoutInstanceDiscovery p = p\<lparr> pv_instanceDiscovery := False \<rparr>"

definition WithDefaultAuthorityHost :: "string \<Rightarrow> ProviderOption" where
  "WithDefaultAuthorityHost host p = (if host \<noteq> '''' then p\<lparr> pv_defaultAuthorityHost := host \<rparr> else p)"

definition NewProvider :: "Keyring \<Rightarrow> ProviderOption list \<Rightarrow> Provider" where
  "NewProvider keyring opts = fold (\<lambda>opt p. opt p) opts
    \<lparr> pv_keyring = keyring, pv_instanceDiscovery = True, pv_defaultAuthorityHost = DefaultAuthorityHost,
      pv_clients = [] \<rparr>"

definition TrimRightSlash :: "string \<Rightarrow> string" where
  "TrimRightSlash s = rev (dropWhile (\<lambda>c. c = CHR ''/'') (rev s))"

definition AuthorityURL :: "string \<Rightarrow> string \<Rightarrow> (oauth_error, string) result" where
  "AuthorityURL host tenantID =
    (if tenantID = '''' then Inl ErrTenantRequired
     else Inr (TrimRightSlash (if host = '''' then DefaultAuthorityHost else host) @ ''/'' @ tenantID))"

definition AuthType_string :: "AuthType \<Rightarrow> string" where
  "AuthType_string t = (case t of AuthTypeSecret \<Rightarrow> ''secret'' | AuthTypeCertificate \<Rightarrow> ''certificate''
     | AuthTypeUnknown s \<Rightarrow> s)"

text \<open>The parts that make up the fingerprint, each followed by a zero byte.\<close>

definition fingerprint_parts :: "Provider \<Rightarrow> OAuthCredential \<Rightarrow> string list" where
  "fingerprint_parts p cred =
    [cred_TenantID cred, cred_ClientID cred, AuthType_string (cred_AuthType cred), cred_AuthorityHost cred,
     cred_ClientSecretEnc cred, cred_CertificatePEM cred, cred_CertificateKeyEnc cred, pv_defaultAuthorityHost p]"

definition fingerprint_text :: "string list \<Rightarrow> string" where
  "fingerprint_text parts = concat (map (\<lambda>part. part @ [NUL]) parts)"

definition fingerprintOf :: "(string \<Rightarrow> string) \<Rightarrow> Provider \<Rightarrow> OAuthCredential \<Rightarrow> string" where
  "fingerprintOf sha256 p cred = hex_encode (sha256 (fingerprint_text (fingerprint_parts p cred)))"

definition describe :: "OAuthCredential \<Rightarrow> string" where
  "describe cred =
    (if cred_Name cred \<noteq> '''' then ''credential '' @ Quote (cred_Name cred) @ '' (client '' @ cred_ClientID cred @ '')''
     else ''client '' @ cred_ClientID cred)"

fun redact_from :: "string list \<Rightarrow> string \<Rightarrow> string" where
  "redact_from [] msg = msg"
| "redact_from (marker # ms) msg =
    (case Index msg marker of
       Some i \<Rightarrow> TrimSpace (take i msg) @ '' [redacted: the response mentioned '' @ marker @ '']''
     | None \<Rightarrow> redact_from ms msg)"

definition redact_markers :: "string list" where
  "redact_markers = [''access_token'', ''client_assertion'', ''client_secret'', ''refresh_token'']"

definition redactToken :: "string \<Rightarrow> string" where
  "redactToken msg = redact_from redact_markers msg"

definition certificateFor :: "msal \<Rightarrow> Provider \<Rightarrow> OAuthCredential \<Rightarrow> (oauth_error, string) result" where
  "certificateFor ms p cred =
    (case Decrypt (pv_keyring p) (cred_CertificateKeyEnc cred) (CertificateKeyContext cred) of
       Inl _ \<Rightarrow> Inl (ErrCredentialUnusable (''decrypting the certificate key for '' @ describe cred))
     | Inr keyPEM \<Rightarrow>
         (let combined = cred_CertificatePEM cred @ [LF] @ keyPEM
          in (case ms_parse_pem ms combined of
                Inl e \<Rightarrow> Inl (ErrCredentialUnusable (''parsing the certificate for '' @ describe cred @ '': '' @ e))
              | Inr n \<Rightarrow> if n = 0 then Inl (ErrCredentialUnusable (describe cred @ '' has no certificate''))
                         else Inr combined)))"

definition credentialFor :: "msal \<Rightarrow> Provider \<Rightarrow> OAuthCredential \<Rightarrow> (oauth_error, msal_credential) result" where
  "credentialFor ms p cred =
    (case cred_AuthType cred of
       AuthTypeSecret \<Rightarrow>
         (case Decrypt (pv_keyring p) (cred_ClientSecretEnc cred) (SecretContext cred) of
            Inl _ \<Rightarrow> Inl (ErrCredentialUnusable (''decrypting the client secret for '' @ describe cred))
          | Inr secret \<Rightarrow>
              (case ms_secret_error ms secret of
                 Some e \<Rightarrow> Inl (ErrCredentialUnusable (describe cred @ '': '' @ e))
               | None \<Rightarrow> Inr (FromSecret secret)))
     | AuthTypeCertificate \<Rightarrow>
         (case certificateFor ms p cred of
            Inl e \<Rightarrow> Inl e
          | Inr combined \<Rightarrow>
              (case ms_cert_error ms combined of
                 Some e \<Rightarrow> Inl (ErrCredentialUnusable (describe cred @ '': '' @ e))
               | None \<Rightarrow> Inr (FromCert combined)))
     | AuthTypeUnknown s \<Rightarrow>
         Inl (ErrCredentialUnusable (describe cred @ '' has an unknown authentication type '' @ Quote s)))"

definition authority_host :: "Provider \<Rightarrow> OAuthCredential \<Rightarrow> string" where
  "authority_host p cred = (if cred_AuthorityHost cred = '''' then pv_defaultAuthorityHost p else cred_AuthorityHost cred)"

definition buildClient :: "msal \<Rightarrow> Provider \<Rightarrow> OAuthCredential \<Rightarrow> (oauth_error, msal_client) result" where
  "buildClient ms p cred =
    (case credentialFor ms p cred of
       Inl e \<Rightarrow> Inl e
     | Inr mcred \<Rightarrow>
         (case AuthorityURL (authority_host p cred) (cred_TenantID cred) of
            Inl e \<Rightarrow> Inl e
          | Inr authority \<Rightarrow>
              (let client = \<lparr> mc_Authority = authority, mc_ClientID = cred_ClientID cred, mc_Credential = mcred,
                              mc_InstanceDiscovery = pv_instanceDiscovery p \<rparr>
               in (case ms_new_error ms client of
                     Some e \<Rightarrow> Inl (ErrCredentialUnusable (''building a client for '' @ describe cred @ '': '' @ e))
                   | None \<Rightarrow> Inr client))))"

definition clientFor ::
  "(string \<Rightarrow> string) \<Rightarrow> msal \<Rightarrow> OAuthCredential \<Rightarrow> Provider \<Rightarrow> (oauth_error, msal_client) result \<times> Provider" where
  "clientFor sha256 ms cred p =
    (let fingerprint = fingerprintOf sha256 p cred;
         build = (case buildClient ms p cred of
             Inl e \<Rightarrow> (Inl e, p)
           | Inr client \<Rightarrow> (Inr client, p\<lparr> pv_clients :=
               AList.update (cred_ID cred) \<lparr> cc_client = client, cc_fingerprint = fingerprint \<rparr> (pv_clients p) \<rparr>))
     in (case map_of (pv_clients p) (cred_ID cred) of
           Some cached \<Rightarrow> if cc_fingerprint cached = fingerprint then (Inr (cc_client cached), p) else build
         | None \<Rightarrow> build))"

definition Provider_Token ::
  "(string \<Rightarrow> string) \<Rightarrow> msal \<Rightarrow> OAuthCredential \<Rightarrow> string \<Rightarrow> Provider \<Rightarrow> (oauth_error, Token) result \<times> Provider" where
  "Provider_Token sha256 ms cred scope p =
    (if scope = '''' then (Inl ErrScopeRequired, p)
     else (case clientFor sha256 ms cred p of
         (Inl e, p') \<Rightarrow> (Inl e, p')
       | (Inr client, p') \<Rightarrow>
           (case ms_acquire ms client scope of
              Inl e \<Rightarrow> (Inl (ErrTokenRequestFailed (describe cred @ '': '' @ redactToken e)), p')
            | Inr result \<Rightarrow>
                if tok_AccessToken result = ''''
                then (Inl (ErrTokenRequestFailed (describe cred @ '': the response contained no access token'')), p')
                else (Inr result, p'))))"

definition Provider_Forget :: "string \<Rightarrow> Provider \<Rightarrow> Provider" where
  "Provider_Forget credentialID p = p\<lparr> pv_clients := AList.delete credentialID (pv_clients p) \<rparr>"

section \<open>The cache is transparent\<close>

lemma fingerprint_text_inj:
  assumes "length xs = length ys" "list_all (\<lambda>s. NUL \<notin> set s) xs" "list_all (\<lambda>s. NUL \<notin> set s) ys"
    and "fingerprint_text xs = fingerprint_text ys"
  shows "xs = ys"
  using assms
proof (induction xs ys rule: list_induct2)
  case (Cons x xs y ys)
  let ?p = "\<lambda>c. c \<noteq> NUL"
  have eq: "x @ NUL # fingerprint_text xs = y @ NUL # fingerprint_text ys" using Cons.prems(3) by (simp add: fingerprint_text_def)
  have "takeWhile ?p (x @ NUL # fingerprint_text xs) = x" "takeWhile ?p (y @ NUL # fingerprint_text ys) = y"
    using Cons.prems(1,2) by (subst takeWhile_append2; auto)+
  then have "x = y" using eq by metis
  then show ?case using eq Cons by simp
qed simp

lemma hex_digit_inj: "a < 16 \<Longrightarrow> b < 16 \<Longrightarrow> hex_digit a = hex_digit b \<Longrightarrow> a = b"
  by (drule arg_cong[where f = byte]) (simp add: hex_digit_def split: if_splits)

lemma hex_encode_inj: "hex_encode s = hex_encode t \<Longrightarrow> s = t"
proof (induction s arbitrary: t)
  case Nil
  then show ?case by (cases t) (simp_all add: hex_encode_def)
next
  case (Cons c s)
  then obtain d t' where t: "t = d # t'" by (cases t) (simp_all add: hex_encode_def)
  have bound: "byte x div 16 < 16" "byte x mod 16 < 16" for x :: char
    using byte_less[of x] by (simp_all add: less_mult_imp_div_less)
  have "byte c div 16 = byte d div 16" "byte c mod 16 = byte d mod 16" "hex_encode s = hex_encode t'"
    using Cons.prems bound hex_digit_inj by (simp_all add: t hex_encode_def)
  moreover then have "byte c = byte d" by (metis div_mult_mod_eq)
  ultimately show ?case using Cons.IH by (simp add: t)
qed

text \<open>Two stored credentials with the same identifier and the same fingerprint parts give the same
  client.\<close>

lemma AuthType_string_inj:
  "credential_check c \<Longrightarrow> credential_check d \<Longrightarrow> AuthType_string (cred_AuthType c) = AuthType_string (cred_AuthType d) \<Longrightarrow>
   cred_AuthType c = cred_AuthType d"
  by (auto simp: credential_check_def AuthType_string_def)

lemma buildClient_parts:
  assumes "cred_ID c = cred_ID d" "credential_check c" "credential_check d" "fingerprint_parts p c = fingerprint_parts p d"
    and "buildClient ms p c = Inr client"
  shows "buildClient ms p d = Inr client"
proof -
  have t: "cred_AuthType c = cred_AuthType d"
    using assms(4) AuthType_string_inj[OF assms(2,3)] by (simp add: fingerprint_parts_def)
  have "credentialFor ms p c = Inr x \<Longrightarrow> credentialFor ms p d = Inr x" for x
    using assms(1,4) t
    by (auto simp: credentialFor_def certificateFor_def SecretContext_def CertificateKeyContext_def fingerprint_parts_def Let_def
        split: AuthType.splits sum.splits option.splits if_splits)
  moreover obtain x where x: "credentialFor ms p c = Inr x" using assms(5) by (auto simp: buildClient_def split: sum.splits)
  ultimately have "credentialFor ms p d = Inr x" by simp
  moreover have "cred_TenantID c = cred_TenantID d" "cred_ClientID c = cred_ClientID d" "authority_host p c = authority_host p d"
    using assms(4) by (simp_all add: fingerprint_parts_def authority_host_def)
  ultimately show ?thesis
    using x assms(5) by (simp add: buildClient_def Let_def split: sum.splits option.splits)
qed

text \<open>The life of a provider: requests for tokens of the credentials in \<open>creds\<close>, in any order and any
  state of those credentials, and forgotten clients.\<close>

inductive provider_run :: "(string \<Rightarrow> string) \<Rightarrow> msal \<Rightarrow> OAuthCredential set \<Rightarrow> Provider \<Rightarrow> Provider \<Rightarrow> bool"
  for sha256 ms creds p0 where
  Start: "provider_run sha256 ms creds p0 p0"
| Request: "provider_run sha256 ms creds p0 p \<Longrightarrow> cred \<in> creds \<Longrightarrow>
    provider_run sha256 ms creds p0 (snd (Provider_Token sha256 ms cred scope p))"
| Drop: "provider_run sha256 ms creds p0 p \<Longrightarrow> provider_run sha256 ms creds p0 (Provider_Forget i p)"

definition same_settings :: "Provider \<Rightarrow> Provider \<Rightarrow> bool" where
  "same_settings p q = (p\<lparr> pv_clients := [] \<rparr> = q\<lparr> pv_clients := [] \<rparr>)"

lemma same_settings_client:
  "same_settings p q \<Longrightarrow> buildClient ms p c = buildClient ms q c \<and> fingerprintOf sha256 p c = fingerprintOf sha256 q c"
proof -
  assume "same_settings p q"
  then have "pv_keyring p = pv_keyring q" "pv_instanceDiscovery p = pv_instanceDiscovery q"
    "pv_defaultAuthorityHost p = pv_defaultAuthorityHost q"
    by (cases p; cases q; simp add: same_settings_def)+
  note eqs = this
  show ?thesis
    unfolding buildClient_def credentialFor_def certificateFor_def fingerprintOf_def fingerprint_parts_def authority_host_def eqs
    by (intro conjI refl)
qed

text \<open>Every cached client was built from a credential that had this fingerprint.\<close>

definition cache_ok :: "(string \<Rightarrow> string) \<Rightarrow> msal \<Rightarrow> OAuthCredential set \<Rightarrow> Provider \<Rightarrow> bool" where
  "cache_ok sha256 ms creds p =
    (\<forall>i cc. map_of (pv_clients p) i = Some cc \<longrightarrow>
       (\<exists>c\<in>creds. cred_ID c = i \<and> cc_fingerprint cc = fingerprintOf sha256 p c \<and> buildClient ms p c = Inr (cc_client cc)))"

lemma clientFor_keeps:
  assumes "cache_ok sha256 ms creds p" "cred \<in> creds"
  shows "cache_ok sha256 ms creds (snd (clientFor sha256 ms cred p)) \<and> same_settings p (snd (clientFor sha256 ms cred p))"
proof (cases "snd (clientFor sha256 ms cred p) = p")
  case True
  then show ?thesis using assms(1) by (simp add: same_settings_def)
next
  case False
  then obtain client where b: "buildClient ms p cred = Inr client" and
    p': "snd (clientFor sha256 ms cred p) = p\<lparr> pv_clients := AList.update (cred_ID cred)
      \<lparr> cc_client = client, cc_fingerprint = fingerprintOf sha256 p cred \<rparr> (pv_clients p) \<rparr>" (is "_ = ?p'")
    by (auto simp: clientFor_def Let_def split: option.splits if_splits sum.splits)
  have s: "same_settings p ?p'" by (simp add: same_settings_def)
  have "cache_ok sha256 ms creds ?p'"
    unfolding cache_ok_def same_settings_client[OF s, THEN conjunct1, symmetric] same_settings_client[OF s, THEN conjunct2, symmetric]
    using assms b by (auto simp: cache_ok_def update_conv')
  then show ?thesis using s p' by simp
qed

lemma Provider_Token_state: "snd (Provider_Token sha256 ms cred scope p) = p \<or>
  snd (Provider_Token sha256 ms cred scope p) = snd (clientFor sha256 ms cred p)"
  by (auto simp: Provider_Token_def split: prod.splits sum.splits)

lemma provider_run_inv:
  assumes "provider_run sha256 ms creds p0 p" "pv_clients p0 = []"
  shows "cache_ok sha256 ms creds p \<and> same_settings p0 p"
  using assms(1)
proof induction
  case Start
  then show ?case using assms(2) by (simp add: cache_ok_def same_settings_def)
next
  case (Request p cred scope)
  then show ?case
    using clientFor_keeps[of sha256 ms creds p cred] Provider_Token_state[of sha256 ms cred scope p]
    by (metis same_settings_def)
next
  case (Drop p i)
  have s: "same_settings p (Provider_Forget i p)" by (simp add: same_settings_def Provider_Forget_def)
  have "cache_ok sha256 ms creds (Provider_Forget i p)"
    unfolding cache_ok_def same_settings_client[OF s, THEN conjunct1, symmetric] same_settings_client[OF s, THEN conjunct2, symmetric]
    using Drop.IH by (auto simp: cache_ok_def Provider_Forget_def delete_conv' split: if_splits)
  then show ?case using s Drop.IH by (simp add: same_settings_def)
qed

definition plain_credential :: "Provider \<Rightarrow> OAuthCredential \<Rightarrow> bool" where
  "plain_credential p c = (credential_check c \<and> list_all (\<lambda>s. NUL \<notin> set s) (fingerprint_parts p c))"


definition sample_msal :: msal where
  "sample_msal = \<lparr> ms_secret_error = (\<lambda>_. None), ms_parse_pem = (\<lambda>_. Inl ''no certificate''), ms_cert_error = (\<lambda>_. None),
     ms_new_error = (\<lambda>_. None),
     ms_acquire = (\<lambda>client scope. case mc_Credential client of
        FromSecret s \<Rightarrow> Inr \<lparr> tok_AccessToken = s, tok_ExpiresAt = hour \<rparr> | FromCert _ \<Rightarrow> Inl ''refused'') \<rparr>"

definition sample_registration :: "string \<Rightarrow> OAuthCredential" where
  "sample_registration secret =
    \<lparr> cred_ID = ''c1'', cred_Name = ''mail'', cred_TenantID = ''tenant'', cred_ClientID = ''client'', cred_AuthType = AuthTypeSecret,
      cred_ClientSecretEnc = (case Encrypt ''nn'' (sample_keyring ''k1'') secret ''oauth_credentials/client_secret/c1'' of
         Inr s \<Rightarrow> s | Inl _ \<Rightarrow> []),
      cred_CertificatePEM = '''', cred_CertificateKeyEnc = '''', cred_CertificateThumbprint = '''', cred_AuthorityHost = '''',
      cred_ExpiresAt = None, cred_ManagedBy = ManagedByUI, cred_CreatedAt = 0, cred_UpdatedAt = 0 \<rparr>"

definition sample_provider :: Provider where
  "sample_provider = NewProvider (sample_keyring ''k1'') [WithoutInstanceDiscovery, WithDefaultAuthorityHost '''']"


text \<open>The text before the first listed marker is kept, although another marker may stand there with its
  value.\<close>

lemma redaction_keeps_secret:
  "redactToken ''bad request client_secret=hunter2 access_token=none'' =
   ''bad request client_secret=hunter2 [redacted: the response mentioned access_token]''"
  by code_simp

end
