(* ===== verification/Api.thy ===== *)
theory Api
  imports Oidc OAuth
begin

text \<open>
  The frame of the management interface (\<^verbatim>\<open>src/internal/adminapi/errors.go\<close>, \<^verbatim>\<open>query.go\<close>,
  \<^verbatim>\<open>audit.go\<close>, \<^verbatim>\<open>middleware.go\<close>): request bodies, responses, error answers, the audit
  writer, and the middleware that asks for a session and a permission.

  A handler is a function from the server, the request and the state to a response and the next
  state.  The state is the database and the token provider.  \<open>web_env\<close> holds the libraries only this layer
  uses.  Responses are the values the code encodes as JSON; the log is not modelled.
\<close>

section \<open>Request bodies\<close>

text \<open>\<^verbatim>\<open>encoding/json\<close> matches the name of a field without regard to case, where the long s and the
  Kelvin sign fold to s and k.\<close>

fun foldName :: "string \<Rightarrow> string" where
  "foldName [] = []"
| "foldName [a] = [to_lower_char a]"
| "foldName [a, b] = (if [a, b] = bytes [0xC5, 0xBF] then ''s'' else to_lower_char a # foldName [b])"
| "foldName (a # b # c # r) =
    (if [a, b] = bytes [0xC5, 0xBF] then CHR ''s'' # foldName (c # r)
     else if [a, b, c] = bytes [0xE2, 0x84, 0xAA] then CHR ''k'' # foldName r
     else to_lower_char a # foldName (b # c # r))"

type_synonym 'r setter = "json \<Rightarrow> 'r \<Rightarrow> 'r option"

definition find_field :: "(string \<times> 'r setter) list \<Rightarrow> string \<Rightarrow> 'r setter option" where
  "find_field fs key =
    (case map_of fs key of
       Some f \<Rightarrow> Some f
     | None \<Rightarrow> map_option snd (find (\<lambda>(name, _). foldName name = foldName key) fs))"

text \<open>A field the request type does not have is an error.\<close>

fun decode_fields :: "(string \<times> 'r setter) list \<Rightarrow> (string \<times> json) list \<Rightarrow> 'r \<Rightarrow> 'r option" where
  "decode_fields fs [] req = Some req"
| "decode_fields fs ((key, v) # kvs) req =
    (case find_field fs key of
       None \<Rightarrow> None
     | Some f \<Rightarrow> (case f v req of None \<Rightarrow> None | Some req' \<Rightarrow> decode_fields fs kvs req'))"

definition decodeJSON :: "(string \<times> 'r setter) list \<Rightarrow> 'r \<Rightarrow> json option \<Rightarrow> 'r option" where
  "decodeJSON fs zero body =
    (case body of
       Some (JObj kvs) \<Rightarrow> decode_fields fs kvs zero
     | Some JNull \<Rightarrow> Some zero
     | _ \<Rightarrow> None)"

text \<open>The decoders of the types the request structs use; a null leaves a plain field alone and clears
  a pointer.\<close>

definition plain_string :: "((string \<Rightarrow> string) \<Rightarrow> 'r \<Rightarrow> 'r) \<Rightarrow> 'r setter" where
  "plain_string upd v req = (case v of JNull \<Rightarrow> Some req | JStr s \<Rightarrow> Some (upd (\<lambda>_. s) req) | _ \<Rightarrow> None)"

definition pointer_string :: "((string option \<Rightarrow> string option) \<Rightarrow> 'r \<Rightarrow> 'r) \<Rightarrow> 'r setter" where
  "pointer_string upd v req =
    (case v of JNull \<Rightarrow> Some (upd (\<lambda>_. None) req) | JStr s \<Rightarrow> Some (upd (\<lambda>_. Some s) req) | _ \<Rightarrow> None)"

definition pointer_bool :: "((bool option \<Rightarrow> bool option) \<Rightarrow> 'r \<Rightarrow> 'r) \<Rightarrow> 'r setter" where
  "pointer_bool upd v req =
    (case v of JNull \<Rightarrow> Some (upd (\<lambda>_. None) req) | JBool b \<Rightarrow> Some (upd (\<lambda>_. Some b) req) | _ \<Rightarrow> None)"

definition pointer_int :: "((int option \<Rightarrow> int option) \<Rightarrow> 'r \<Rightarrow> 'r) \<Rightarrow> 'r setter" where
  "pointer_int upd v req =
    (case v of
       JNull \<Rightarrow> Some (upd (\<lambda>_. None) req)
     | JInt n \<Rightarrow> if int64_min \<le> n \<and> n \<le> int64_max then Some (upd (\<lambda>_. Some n) req) else None
     | _ \<Rightarrow> None)"

definition pointer_time ::
  "(string \<Rightarrow> instant option) \<Rightarrow> ((instant option \<Rightarrow> instant option) \<Rightarrow> 'r \<Rightarrow> 'r) \<Rightarrow> 'r setter" where
  "pointer_time parse_time upd v req =
    (case v of
       JNull \<Rightarrow> Some (upd (\<lambda>_. None) req)
     | JStr s \<Rightarrow> map_option (\<lambda>t. upd (\<lambda>_. Some t) req) (parse_time s)
     | _ \<Rightarrow> None)"

definition string_element :: "json \<Rightarrow> string option" where
  "string_element v = (case v of JNull \<Rightarrow> Some '''' | JStr s \<Rightarrow> Some s | _ \<Rightarrow> None)"

definition pointer_strings :: "((string list option \<Rightarrow> string list option) \<Rightarrow> 'r \<Rightarrow> 'r) \<Rightarrow> 'r setter" where
  "pointer_strings upd v req =
    (case v of
       JNull \<Rightarrow> Some (upd (\<lambda>_. None) req)
     | JArr vs \<Rightarrow> map_option (\<lambda>ss. upd (\<lambda>_. Some ss) req) (those (map string_element vs))
     | _ \<Rightarrow> None)"

section \<open>Responses\<close>

record userResponse =
  ur_ID :: string
  ur_Username :: string
  ur_Email :: string
  ur_DisplayName :: string
  ur_Role :: Role
  ur_Source :: string
  ur_Disabled :: bool
  ur_HasPassword :: bool
  ur_LockedUntil :: "instant option"
  ur_LastLoginAt :: "instant option"
  ur_CreatedAt :: instant
  ur_UpdatedAt :: instant

record sessionResponse =
  sr_User :: userResponse
  sr_Permissions :: "Permission list"
  sr_CSRFToken :: string
  sr_ExpiresAt :: instant

record credentialResponse =
  cr_ID :: string
  cr_Name :: string
  cr_TenantID :: string
  cr_ClientID :: string
  cr_AuthType :: AuthType
  cr_HasSecret :: bool
  cr_CertificateThumbprint :: string
  cr_AuthorityHost :: string
  cr_ExpiresAt :: "instant option"
  cr_ExpiresInDays :: "int option"
  cr_ManagedBy :: ManagedBy
  cr_MailboxCount :: nat
  cr_CreatedAt :: instant
  cr_UpdatedAt :: instant

record setupResponse =
  su_Summary :: string
  su_Steps :: "string list"
  su_Commands :: string
  su_Docs :: string

record mailboxResponse =
  mr_ID :: string
  mr_Address :: string
  mr_DisplayName :: string
  mr_OAuthCredentialID :: string
  mr_CredentialName :: string
  mr_Transport :: Transport
  mr_RateLimitPerMin :: "int option"
  mr_MaxConcurrent :: "int option"
  mr_Enabled :: bool
  mr_ManagedBy :: ManagedBy
  mr_CreatedAt :: instant
  mr_UpdatedAt :: instant

record testResponse =
  te_OK :: bool
  te_Stage :: string
  te_Message :: string
  te_Hint :: string

record accountResponse =
  ac_ID :: string
  ac_Username :: string
  ac_Description :: string
  ac_DefaultMailboxID :: string
  ac_MailboxIDs :: "string list"
  ac_MailboxAddresses :: "string list"
  ac_AllowedSenders :: "string list"
  ac_FromPolicy :: FromPolicy
  ac_AllowCIDRs :: "string list"
  ac_RateLimitPerMin :: "int option"
  ac_Enabled :: bool
  ac_LastUsedAt :: "instant option"
  ac_ManagedBy :: ManagedBy
  ac_CreatedAt :: instant
  ac_UpdatedAt :: instant

record messageResponse =
  me_SMTPAccountID :: string
  me_MailboxID :: string
  me_Origin :: string
  me_ID :: string
  me_AccountUsername :: string
  me_MailboxAddress :: string
  me_EnvelopeFrom :: string
  me_HeaderFrom :: string
  me_Recipients :: "string list"
  me_RecipientCount :: int
  me_SizeBytes :: int
  me_Subject :: string
  me_MessageID :: string
  me_Status :: MessageStatus
  me_Attempts :: int
  me_NextAttemptAt :: "instant option"
  me_LastError :: string
  me_LastErrorCode :: string
  me_LastErrorPermanent :: bool
  me_ClientIP :: string
  me_ReceivedAt :: instant
  me_SentAt :: "instant option"

record expiringCredential =
  ex_ID :: string
  ex_Name :: string
  ex_ExpiresAt :: instant
  ex_ExpiresInDays :: int

record statusResponse =
  st_Version :: string
  st_QueueByStatus :: "(MessageStatus \<times> nat) list"
  st_Mailboxes :: nat
  st_Accounts :: nat
  st_Credentials :: nat
  st_ExpiringCredentials :: "expiringCredential list"
  st_RecentFailures :: "messageResponse list"
  st_AuthFailureCount :: int

text \<open>What a handler writes.  A list answers with its total; \<open>RawBody\<close> is the message itself.\<close>

datatype payload =
    NoBody
  | APIError string string "(string \<times> string) list"
  | AuthConfigBody bool bool string
  | UserBody userResponse
  | UsersBody "userResponse list" nat
  | SessionBody sessionResponse
  | CredentialBody credentialResponse
  | CredentialsBody "credentialResponse list" nat
  | SetupBody setupResponse
  | MailboxBody mailboxResponse
  | MailboxesBody "mailboxResponse list" nat
  | DiagnosticsBody mailboxResponse credentialResponse string string string
  | TestBody testResponse
  | QueuedBody string bool
  | AccountBody accountResponse
  | CreatedAccountBody accountResponse string
  | AccountsBody "accountResponse list" nat
  | PasswordBody string
  | MessageBody messageResponse
  | MessagesBody "messageResponse list" nat
  | RawBody string
  | AuditBody "AuditEntry list" nat
  | StatusBody statusResponse
  | TextBody string

record response =
  rs_Status :: int
  rs_Headers :: "(string \<times> string) list"
  rs_Cookies :: "cookie list"
  rs_Body :: payload

definition writeJSON :: "int \<Rightarrow> payload \<Rightarrow> response" where
  "writeJSON status v =
    \<lparr> rs_Status = status, rs_Headers = [(''Content-Type'', ''application/json; charset=utf-8''), (''Cache-Control'', ''no-store'')],
      rs_Cookies = [], rs_Body = v \<rparr>"

definition writeError :: "int \<Rightarrow> string \<Rightarrow> string \<Rightarrow> response" where
  "writeError status code message = writeJSON status (APIError code message [])"

definition CodeBadRequest :: string where "CodeBadRequest = ''bad_request''"
definition CodeValidation :: string where "CodeValidation = ''validation_failed''"
definition CodeUnauthorized :: string where "CodeUnauthorized = ''unauthorized''"
definition CodeForbidden :: string where "CodeForbidden = ''forbidden''"
definition CodeNotFound :: string where "CodeNotFound = ''not_found''"
definition CodeConflict :: string where "CodeConflict = ''conflict''"
definition CodeReferenced :: string where "CodeReferenced = ''still_referenced''"
definition CodeImmutable :: string where "CodeImmutable = ''managed_externally''"
definition CodeCSRF :: string where "CodeCSRF = ''csrf_failed''"
definition CodeInternal :: string where "CodeInternal = ''internal_error''"

definition writeValidationError :: "(string \<times> string) list \<Rightarrow> response" where
  "writeValidationError invalid = writeJSON 422 (APIError CodeValidation ''some fields are not valid'' invalid)"

definition bad_body :: response where
  "bad_body = writeError 400 CodeBadRequest ''the request body could not be read''"

definition internal_error :: response where
  "internal_error = writeError 500 CodeInternal ''something went wrong''"

definition writeStoreError :: "store_error \<Rightarrow> response" where
  "writeStoreError e = (case e of
      ErrStateConflict \<Rightarrow> writeError 409 CodeConflict ''operation conflicts with current state; refresh and try again''
    | ErrNotFound \<Rightarrow> writeError 404 CodeNotFound ''not found''
    | ErrConflict \<Rightarrow> writeError 409 CodeConflict ''that name is already in use''
    | ErrReferenced \<Rightarrow> writeError 409 CodeReferenced ''something else still refers to this; remove that first''
    | ErrImmutable \<Rightarrow> writeError 409 CodeImmutable ''this object is declared in the bootstrap file and cannot be edited here''
    | _ \<Rightarrow> internal_error)"

text \<open>The same function on the errors of the authentication layer: only those of the store are told
  apart.\<close>

definition writeAuthError :: "auth_error \<Rightarrow> response" where
  "writeAuthError e = (case e of ErrStore s \<Rightarrow> writeStoreError s | _ \<Rightarrow> internal_error)"

definition field_if :: "bool \<Rightarrow> string \<Rightarrow> string \<Rightarrow> (string \<times> string) list" where
  "field_if c name message = (if c then [(name, message)] else [])"

section \<open>The server\<close>

record web_env =
  wx_like :: "string \<Rightarrow> string \<Rightarrow> bool"
  wx_uuid :: "string \<Rightarrow> string option"
  wx_clean_url :: "string \<Rightarrow> string"
  wx_show_address :: "string \<Rightarrow> string"
  wx_rfc1123 :: "instant \<Rightarrow> string"
  wx_error_text :: "auth_error \<Rightarrow> string"
  wx_unmarshal_request :: "string \<Rightarrow> AuthRequest option"
  wx_marshal_request :: "AuthRequest \<Rightarrow> string"
  wx_ping :: bool
  wx_version :: string
  wx_metrics :: "string option"
  wx_licenses :: string

record Server =
  sv_env :: admin_env
  sv_web :: web_env
  sv_msal :: msal
  sv_idp :: idp
  sv_keyring :: "Keyring option"
  sv_sessions :: SessionConfig
  sv_local :: "LocalConfig option"
  sv_oidc :: "OIDCAuthenticator option"
  sv_smtpEndpoint :: string
  sv_graphEndpoint :: string
  sv_smtpScope :: string
  sv_graphScope :: string
  sv_trustedProxies :: "IPNet list"
  sv_cookieSecure :: bool
  sv_serveUI :: bool
  sv_metricsEnabled :: bool
  sv_metricsPath :: "string list"

record api_state =
  ap_db :: DB
  ap_tokens :: "Provider option"

type_synonym handler = "Server \<Rightarrow> tick \<Rightarrow> http_request \<Rightarrow> Authenticated \<Rightarrow> api_state \<Rightarrow> response \<times> api_state"

text \<open>A handler that only uses the database.\<close>

definition on_db :: "(DB \<Rightarrow> response \<times> DB) \<Rightarrow> api_state \<Rightarrow> response \<times> api_state" where
  "on_db f st = (case f (ap_db st) of (rs, db) \<Rightarrow> (rs, st\<lparr> ap_db := db \<rparr>))"

definition url_param :: "http_request \<Rightarrow> string" where
  "url_param r = (case drop 3 (rq_Path r) of [] \<Rightarrow> '''' | i # _ \<Rightarrow> i)"

section \<open>Query parameters\<close>

definition query_get :: "http_request \<Rightarrow> string \<Rightarrow> string" where
  "query_get r name = (case map_of (rq_Query r) name of None \<Rightarrow> '''' | Some v \<Rightarrow> v)"

definition queryInt :: "http_request \<Rightarrow> string \<Rightarrow> int \<Rightarrow> int" where
  "queryInt r name fallback =
    (let raw = query_get r name
     in if raw = '''' then fallback
        else (case Atoi raw of None \<Rightarrow> fallback | Some n \<Rightarrow> if n < 0 then fallback else n))"

definition queryTime :: "(string \<Rightarrow> instant option) \<Rightarrow> http_request \<Rightarrow> string \<Rightarrow> instant option" where
  "queryTime parse_time r name = (let raw = query_get r name in if raw = '''' then None else parse_time raw)"

definition queryList :: "http_request \<Rightarrow> string \<Rightarrow> string list" where
  "queryList r name =
    (let parts = concat (map (\<lambda>(k, v). if k = name then SplitByte v (CHR '','') else []) (rq_Query r))
     in filter (\<lambda>s. s \<noteq> '''') (map TrimSpace parts))"

section \<open>The audit writer\<close>

record auditEntry =
  en_Actor :: "AdminUser option"
  en_Action :: string
  en_TargetType :: string
  en_TargetID :: string
  en_TargetName :: string
  en_Details :: "(string \<times> json) list"
  en_Result :: string

definition audit :: "Server \<Rightarrow> tick \<Rightarrow> http_request \<Rightarrow> auditEntry \<Rightarrow> DB \<Rightarrow> DB" where
  "audit sv tk r e db =
    after db (Audit_Append (tk_now tk) (tk_id tk ''audit'')
      \<lparr> aud_ID = '''', aud_At = zero_time,
        aud_ActorType = (case en_Actor e of None \<Rightarrow> ActorSystem | Some _ \<Rightarrow> ActorUser),
        aud_ActorID = (case en_Actor e of None \<Rightarrow> '''' | Some u \<Rightarrow> usr_ID u),
        aud_ActorName = (case en_Actor e of None \<Rightarrow> '''' | Some u \<Rightarrow> usr_Username u),
        aud_Action = en_Action e, aud_TargetType = en_TargetType e, aud_TargetID = en_TargetID e,
        aud_TargetName = en_TargetName e,
        aud_Details = (if en_Details e = [] then '''' else MaskSecrets (en_Details e)),
        aud_Result = en_Result e, aud_IP = ClientIP (sv_env sv) r (sv_trustedProxies sv),
        aud_UserAgent = http_truncate (rq_UserAgent r) 512 \<rparr> db)"

definition entry :: "AdminUser \<Rightarrow> string \<Rightarrow> string \<Rightarrow> string \<Rightarrow> string \<Rightarrow> (string \<times> json) list \<Rightarrow> auditEntry" where
  "entry actor action targetType targetID targetName details =
    \<lparr> en_Actor = Some actor, en_Action = action, en_TargetType = targetType, en_TargetID = targetID,
      en_TargetName = targetName, en_Details = details, en_Result = '''' \<rparr>"

section \<open>Middleware\<close>

definition requireSession ::
  "Server \<Rightarrow> tick \<Rightarrow> http_request \<Rightarrow> (Authenticated \<Rightarrow> api_state \<Rightarrow> response \<times> api_state) \<Rightarrow> api_state \<Rightarrow> response \<times> api_state" where
  "requireSession sv tk r next st =
    (case session_Authenticate (sv_sessions sv) (sv_env sv) tk r (ap_db st) of
       (Inl e, db) \<Rightarrow>
         (if e = ErrNoSession then writeError 401 CodeUnauthorized ''sign in to continue'' else writeAuthError e,
          st\<lparr> ap_db := db \<rparr>)
     | (Inr auth, db) \<Rightarrow>
         (case CheckCSRF auth r of
            Some _ \<Rightarrow> (writeError 403 CodeCSRF ''this request could not be verified; reload the page and try again'',
                       st\<lparr> ap_db := db \<rparr>)
          | None \<Rightarrow> next auth (st\<lparr> ap_db := db \<rparr>)))"

definition require ::
  "Permission \<Rightarrow> (Authenticated \<Rightarrow> api_state \<Rightarrow> response \<times> api_state) \<Rightarrow> Authenticated \<Rightarrow> api_state \<Rightarrow> response \<times> api_state" where
  "require perm next auth st =
    (if \<not> Can (usr_Role (au_User auth)) perm then (writeError 403 CodeForbidden ''your role does not allow this'', st)
     else next auth st)"

text \<open>Setting a header replaces it.\<close>

definition set_header :: "string \<Rightarrow> string \<Rightarrow> response \<Rightarrow> response" where
  "set_header name val rs = rs\<lparr> rs_Headers := AList.update name val (rs_Headers rs) \<rparr>"

text \<open>The middleware sets its headers before the handler runs, so a handler's own value wins.\<close>

definition default_header :: "string \<Rightarrow> string \<Rightarrow> response \<Rightarrow> response" where
  "default_header name val rs =
    (if map_of (rs_Headers rs) name = None then set_header name val rs else rs)"

definition noCache :: "response \<Rightarrow> response" where
  "noCache rs = default_header ''Cache-Control'' ''no-store'' (default_header ''Pragma'' ''no-cache'' rs)"

definition content_policy :: string where
  "content_policy = ''default-src 'self'; img-src 'self' data:; style-src 'self' 'unsafe-inline'; '' @
     ''font-src 'self' data:; connect-src 'self'; frame-ancestors 'none'; base-uri 'none'; form-action 'self'' @ [CHR 0x27]"

definition securityHeaders :: "response \<Rightarrow> response" where
  "securityHeaders rs =
    default_header ''Content-Security-Policy'' content_policy
      (default_header ''X-Content-Type-Options'' ''nosniff''
        (default_header ''X-Frame-Options'' ''DENY''
          (default_header ''Referrer-Policy'' ''no-referrer'' rs)))"

definition withRequestID :: "tick \<Rightarrow> response \<Rightarrow> response" where
  "withRequestID tk rs = default_header ''X-Request-Id'' (tk_id tk ''request'') rs"

section \<open>What the frame keeps\<close>

text \<open>A step of the interface is a sequence of writes of the repositories.\<close>

definition api_step :: "api_state \<Rightarrow> api_state \<Rightarrow> bool" where
  "api_step st st' = store_step\<^sup>*\<^sup>* (ap_db st) (ap_db st')"

named_theorems api_steps \<open>each handler is a sequence of writes of the repositories\<close>

lemma store_steps_audit [api_steps]: "store_step\<^sup>*\<^sup>* db' db \<Longrightarrow> store_step\<^sup>*\<^sup>* db' (audit sv tk r e db)"
  unfolding audit_def by (erule rtranclp_trans) (blast intro: store_steps_after AuditWrite)

lemma on_db_step: "store_step\<^sup>*\<^sup>* (ap_db st) (snd (f (ap_db st))) \<Longrightarrow> api_step st (snd (on_db f st))"
  by (simp add: on_db_def api_step_def case_prod_beta)

lemma requireSession_step:
  assumes "\<And>auth st'. api_step st' (snd (next auth st'))"
  shows "api_step st (snd (requireSession sv tk r next st))"
proof -
  have s: "store_step\<^sup>*\<^sup>* (ap_db st) (snd (session_Authenticate (sv_sessions sv) (sv_env sv) tk r (ap_db st)))"
    by (rule store_steps_session_Authenticate)
  show ?thesis
  proof (cases "session_Authenticate (sv_sessions sv) (sv_env sv) tk r (ap_db st)")
    case (Pair res db)
    then show ?thesis
      using s assms[of "st\<lparr> ap_db := db \<rparr>"]
      by (auto simp: requireSession_def api_step_def split: sum.split option.split intro: rtranclp_trans)
  qed
qed

lemma require_step: "(\<And>auth st'. api_step st' (snd (next auth st'))) \<Longrightarrow> api_step st (snd (require perm next auth st))"
  by (simp add: require_def api_step_def)

end
