(* ===== verification/ApiDirectory.thy ===== *)
theory ApiDirectory
  imports Api RateLimit
begin

text \<open>
  The handlers for credentials, mailboxes and SMTP accounts
  (\<^verbatim>\<open>src/internal/adminapi/credentials.go\<close>, \<^verbatim>\<open>setup.go\<close>, \<^verbatim>\<open>mailboxes.go\<close>,
  \<^verbatim>\<open>diagnostics.go\<close>, \<^verbatim>\<open>accounts.go\<close>).

  Every handler is one definition: it decodes the body, validates it, writes through the repositories,
  appends an audit entry and answers.  The lemmas show that each handler is a sequence of repository
  writes, that a secret stored here opens to what the caller gave, and that the answers do not
  depend on stored secrets.
\<close>

section \<open>Credentials\<close>

definition trunc_div :: "int \<Rightarrow> int \<Rightarrow> int" where
  "trunc_div a b = (if a < 0 then - (- a div b) else a div b)"

definition days_until :: "instant \<Rightarrow> instant \<Rightarrow> int" where
  "days_until now t = trunc_div (t - now) (24 * hour)"

definition toCredentialResponse :: "instant \<Rightarrow> OAuthCredential \<Rightarrow> nat \<Rightarrow> credentialResponse" where
  "toCredentialResponse now c mailboxes =
    \<lparr> cr_ID = cred_ID c, cr_Name = cred_Name c, cr_TenantID = cred_TenantID c, cr_ClientID = cred_ClientID c,
      cr_AuthType = cred_AuthType c, cr_HasSecret = (cred_ClientSecretEnc c \<noteq> '''' \<or> cred_CertificateKeyEnc c \<noteq> ''''),
      cr_CertificateThumbprint = cred_CertificateThumbprint c, cr_AuthorityHost = cred_AuthorityHost c,
      cr_ExpiresAt = cred_ExpiresAt c, cr_ExpiresInDays = map_option (days_until now) (cred_ExpiresAt c),
      cr_ManagedBy = cred_ManagedBy c, cr_MailboxCount = mailboxes,
      cr_CreatedAt = cred_CreatedAt c, cr_UpdatedAt = cred_UpdatedAt c \<rparr>"

definition countMailboxes :: "DB \<Rightarrow> string \<Rightarrow> nat" where
  "countMailboxes db credentialID =
    length (filter (\<lambda>m. mb_OAuthCredentialID m = credentialID) (Mailboxes_List db))"

definition handleListCredentials :: handler where
  "handleListCredentials sv tk r auth = on_db (\<lambda>db.
    (let items = map (\<lambda>c. toCredentialResponse (tk_now tk) c (countMailboxes db (cred_ID c))) (Credentials_List db)
     in (writeJSON 200 (CredentialsBody items (length items)), db)))"

definition handleGetCredential :: handler where
  "handleGetCredential sv tk r auth = on_db (\<lambda>db.
    (case Credentials_Get db (url_param r) of
       Inl e \<Rightarrow> (writeStoreError e, db)
     | Inr c \<Rightarrow> (writeJSON 200 (CredentialBody (toCredentialResponse (tk_now tk) c (countMailboxes db (cred_ID c)))), db)))"

record credentialRequest =
  cq_Name :: string
  cq_TenantID :: string
  cq_ClientID :: string
  cq_AuthType :: string
  cq_ClientSecret :: "string option"
  cq_CertificatePEM :: "string option"
  cq_CertificateKeyPEM :: "string option"
  cq_AuthorityHost :: string
  cq_ExpiresAt :: "instant option"

definition decode_credential :: "admin_env \<Rightarrow> json option \<Rightarrow> credentialRequest option" where
  "decode_credential ax = decodeJSON
    [(''name'', plain_string cq_Name_update), (''tenantId'', plain_string cq_TenantID_update),
     (''clientId'', plain_string cq_ClientID_update), (''authType'', plain_string cq_AuthType_update),
     (''clientSecret'', pointer_string cq_ClientSecret_update), (''certificatePem'', pointer_string cq_CertificatePEM_update),
     (''certificateKeyPem'', pointer_string cq_CertificateKeyPEM_update),
     (''authorityHost'', plain_string cq_AuthorityHost_update), (''expiresAt'', pointer_time (ax_parse_time ax) cq_ExpiresAt_update)]
    \<lparr> cq_Name = '''', cq_TenantID = '''', cq_ClientID = '''', cq_AuthType = '''', cq_ClientSecret = None,
      cq_CertificatePEM = None, cq_CertificateKeyPEM = None, cq_AuthorityHost = '''', cq_ExpiresAt = None \<rparr>"

definition absent :: "string option \<Rightarrow> bool" where
  "absent p = (p = None \<or> p = Some '''')"

definition validateCredential :: "credentialRequest \<Rightarrow> bool \<Rightarrow> (string \<times> string) list" where
  "validateCredential req creating =
    field_if (creating \<and> TrimSpace (cq_Name req) = '''') ''name'' ''required'' @
    field_if (creating \<and> TrimSpace (cq_TenantID req) = '''') ''tenantId'' ''required'' @
    field_if (creating \<and> TrimSpace (cq_ClientID req) = '''') ''clientId'' ''required'' @
    field_if (cq_AuthType req \<noteq> '''' \<and> AuthType_of (cq_AuthType req) \<notin> {AuthTypeSecret, AuthTypeCertificate})
      ''authType'' ''must be secret or certificate'' @
    field_if (creating \<and> cq_AuthType req = '''') ''authType'' ''required'' @
    field_if (creating \<and> AuthType_of (cq_AuthType req) = AuthTypeSecret \<and> absent (cq_ClientSecret req))
      ''clientSecret'' ''required for a secret credential'' @
    field_if (creating \<and> AuthType_of (cq_AuthType req) = AuthTypeCertificate \<and> absent (cq_CertificatePEM req))
      ''certificatePem'' ''required for a certificate credential'' @
    field_if (creating \<and> AuthType_of (cq_AuthType req) = AuthTypeCertificate \<and> absent (cq_CertificateKeyPEM req))
      ''certificateKeyPem'' ''required for a certificate credential'' @
    field_if (cq_AuthorityHost req \<noteq> '''' \<and> \<not> HasPrefix (cq_AuthorityHost req) ''https://'')
      ''authorityHost'' ''must start with https://''"

definition errNoKeyring :: string where
  "errNoKeyring = ''the proxy has no encryption keys configured, so a secret cannot be stored''"

text \<open>Sealing with a fresh nonce; the only error of a keyring is to have no key.\<close>

definition seal :: "tick \<Rightarrow> string \<Rightarrow> Keyring \<Rightarrow> string \<Rightarrow> string \<Rightarrow> (string, string) result" where
  "seal tk purpose k plaintext ctx =
    (let size = (case map_of (kr_keys k) (kr_primaryID k) of None \<Rightarrow> 0 | Some a \<Rightarrow> ae_NonceSize a)
     in (case Encrypt (tk_random tk purpose size) k plaintext ctx of
           Inl _ \<Rightarrow> Inl ''crypto: no encryption keys configured''
         | Inr sealed \<Rightarrow> Inr sealed))"

definition seal_field ::
  "tick \<Rightarrow> string \<Rightarrow> Keyring \<Rightarrow> string option \<Rightarrow> string \<Rightarrow> string \<Rightarrow> (string, string) result" where
  "seal_field tk purpose k given ctx stored =
    (case given of None \<Rightarrow> Inr stored | Some plaintext \<Rightarrow> seal tk purpose k plaintext ctx)"

definition sealCredential ::
  "tick \<Rightarrow> Keyring option \<Rightarrow> OAuthCredential \<Rightarrow> credentialRequest \<Rightarrow> (string, OAuthCredential) result" where
  "sealCredential tk keyring c req =
    (case keyring of
       None \<Rightarrow> Inl errNoKeyring
     | Some k \<Rightarrow>
         (case seal_field tk ''secret'' k (cq_ClientSecret req) (SecretContext c) (cred_ClientSecretEnc c) of
            Inl e \<Rightarrow> Inl e
          | Inr secretEnc \<Rightarrow>
              (case seal_field tk ''key'' k (cq_CertificateKeyPEM req) (CertificateKeyContext c) (cred_CertificateKeyEnc c) of
                 Inl e \<Rightarrow> Inl e
               | Inr keyEnc \<Rightarrow>
                   Inr (c\<lparr> cred_ClientSecretEnc := secretEnc,
                     cred_CertificatePEM := (case cq_CertificatePEM req of None \<Rightarrow> cred_CertificatePEM c | Some pem \<Rightarrow> pem),
                     cred_CertificateKeyEnc := keyEnc \<rparr>))))"

definition zero_credential :: OAuthCredential where
  "zero_credential = \<lparr> cred_ID = '''', cred_Name = '''', cred_TenantID = '''', cred_ClientID = '''',
     cred_AuthType = AuthTypeUnknown '''', cred_ClientSecretEnc = '''', cred_CertificatePEM = '''', cred_CertificateKeyEnc = '''',
     cred_CertificateThumbprint = '''', cred_AuthorityHost = '''', cred_ExpiresAt = None, cred_ManagedBy = ManagedByUnset,
     cred_CreatedAt = zero_time, cred_UpdatedAt = zero_time \<rparr>"

definition set_time :: "instant option \<Rightarrow> instant option \<Rightarrow> instant option" where
  "set_time given stored = (case given of None \<Rightarrow> stored | Some t \<Rightarrow> NullTime t)"

definition new_credential :: "tick \<Rightarrow> credentialRequest \<Rightarrow> OAuthCredential" where
  "new_credential tk req = zero_credential\<lparr>
     cred_ID := tk_id tk ''credential'', cred_Name := TrimSpace (cq_Name req), cred_TenantID := TrimSpace (cq_TenantID req),
     cred_ClientID := TrimSpace (cq_ClientID req), cred_AuthType := AuthType_of (cq_AuthType req),
     cred_AuthorityHost := TrimSpace (cq_AuthorityHost req), cred_ExpiresAt := set_time (cq_ExpiresAt req) None \<rparr>"

definition credential_details :: "OAuthCredential \<Rightarrow> (string \<times> json) list" where
  "credential_details c = [(''tenantId'', JStr (cred_TenantID c)), (''clientId'', JStr (cred_ClientID c)),
     (''authType'', JStr (AuthType_string (cred_AuthType c)))]"

definition handleCreateCredential :: handler where
  "handleCreateCredential sv tk r auth = on_db (\<lambda>db.
    (case decode_credential (sv_env sv) (rq_Body r) of
       None \<Rightarrow> (bad_body, db)
     | Some req \<Rightarrow>
         (let invalid = validateCredential req True
          in if invalid \<noteq> [] then (writeValidationError invalid, db)
             else (case sealCredential tk (sv_keyring sv) (new_credential tk req) req of
                 Inl e \<Rightarrow> (writeValidationError [(''clientSecret'', e)], db)
               | Inr c \<Rightarrow>
                   (case Credentials_Create (tk_now tk) (tk_id tk ''credential'') c db of
                      Inl e \<Rightarrow> (writeStoreError e, db)
                    | Inr (c', db') \<Rightarrow>
                        (writeJSON 201 (CredentialBody (toCredentialResponse (tk_now tk) c' 0)),
                         audit sv tk r (entry (au_User auth) ''credential.create'' ''credential'' (cred_ID c') (cred_Name c')
                           (credential_details c')) db'))))))"

definition set_trimmed :: "string \<Rightarrow> string \<Rightarrow> string" where
  "set_trimmed given stored = (if given \<noteq> '''' then TrimSpace given else stored)"

definition edit_credential :: "credentialRequest \<Rightarrow> OAuthCredential \<Rightarrow> OAuthCredential" where
  "edit_credential req c = c\<lparr>
     cred_Name := set_trimmed (cq_Name req) (cred_Name c), cred_TenantID := set_trimmed (cq_TenantID req) (cred_TenantID c),
     cred_ClientID := set_trimmed (cq_ClientID req) (cred_ClientID c),
     cred_AuthType := (if cq_AuthType req \<noteq> '''' then AuthType_of (cq_AuthType req) else cred_AuthType c),
     cred_AuthorityHost := set_trimmed (cq_AuthorityHost req) (cred_AuthorityHost c),
     cred_ExpiresAt := set_time (cq_ExpiresAt req) (cred_ExpiresAt c) \<rparr>"

definition immutable :: "string \<Rightarrow> response" where
  "immutable message = writeError 409 CodeImmutable message"

definition forget :: "string \<Rightarrow> api_state \<Rightarrow> api_state" where
  "forget i st = st\<lparr> ap_tokens := map_option (Provider_Forget i) (ap_tokens st) \<rparr>"

definition handleUpdateCredential :: handler where
  "handleUpdateCredential sv tk r auth st =
    (let db = ap_db st in
     (case decode_credential (sv_env sv) (rq_Body r) of
        None \<Rightarrow> (bad_body, st)
      | Some req \<Rightarrow>
          (case Credentials_Get db (url_param r) of
             Inl e \<Rightarrow> (writeStoreError e, st)
           | Inr c \<Rightarrow>
               if cred_ManagedBy c = ManagedByBootstrap
               then (immutable ''this credential is declared in the bootstrap file; change it there'', st)
               else
                 (let invalid = validateCredential req False
                  in if invalid \<noteq> [] then (writeValidationError invalid, st)
                     else (case sealCredential tk (sv_keyring sv) (edit_credential req c) req of
                         Inl e \<Rightarrow> (writeValidationError [(''clientSecret'', e)], st)
                       | Inr c1 \<Rightarrow>
                           (case Credentials_Update (tk_now tk) c1 db of
                              Inl e \<Rightarrow> (writeStoreError e, st)
                            | Inr db1 \<Rightarrow>
                                (let c2 = c1\<lparr> cred_UpdatedAt := tk_now tk \<rparr>;
                                     db2 = audit sv tk r (entry (au_User auth) ''credential.update'' ''credential'' (cred_ID c2) (cred_Name c2)
                                       (credential_details c2 @ [(''secretChanged'',
                                          JBool (cq_ClientSecret req \<noteq> None \<or> cq_CertificateKeyPEM req \<noteq> None))])) db1
                                 in (writeJSON 200 (CredentialBody (toCredentialResponse (tk_now tk) c2 (countMailboxes db2 (cred_ID c2)))),
                                     forget (cred_ID c2) (st\<lparr> ap_db := db2 \<rparr>)))))))))"

definition handleDeleteCredential :: handler where
  "handleDeleteCredential sv tk r auth st =
    (let db = ap_db st in
     (case Credentials_Get db (url_param r) of
        Inl e \<Rightarrow> (writeStoreError e, st)
      | Inr c \<Rightarrow>
          if cred_ManagedBy c = ManagedByBootstrap
          then (immutable ''this credential is declared in the bootstrap file; remove it there'', st)
          else (case Credentials_Delete (url_param r) db of
              Inl e \<Rightarrow> (writeStoreError e, st)
            | Inr db1 \<Rightarrow>
                (writeJSON 204 NoBody,
                 forget (url_param r) (st\<lparr> ap_db :=
                   audit sv tk r (entry (au_User auth) ''credential.delete'' ''credential'' (cred_ID c) (cred_Name c) []) db1 \<rparr>)))))"

section \<open>Setup instructions\<close>

definition oauthScopeForSetup :: string where
  "oauthScopeForSetup = ''https://outlook.office365.com/.default''"

definition line :: "string \<Rightarrow> string" where "line s = s @ [LF]"
definition dquote :: "string \<Rightarrow> string" where "dquote s = [CHR 0x22] @ s @ [CHR 0x22]"
definition em_dash :: string where "em_dash = bytes [0xE2, 0x80, 0x94]"

definition setup_steps :: "bool \<Rightarrow> string list" where
  "setup_steps no_mailbox =
    [''In Microsoft Entra ID, open this application's API permissions and add the application permission SMTP.SendAsApp under '' @
       dquote ''Office 365 Exchange Online'' @ ''.'',
     ''Grant admin consent for that permission. Without consent the token is issued but Exchange refuses it with 535 5.7.3.'',
     ''Copy the Object ID from the Enterprise applications page '' @ em_dash @ '' not from App registrations. '' @
       ''Using the wrong one is the single most common cause of a 535 with everything else correct.'',
     ''Run the PowerShell below as an Exchange administrator.''] @
    (if no_mailbox then [''Add a mailbox to this credential, then run Add-MailboxPermission for it.''] else [])"

definition setup_commands :: "OAuthCredential \<Rightarrow> string list \<Rightarrow> string" where
  "setup_commands c addresses =
    line ''# Run in Exchange Online PowerShell, as an Exchange administrator.'' @
    line ''Install-Module -Name ExchangeOnlineManagement -Scope CurrentUser'' @
    line ''Import-Module ExchangeOnlineManagement'' @
    line (line (''Connect-ExchangeOnline -Organization '' @ cred_TenantID c)) @
    line ''# The Object ID below must come from Entra ID > Enterprise applications,'' @
    line ''# NOT from App registrations. They are different values.'' @
    line (line (''$objectId = '' @ dquote ''<Object ID from Enterprise applications>'')) @
    line (''New-ServicePrincipal -AppId '' @ cred_ClientID c @ '' -ObjectId $objectId '' @ [CHR 0x60]) @
    line (line (''  -DisplayName '' @ dquote (''smtp-auth-proxy ('' @ cred_Name c @ '')''))) @
    line (line (''$sp = Get-ServicePrincipal -Identity '' @ dquote (''smtp-auth-proxy ('' @ cred_Name c @ '')''))) @
    (if addresses = [] then
       line ''# Once a mailbox is added to this credential, grant access to it:'' @
       line (''# Add-MailboxPermission -Identity '' @ dquote ''shared@example.com'' @ '' -User $sp.Identity -AccessRights FullAccess'')
     else
       line ''# Grant access to each mailbox this credential sends as.'' @
       concat (map (\<lambda>a. line (''Add-MailboxPermission -Identity '' @ Quote a @ '' -User $sp.Identity -AccessRights FullAccess'')) addresses) @
       [LF] @ line (''# Only needed if a message's envelope sender differs from the mailbox:'') @
       concat (map (\<lambda>a. line (''# Add-RecipientPermission -Identity '' @ Quote a @ '' -Trustee $sp.Identity -AccessRights SendAs'')) addresses)) @
    [LF] @ line (''# The proxy requests tokens for the scope '' @ oauthScopeForSetup)"

definition buildSetup :: "OAuthCredential \<Rightarrow> string list \<Rightarrow> setupResponse" where
  "buildSetup c addresses =
    \<lparr> su_Summary = ''Exchange Online needs three things before it will accept this credential: '' @
        ''admin consent for SMTP.SendAsApp, a registered service principal, and a mailbox permission for each of the '' @
        Itoa (length addresses) @ '' mailbox(es) it sends as.'',
      su_Steps = setup_steps (addresses = []), su_Commands = setup_commands c addresses,
      su_Docs = ''https://learn.microsoft.com/exchange/client-developer/legacy-protocols/how-to-authenticate-an-imap-pop-smtp-application-by-using-oauth'' \<rparr>"

definition handleCredentialSetup :: handler where
  "handleCredentialSetup sv tk r auth = on_db (\<lambda>db.
    (case Credentials_Get db (url_param r) of
       Inl e \<Rightarrow> (writeStoreError e, db)
     | Inr c \<Rightarrow>
         (writeJSON 200 (SetupBody (buildSetup c
            (map mb_Address (filter (\<lambda>m. mb_OAuthCredentialID m = cred_ID c) (Mailboxes_List db))))), db)))"

section \<open>Mailboxes\<close>

definition toMailboxResponse :: "Mailbox \<Rightarrow> string \<Rightarrow> mailboxResponse" where
  "toMailboxResponse m credentialName =
    \<lparr> mr_ID = mb_ID m, mr_Address = mb_Address m, mr_DisplayName = mb_DisplayName m,
      mr_OAuthCredentialID = mb_OAuthCredentialID m, mr_CredentialName = credentialName, mr_Transport = mb_Transport m,
      mr_RateLimitPerMin = mb_RateLimitPerMin m, mr_MaxConcurrent = mb_MaxConcurrent m, mr_Enabled = mb_Enabled m,
      mr_ManagedBy = mb_ManagedBy m, mr_CreatedAt = mb_CreatedAt m, mr_UpdatedAt = mb_UpdatedAt m \<rparr>"

text \<open>A map lookup: empty when the credential is not there.\<close>

definition credentialNames :: "DB \<Rightarrow> string \<Rightarrow> string" where
  "credentialNames db i = (case map_of (map (\<lambda>c. (cred_ID c, cred_Name c)) (rev (Credentials_List db))) i of
      None \<Rightarrow> '''' | Some n \<Rightarrow> n)"

definition mailbox_response :: "DB \<Rightarrow> Mailbox \<Rightarrow> mailboxResponse" where
  "mailbox_response db m = toMailboxResponse m (credentialNames db (mb_OAuthCredentialID m))"

definition handleListMailboxes :: handler where
  "handleListMailboxes sv tk r auth = on_db (\<lambda>db.
    (let items = map (mailbox_response db) (Mailboxes_List db)
     in (writeJSON 200 (MailboxesBody items (length items)), db)))"

definition handleGetMailbox :: handler where
  "handleGetMailbox sv tk r auth = on_db (\<lambda>db.
    (case Mailboxes_Get db (url_param r) of
       Inl e \<Rightarrow> (writeStoreError e, db)
     | Inr m \<Rightarrow> (writeJSON 200 (MailboxBody (mailbox_response db m)), db)))"

record mailboxRequest =
  mq_Address :: string
  mq_DisplayName :: string
  mq_OAuthCredentialID :: string
  mq_Transport :: string
  mq_RateLimitPerMin :: "int option"
  mq_MaxConcurrent :: "int option"
  mq_Enabled :: "bool option"

definition decode_mailbox :: "json option \<Rightarrow> mailboxRequest option" where
  "decode_mailbox = decodeJSON
    [(''address'', plain_string mq_Address_update), (''displayName'', plain_string mq_DisplayName_update),
     (''oauthCredentialId'', plain_string mq_OAuthCredentialID_update), (''transport'', plain_string mq_Transport_update),
     (''rateLimitPerMin'', pointer_int mq_RateLimitPerMin_update), (''maxConcurrent'', pointer_int mq_MaxConcurrent_update),
     (''enabled'', pointer_bool mq_Enabled_update)]
    \<lparr> mq_Address = '''', mq_DisplayName = '''', mq_OAuthCredentialID = '''', mq_Transport = '''', mq_RateLimitPerMin = None,
      mq_MaxConcurrent = None, mq_Enabled = None \<rparr>"

definition limit_field :: "string \<Rightarrow> int option \<Rightarrow> int \<Rightarrow> string \<Rightarrow> (string \<times> string) list" where
  "limit_field name given limit message =
    (case given of None \<Rightarrow> [] | Some n \<Rightarrow>
       field_if (n < 0) name ''must not be negative'' @ field_if (limit < n) name message)"

definition validateMailbox :: "admin_env \<Rightarrow> mailboxRequest \<Rightarrow> bool \<Rightarrow> (string \<times> string) list" where
  "validateMailbox ax req creating =
    (if creating \<or> mq_Address req \<noteq> '''' then
       (let address = TrimSpace (mq_Address req)
        in if address = '''' then [(''address'', ''required'')]
           else field_if (\<not> is_ok (ParseAddress (ax_mail_parse ax) address)) ''address'' ''must be a valid email address'')
     else []) @
    field_if (creating \<and> TrimSpace (mq_OAuthCredentialID req) = '''') ''oauthCredentialId'' ''required'' @
    field_if (mq_Transport req \<noteq> '''' \<and> Transport_of (mq_Transport req) \<notin> {TransportSMTP, TransportGraph})
      ''transport'' ''must be smtp or graph'' @
    field_if (creating \<and> mq_Transport req = '''') ''transport'' ''required'' @
    limit_field ''rateLimitPerMin'' (mq_RateLimitPerMin req) ExchangeMessagesPerMinute
      ''Exchange Online allows at most 30 messages per minute per mailbox'' @
    limit_field ''maxConcurrent'' (mq_MaxConcurrent req) ExchangeConcurrentConnections
      ''Exchange Online allows at most 3 concurrent connections per mailbox''"

definition new_mailbox :: "mailboxRequest \<Rightarrow> Mailbox" where
  "new_mailbox req =
    \<lparr> mb_ID = '''', mb_Address = ToLower (TrimSpace (mq_Address req)), mb_DisplayName = TrimSpace (mq_DisplayName req),
      mb_OAuthCredentialID = mq_OAuthCredentialID req, mb_Transport = Transport_of (mq_Transport req),
      mb_RateLimitPerMin = (case mq_RateLimitPerMin req of None \<Rightarrow> None | Some n \<Rightarrow> NullInt n),
      mb_MaxConcurrent = (case mq_MaxConcurrent req of None \<Rightarrow> None | Some n \<Rightarrow> NullInt n),
      mb_Enabled = (case mq_Enabled req of None \<Rightarrow> True | Some b \<Rightarrow> b),
      mb_ManagedBy = ManagedByUnset, mb_CreatedAt = zero_time, mb_UpdatedAt = zero_time \<rparr>"

definition Transport_string :: "Transport \<Rightarrow> string" where
  "Transport_string t = (case t of TransportSMTP \<Rightarrow> ''smtp'' | TransportGraph \<Rightarrow> ''graph'' | TransportUnknown s \<Rightarrow> s)"

definition handleCreateMailbox :: handler where
  "handleCreateMailbox sv tk r auth = on_db (\<lambda>db.
    (case decode_mailbox (rq_Body r) of
       None \<Rightarrow> (bad_body, db)
     | Some req \<Rightarrow>
         (let invalid = validateMailbox (sv_env sv) req True
          in if invalid \<noteq> [] then (writeValidationError invalid, db)
             else (case Mailboxes_Create (tk_now tk) (tk_id tk ''mailbox'') (new_mailbox req) db of
                 Inl e \<Rightarrow> (writeStoreError e, db)
               | Inr (m, db1) \<Rightarrow>
                   (let db2 = audit sv tk r (entry (au_User auth) ''mailbox.create'' ''mailbox'' (mb_ID m) (mb_Address m)
                          [(''transport'', JStr (Transport_string (mb_Transport m))), (''credentialId'', JStr (mb_OAuthCredentialID m))]) db1
                    in (writeJSON 201 (MailboxBody (mailbox_response db2 m)), db2))))))"

definition edit_mailbox :: "mailboxRequest \<Rightarrow> Mailbox \<Rightarrow> Mailbox" where
  "edit_mailbox req m = m\<lparr>
     mb_Address := (if mq_Address req \<noteq> '''' then ToLower (TrimSpace (mq_Address req)) else mb_Address m),
     mb_DisplayName := set_trimmed (mq_DisplayName req) (mb_DisplayName m),
     mb_OAuthCredentialID := (if mq_OAuthCredentialID req \<noteq> '''' then mq_OAuthCredentialID req else mb_OAuthCredentialID m),
     mb_Transport := (if mq_Transport req \<noteq> '''' then Transport_of (mq_Transport req) else mb_Transport m),
     mb_RateLimitPerMin := (case mq_RateLimitPerMin req of None \<Rightarrow> mb_RateLimitPerMin m | Some n \<Rightarrow> NullInt n),
     mb_MaxConcurrent := (case mq_MaxConcurrent req of None \<Rightarrow> mb_MaxConcurrent m | Some n \<Rightarrow> NullInt n),
     mb_Enabled := (case mq_Enabled req of None \<Rightarrow> mb_Enabled m | Some b \<Rightarrow> b) \<rparr>"

definition change_if :: "bool \<Rightarrow> string \<Rightarrow> json \<Rightarrow> (string \<times> json) list" where
  "change_if c name v = (if c then [(name, v)] else [])"

definition change_some :: "string \<Rightarrow> ('a \<Rightarrow> json) \<Rightarrow> 'a option \<Rightarrow> (string \<times> json) list" where
  "change_some name f given = (case given of None \<Rightarrow> [] | Some v \<Rightarrow> [(name, f v)])"

definition mailbox_changes :: "mailboxRequest \<Rightarrow> Mailbox \<Rightarrow> (string \<times> json) list" where
  "mailbox_changes req m =
    change_if (mq_Address req \<noteq> '''') ''address'' (JStr (mb_Address m)) @
    change_if (mq_OAuthCredentialID req \<noteq> '''') ''credentialId'' (JStr (mb_OAuthCredentialID m)) @
    change_if (mq_Transport req \<noteq> '''') ''transport'' (JStr (Transport_string (mb_Transport m))) @
    change_some ''rateLimitPerMin'' JInt (mq_RateLimitPerMin req) @
    change_some ''maxConcurrent'' JInt (mq_MaxConcurrent req) @
    change_some ''enabled'' JBool (mq_Enabled req)"

definition handleUpdateMailbox :: handler where
  "handleUpdateMailbox sv tk r auth = on_db (\<lambda>db.
    (case decode_mailbox (rq_Body r) of
       None \<Rightarrow> (bad_body, db)
     | Some req \<Rightarrow>
         (case Mailboxes_Get db (url_param r) of
            Inl e \<Rightarrow> (writeStoreError e, db)
          | Inr m0 \<Rightarrow>
              if mb_ManagedBy m0 = ManagedByBootstrap
              then (immutable ''this mailbox is declared in the bootstrap file; change it there'', db)
              else
                (let invalid = validateMailbox (sv_env sv) req False
                 in if invalid \<noteq> [] then (writeValidationError invalid, db)
                    else
                      (let m = edit_mailbox req m0
                       in (case Mailboxes_Update (tk_now tk) m db of
                             Inl e \<Rightarrow> (writeStoreError e, db)
                           | Inr db1 \<Rightarrow>
                               (let db2 = audit sv tk r (entry (au_User auth) ''mailbox.update'' ''mailbox'' (mb_ID m) (mb_Address m)
                                      (mailbox_changes req m)) db1
                                in (writeJSON 200 (MailboxBody (mailbox_response db2 (m\<lparr> mb_UpdatedAt := tk_now tk \<rparr>))), db2))))))))"

definition handleDeleteMailbox :: handler where
  "handleDeleteMailbox sv tk r auth = on_db (\<lambda>db.
    (case Mailboxes_Get db (url_param r) of
       Inl e \<Rightarrow> (writeStoreError e, db)
     | Inr m \<Rightarrow>
         if mb_ManagedBy m = ManagedByBootstrap
         then (immutable ''this mailbox is declared in the bootstrap file; remove it there'', db)
         else (case Mailboxes_Delete (mb_ID m) db of
             Inl e \<Rightarrow> (writeStoreError e, db)
           | Inr db1 \<Rightarrow>
               (writeJSON 204 NoBody,
                audit sv tk r (entry (au_User auth) ''mailbox.delete'' ''mailbox'' (mb_ID m) (mb_Address m) []) db1))))"

definition scopeFor :: "Server \<Rightarrow> Transport \<Rightarrow> string" where
  "scopeFor sv t = (if t = TransportGraph then sv_graphScope sv else sv_smtpScope sv)"

definition resultFor :: "bool \<Rightarrow> string" where
  "resultFor ok = (if ok then ResultSuccess else ResultFailure)"

definition oauth_error_text :: "oauth_error \<Rightarrow> string" where
  "oauth_error_text e = (case e of
      ErrScopeRequired \<Rightarrow> ''oauth: a scope is required''
    | ErrCredentialUnusable s \<Rightarrow> ''oauth: credential is unusable: '' @ s
    | ErrTokenRequestFailed s \<Rightarrow> ''oauth: token request failed for '' @ s
    | ErrTenantRequired \<Rightarrow> ''oauth: a tenant id is required'')"

text \<open>The regular expression \<^verbatim>\<open>\bAADSTS\d{5,12}\b\<close>: the first match, or nothing.\<close>

definition is_word_char :: "char \<Rightarrow> bool" where
  "is_word_char c = (is_digit c \<or> is_upper c \<or> (97 \<le> byte c \<and> byte c \<le> 122) \<or> c = CHR ''_'')"

definition code_here :: "string \<Rightarrow> string option" where
  "code_here s =
    (case CutPrefix s ''AADSTS'' of
       None \<Rightarrow> None
     | Some rest \<Rightarrow>
         (let ds = takeWhile is_digit rest
          in if 5 \<le> length ds \<and> length ds \<le> 12 \<and>
                (case drop (length ds) rest of [] \<Rightarrow> True | c # _ \<Rightarrow> \<not> is_word_char c)
             then Some (''AADSTS'' @ ds) else None))"

fun entra_code :: "bool \<Rightarrow> string \<Rightarrow> string" where
  "entra_code inside [] = ''''"
| "entra_code inside (c # s) =
    (case (if inside then None else code_here (c # s)) of
       Some code \<Rightarrow> code
     | None \<Rightarrow> entra_code (is_word_char c) s)"

definition test_result :: "(oauth_error, Token) result \<Rightarrow> testResponse" where
  "test_result res = (case res of
      Inl e \<Rightarrow>
        (let code = entra_code False (oauth_error_text e)
         in \<lparr> te_OK = False, te_Stage = ''token'',
              te_Message = ''Token acquisition failed. Check the credential and tenant configuration.'' @
                (if code \<noteq> '''' then '' ('' @ code @ '')'' else ''''),
              te_Hint = ''Check that the client secret or certificate is current, and that the tenant and client IDs match the application registration.'' \<rparr>)
    | Inr _ \<Rightarrow>
        \<lparr> te_OK = True, te_Stage = ''token'', te_Message = ''Microsoft Entra issued an access token for this credential.'',
          te_Hint = ''A token only proves the application registration works. If mail still fails with 535, the missing piece is usually '' @
            ''the Exchange side: admin consent for SMTP.SendAsApp, New-ServicePrincipal, or Add-MailboxPermission for this mailbox.'' \<rparr>)"

definition handleTestMailbox :: handler where
  "handleTestMailbox sv tk r auth st =
    (let db = ap_db st in
     (case ap_tokens st of
        None \<Rightarrow> (writeError 503 CodeInternal ''the token provider is not available'', st)
      | Some tokens \<Rightarrow>
          (case Mailboxes_Get db (url_param r) of
             Inl e \<Rightarrow> (writeStoreError e, st)
           | Inr m \<Rightarrow>
               (case Credentials_Get db (mb_OAuthCredentialID m) of
                  Inl e \<Rightarrow> (writeStoreError e, st)
                | Inr credential \<Rightarrow>
                    (let scope = scopeFor sv (mb_Transport m);
                         (res, tokens') = Provider_Token (ax_sha256 (sv_env sv)) (sv_msal sv) credential scope tokens;
                         result = test_result res
                     in (writeJSON 200 (TestBody result),
                         st\<lparr> ap_tokens := Some tokens',
                             ap_db := audit sv tk r ((entry (au_User auth) ''mailbox.test'' ''mailbox'' (mb_ID m) (mb_Address m)
                               [(''scope'', JStr scope), (''ok'', JBool (te_OK result))])\<lparr> en_Result := resultFor (te_OK result) \<rparr>) db \<rparr>))))))"

section \<open>Diagnostics\<close>

definition handleMailboxDiagnostics :: handler where
  "handleMailboxDiagnostics sv tk r auth = on_db (\<lambda>db.
    (case Mailboxes_Get db (url_param r) of
       Inl e \<Rightarrow> (writeStoreError e, db)
     | Inr m \<Rightarrow>
         (case Credentials_Get db (mb_OAuthCredentialID m) of
            Inl e \<Rightarrow> (writeStoreError e, db)
          | Inr c \<Rightarrow>
              (writeJSON 200 (DiagnosticsBody (toMailboxResponse m (cred_Name c))
                 (toCredentialResponse (tk_now tk) c (countMailboxes db (cred_ID c)))
                 (wx_clean_url (sv_web sv) (if mb_Transport m = TransportGraph then sv_graphEndpoint sv else sv_smtpEndpoint sv))
                 (scopeFor sv (mb_Transport m))
                 ''Token acquisition checks authentication only. A queued test checks Microsoft 365 acceptance, not inbox arrival or device SMTP login.''), db))))"

record testSendRequest =
  ts_RequestID :: string
  ts_Recipient :: string

definition decode_test_send :: "json option \<Rightarrow> testSendRequest option" where
  "decode_test_send = decodeJSON
    [(''requestId'', plain_string ts_RequestID_update), (''recipient'', plain_string ts_Recipient_update)]
    \<lparr> ts_RequestID = '''', ts_Recipient = '''' \<rparr>"

definition diagnostic_subject :: string where "diagnostic_subject = ''smtp-auth-proxy diagnostic test''"

definition crlf_line :: "string \<Rightarrow> string" where "crlf_line s = s @ CRLF"

definition diagnostic_body :: "web_env \<Rightarrow> instant \<Rightarrow> string \<Rightarrow> string \<Rightarrow> string \<Rightarrow> string" where
  "diagnostic_body wx now from to messageID =
    crlf_line (''From: '' @ wx_show_address wx from) @ crlf_line (''To: '' @ wx_show_address wx to) @
    crlf_line (''Date: '' @ wx_rfc1123 wx now) @ crlf_line (''Message-ID: '' @ messageID) @
    crlf_line (''Subject: '' @ diagnostic_subject) @ crlf_line ''MIME-Version: 1.0'' @
    crlf_line ''Content-Type: text/plain; charset=utf-8'' @ CRLF @
    crlf_line ''This is a diagnostic test sent through the normal smtp-auth-proxy delivery queue.'' @
    crlf_line ''Microsoft 365 acceptance does not prove inbox arrival or device SMTP login.''"

definition diagnostic_message :: "string \<Rightarrow> string \<Rightarrow> string \<Rightarrow> string \<Rightarrow> string \<Rightarrow> string \<Rightarrow> Message" where
  "diagnostic_message i address from to messageID body =
    \<lparr> msg_Origin = '''', msg_ID = i, msg_SMTPAccountID = None, msg_MailboxID = None, msg_AccountUsername = '''',
      msg_MailboxAddress = address, msg_EnvelopeFrom = from, msg_HeaderFrom = from, msg_Recipients = [to],
      msg_RecipientCount = 0, msg_SizeBytes = int (length body), msg_Subject = diagnostic_subject, msg_MessageID = messageID,
      msg_Status = StatusUnset, msg_Attempts = 0, msg_NextAttemptAt = zero_time, msg_LeaseOwner = None, msg_LeaseExpiresAt = None,
      msg_LastError = '''', msg_LastErrorCode = '''', msg_LastErrorPermanent = False, msg_ClientIP = '''', msg_BlobRef = '''',
      msg_ReceivedAt = zero_time, msg_SentAt = None, msg_UpdatedAt = zero_time \<rparr>"

definition handleSendMailboxTest :: handler where
  "handleSendMailboxTest sv tk r auth = on_db (\<lambda>db.
    (case decode_test_send (rq_Body r) of
       None \<Rightarrow> (bad_body, db)
     | Some req \<Rightarrow>
         (case wx_uuid (sv_web sv) (ts_RequestID req) of
            None \<Rightarrow> (writeValidationError [(''requestId'', ''must be a UUID'')], db)
          | Some requestID \<Rightarrow>
              (case ParseAddress (ax_mail_parse (sv_env sv)) (ts_Recipient req) of
                 Inl _ \<Rightarrow> (writeValidationError [(''recipient'', ''specify one valid recipient'')], db)
               | Inr address \<Rightarrow>
                   if ad_Normalized address = '''' \<or> ContainsAny (ts_Recipient req) CRLF
                   then (writeValidationError [(''recipient'', ''specify one valid recipient'')], db)
                   else (case Mailboxes_Get db (url_param r) of
                       Inl e \<Rightarrow> (writeStoreError e, db)
                     | Inr m \<Rightarrow>
                         (case ParseAddress (ax_mail_parse (sv_env sv)) (mb_Address m) of
                            Inl _ \<Rightarrow> (writeError 409 CodeConflict ''mailbox address is invalid'', db)
                          | Inr from \<Rightarrow>
                              if ad_Normalized from = '''' then (writeError 409 CodeConflict ''mailbox address is invalid'', db)
                              else
                                (let i = tk_id tk ''message''; messageID = ''<'' @ i @ ''@smtp-auth-proxy.invalid>'';
                                     body = diagnostic_body (sv_web sv) (tk_now tk) (ad_Normalized from) (ad_Normalized address) messageID
                                 in (case EnqueueDiagnostic (tk_now tk) i (tk_id tk ''audit'') (usr_ID (au_User auth)) requestID (mb_ID m)
                                         (ad_Normalized address)
                                         (diagnostic_message i (mb_Address m) (ad_Normalized from) (ad_Normalized address) messageID body)
                                         body db of
                                       Inl e \<Rightarrow> (writeStoreError e, db)
                                     | Inr (j, created, db') \<Rightarrow> (writeJSON 202 (QueuedBody j created), db')))))))))"

section \<open>SMTP accounts\<close>

definition toAccountResponse :: "DB \<Rightarrow> SMTPAccount \<Rightarrow> accountResponse" where
  "toAccountResponse db a =
    (let mailboxes = ListForAccount db (acc_ID a)
     in \<lparr> ac_ID = acc_ID a, ac_Username = acc_Username a, ac_Description = acc_Description a,
          ac_DefaultMailboxID = null_string (acc_DefaultMailboxID a), ac_MailboxIDs = map mb_ID mailboxes,
          ac_MailboxAddresses = map mb_Address mailboxes, ac_AllowedSenders = map as_Pattern (AllowedSenders db (acc_ID a)),
          ac_FromPolicy = acc_FromPolicy a, ac_AllowCIDRs = acc_AllowCIDRs a, ac_RateLimitPerMin = acc_RateLimitPerMin a,
          ac_Enabled = acc_Enabled a, ac_LastUsedAt = acc_LastUsedAt a, ac_ManagedBy = acc_ManagedBy a,
          ac_CreatedAt = acc_CreatedAt a, ac_UpdatedAt = acc_UpdatedAt a \<rparr>)"

definition handleListAccounts :: handler where
  "handleListAccounts sv tk r auth = on_db (\<lambda>db.
    (let items = map (toAccountResponse db) (Accounts_List db)
     in (writeJSON 200 (AccountsBody items (length items)), db)))"

definition handleGetAccount :: handler where
  "handleGetAccount sv tk r auth = on_db (\<lambda>db.
    (case Accounts_Get db (url_param r) of
       Inl e \<Rightarrow> (writeStoreError e, db)
     | Inr a \<Rightarrow> (writeJSON 200 (AccountBody (toAccountResponse db a)), db)))"

record accountRequest =
  aq_Username :: string
  aq_Description :: string
  aq_Password :: "string option"
  aq_DefaultMailboxID :: "string option"
  aq_MailboxIDs :: "string list option"
  aq_AllowedSenders :: "string list option"
  aq_FromPolicy :: string
  aq_AllowCIDRs :: "string list option"
  aq_RateLimitPerMin :: "int option"
  aq_Enabled :: "bool option"

definition zero_account_request :: accountRequest where
  "zero_account_request = \<lparr> aq_Username = '''', aq_Description = '''', aq_Password = None, aq_DefaultMailboxID = None,
     aq_MailboxIDs = None, aq_AllowedSenders = None, aq_FromPolicy = '''', aq_AllowCIDRs = None, aq_RateLimitPerMin = None,
     aq_Enabled = None \<rparr>"

definition decode_account :: "json option \<Rightarrow> accountRequest option" where
  "decode_account = decodeJSON
    [(''username'', plain_string aq_Username_update), (''description'', plain_string aq_Description_update),
     (''password'', pointer_string aq_Password_update), (''defaultMailboxId'', pointer_string aq_DefaultMailboxID_update),
     (''mailboxIds'', pointer_strings aq_MailboxIDs_update), (''allowedSenders'', pointer_strings aq_AllowedSenders_update),
     (''fromPolicy'', plain_string aq_FromPolicy_update), (''allowCidrs'', pointer_strings aq_AllowCIDRs_update),
     (''rateLimitPerMin'', pointer_int aq_RateLimitPerMin_update), (''enabled'', pointer_bool aq_Enabled_update)]
    zero_account_request"

definition pattern_message :: "string \<Rightarrow> policy_error \<Rightarrow> string" where
  "pattern_message p e = (case e of
      PatternEmpty \<Rightarrow> ''policy: pattern must not be empty''
    | PatternCatchAll \<Rightarrow> ''policy: '' @ dquote ''*'' @ '' would allow sending as any address; grant the specific addresses or domains instead''
    | PatternBadDomain \<Rightarrow> ''policy: '' @ Quote p @ '' is not a valid domain pattern; use *@example.com''
    | PatternUnsupported \<Rightarrow> ''policy: '' @ Quote p @ '' is not supported; use an exact address or *@example.com''
    | _ \<Rightarrow> ''policy: '' @ Quote p @ '' is not a valid address or domain pattern'')"

fun first_bad_pattern :: "admin_env \<Rightarrow> string list \<Rightarrow> (string \<times> string) list" where
  "first_bad_pattern ax [] = []"
| "first_bad_pattern ax (p # ps) =
    (case ValidatePattern (ax_mail_parse ax) p of
       Some e \<Rightarrow> [(''allowedSenders'', pattern_message p e)]
     | None \<Rightarrow> first_bad_pattern ax ps)"

fun first_bad_cidr :: "admin_env \<Rightarrow> string list \<Rightarrow> (string \<times> string) list" where
  "first_bad_cidr ax [] = []"
| "first_bad_cidr ax (c # cs) =
    (if ax_parse_cidr ax c = None then [(''allowCidrs'', c @ '' is not a CIDR (use /32 for a single address)'')]
     else first_bad_cidr ax cs)"

definition validateAccount :: "admin_env \<Rightarrow> accountRequest \<Rightarrow> bool \<Rightarrow> (string \<times> string) list" where
  "validateAccount ax req creating =
    field_if (creating \<and> TrimSpace (aq_Username req) = '''') ''username'' ''required'' @
    field_if (\<not> absent (aq_Password req) \<and> length (the (aq_Password req)) < 8) ''password'' ''must be at least 8 characters'' @
    field_if (aq_FromPolicy req \<noteq> '''' \<and>
        FromPolicy_of (aq_FromPolicy req) \<notin> {FromPolicyReject, FromPolicyRewrite, FromPolicyPassthrough})
      ''fromPolicy'' ''must be reject, rewrite or passthrough'' @
    (case aq_AllowedSenders req of None \<Rightarrow> [] | Some ps \<Rightarrow> first_bad_pattern ax ps) @
    (case aq_AllowCIDRs req of None \<Rightarrow> [] | Some cs \<Rightarrow> first_bad_cidr ax cs) @
    limit_field ''rateLimitPerMin'' (aq_RateLimitPerMin req) ExchangeMessagesPerMinute
      ''Exchange Online allows at most 30 messages per minute per mailbox''"

definition passwordFor :: "tick \<Rightarrow> accountRequest \<Rightarrow> string \<times> bool" where
  "passwordFor tk req =
    (if \<not> absent (aq_Password req) then (the (aq_Password req), False)
     else (GeneratePassword (tk_random tk ''password''), True))"

definition applyAccountLinks :: "tick \<Rightarrow> string \<Rightarrow> accountRequest \<Rightarrow> DB \<Rightarrow> store_error option \<times> DB" where
  "applyAccountLinks tk accountID req db =
    (case (case aq_MailboxIDs req of None \<Rightarrow> Inr db | Some is \<Rightarrow> SetMailboxes accountID is db) of
       Inl e \<Rightarrow> (Some e, db)
     | Inr db1 \<Rightarrow>
         (case aq_AllowedSenders req of
            None \<Rightarrow> (None, db1)
          | Some ps \<Rightarrow>
              (case SetAllowedSenders (tk_now tk) accountID (\<lambda>p. tk_id tk (''sender/'' @ p)) ps db1 of
                 Inl e \<Rightarrow> (Some e, db1)
               | Inr db2 \<Rightarrow> (None, db2))))"

definition new_account :: "accountRequest \<Rightarrow> string \<Rightarrow> SMTPAccount" where
  "new_account req hash =
    \<lparr> acc_ID = '''', acc_Username = TrimSpace (aq_Username req), acc_PasswordHash = hash,
      acc_Description = TrimSpace (aq_Description req),
      acc_DefaultMailboxID = (case aq_DefaultMailboxID req of None \<Rightarrow> None | Some i \<Rightarrow> NullString i),
      acc_FromPolicy = (if aq_FromPolicy req = '''' then FromPolicyReject else FromPolicy_of (aq_FromPolicy req)),
      acc_AllowCIDRs = (case aq_AllowCIDRs req of None \<Rightarrow> [] | Some cs \<Rightarrow> cs),
      acc_RateLimitPerMin = (case aq_RateLimitPerMin req of None \<Rightarrow> None | Some n \<Rightarrow> NullInt n),
      acc_Enabled = (case aq_Enabled req of None \<Rightarrow> True | Some b \<Rightarrow> b), acc_LastUsedAt = None,
      acc_ManagedBy = ManagedByUnset, acc_CreatedAt = zero_time, acc_UpdatedAt = zero_time \<rparr>"

definition FromPolicy_string :: "FromPolicy \<Rightarrow> string" where
  "FromPolicy_string p = (case p of FromPolicyReject \<Rightarrow> ''reject'' | FromPolicyRewrite \<Rightarrow> ''rewrite''
     | FromPolicyPassthrough \<Rightarrow> ''passthrough'' | FromPolicyUnknown s \<Rightarrow> s)"

definition handleCreateAccount :: handler where
  "handleCreateAccount sv tk r auth = on_db (\<lambda>db.
    (case decode_account (rq_Body r) of
       None \<Rightarrow> (bad_body, db)
     | Some req \<Rightarrow>
         (let invalid = validateAccount (sv_env sv) req True
          in if invalid \<noteq> [] then (writeValidationError invalid, db)
             else
               (let (password, generated) = passwordFor tk req
                in (case hash_password (sv_env sv) tk password of
                      Inl _ \<Rightarrow> (internal_error, db)
                    | Inr hash \<Rightarrow>
                        (case Accounts_Create (tk_now tk) (tk_id tk ''account'') (new_account req hash) db of
                           Inl e \<Rightarrow> (writeStoreError e, db)
                         | Inr (a, db1) \<Rightarrow>
                             (case applyAccountLinks tk (acc_ID a) req db1 of
                                (Some e, db2) \<Rightarrow> (writeStoreError e, db2)
                              | (None, db2) \<Rightarrow>
                                  (let db3 = audit sv tk r (entry (au_User auth) ''account.create'' ''smtp_account'' (acc_ID a) (acc_Username a)
                                         [(''fromPolicy'', JStr (FromPolicy_string (acc_FromPolicy a))),
                                          (''passwordGenerated'', JBool generated), (''password'', JStr password)]) db2
                                   in (writeJSON 201 (CreatedAccountBody (toAccountResponse db3 a) password), db3)))))))))"

definition edit_account :: "accountRequest \<Rightarrow> SMTPAccount \<Rightarrow> SMTPAccount" where
  "edit_account req a = a\<lparr>
     acc_Username := set_trimmed (aq_Username req) (acc_Username a),
     acc_Description := set_trimmed (aq_Description req) (acc_Description a),
     acc_DefaultMailboxID := (case aq_DefaultMailboxID req of None \<Rightarrow> acc_DefaultMailboxID a | Some i \<Rightarrow> NullString i),
     acc_FromPolicy := (if aq_FromPolicy req \<noteq> '''' then FromPolicy_of (aq_FromPolicy req) else acc_FromPolicy a),
     acc_AllowCIDRs := (case aq_AllowCIDRs req of None \<Rightarrow> acc_AllowCIDRs a | Some cs \<Rightarrow> cs),
     acc_RateLimitPerMin := (case aq_RateLimitPerMin req of None \<Rightarrow> acc_RateLimitPerMin a | Some n \<Rightarrow> NullInt n),
     acc_Enabled := (case aq_Enabled req of None \<Rightarrow> acc_Enabled a | Some b \<Rightarrow> b) \<rparr>"

definition account_changes :: "accountRequest \<Rightarrow> SMTPAccount \<Rightarrow> (string \<times> json) list" where
  "account_changes req a =
    change_if (aq_Username req \<noteq> '''') ''username'' (JStr (acc_Username a)) @
    change_some ''defaultMailboxId'' JStr (aq_DefaultMailboxID req) @
    change_if (aq_FromPolicy req \<noteq> '''') ''fromPolicy'' (JStr (FromPolicy_string (acc_FromPolicy a))) @
    change_some ''allowCidrs'' (\<lambda>cs. JArr (map JStr cs)) (aq_AllowCIDRs req) @
    change_some ''rateLimitPerMin'' JInt (aq_RateLimitPerMin req) @
    change_some ''enabled'' JBool (aq_Enabled req)"

definition handleUpdateAccount :: handler where
  "handleUpdateAccount sv tk r auth = on_db (\<lambda>db.
    (case decode_account (rq_Body r) of
       None \<Rightarrow> (bad_body, db)
     | Some req \<Rightarrow>
         (case Accounts_Get db (url_param r) of
            Inl e \<Rightarrow> (writeStoreError e, db)
          | Inr a0 \<Rightarrow>
              if acc_ManagedBy a0 = ManagedByBootstrap
              then (immutable ''this account is declared in the bootstrap file; change it there'', db)
              else
                (let invalid = validateAccount (sv_env sv) req False
                 in if invalid \<noteq> [] then (writeValidationError invalid, db)
                    else
                      (let a = edit_account req a0
                       in (case Accounts_Update (tk_now tk) a db of
                             Inl e \<Rightarrow> (writeStoreError e, db)
                           | Inr db1 \<Rightarrow>
                               (case applyAccountLinks tk (acc_ID a) req db1 of
                                  (Some e, db2) \<Rightarrow> (writeStoreError e, db2)
                                | (None, db2) \<Rightarrow>
                                    (let db3 = audit sv tk r (entry (au_User auth) ''account.update'' ''smtp_account'' (acc_ID a)
                                           (acc_Username a) (account_changes req a)) db2
                                     in (writeJSON 200 (AccountBody (toAccountResponse db3 (a\<lparr> acc_UpdatedAt := tk_now tk \<rparr>))), db3)))))))))"

definition handleDeleteAccount :: handler where
  "handleDeleteAccount sv tk r auth = on_db (\<lambda>db.
    (case Accounts_Get db (url_param r) of
       Inl e \<Rightarrow> (writeStoreError e, db)
     | Inr a \<Rightarrow>
         if acc_ManagedBy a = ManagedByBootstrap
         then (immutable ''this account is declared in the bootstrap file; remove it there'', db)
         else (case Accounts_Delete (acc_ID a) db of
             Inl e \<Rightarrow> (writeStoreError e, db)
           | Inr db1 \<Rightarrow>
               (writeJSON 204 NoBody,
                audit sv tk r (entry (au_User auth) ''account.delete'' ''smtp_account'' (acc_ID a) (acc_Username a) []) db1))))"

definition decode_reset :: "json option \<Rightarrow> accountRequest option" where
  "decode_reset = decodeJSON [(''password'', pointer_string aq_Password_update)] zero_account_request"

definition handleResetAccountPassword :: handler where
  "handleResetAccountPassword sv tk r auth = on_db (\<lambda>db.
    (case decode_reset (rq_Body r) of
       None \<Rightarrow> (bad_body, db)
     | Some req \<Rightarrow>
         (case Accounts_Get db (url_param r) of
            Inl e \<Rightarrow> (writeStoreError e, db)
          | Inr a \<Rightarrow>
              (let (password, generated) = passwordFor tk req
               in (case hash_password (sv_env sv) tk password of
                     Inl _ \<Rightarrow> (internal_error, db)
                   | Inr hash \<Rightarrow>
                       (case Accounts_Update (tk_now tk) (a\<lparr> acc_PasswordHash := hash \<rparr>) db of
                          Inl e \<Rightarrow> (writeStoreError e, db)
                        | Inr db1 \<Rightarrow>
                            (writeJSON 200 (PasswordBody password),
                             audit sv tk r (entry (au_User auth) ''account.reset_password'' ''smtp_account'' (acc_ID a) (acc_Username a)
                               [(''passwordGenerated'', JBool generated)]) db1)))))))"

section \<open>Every handler writes through the repositories\<close>

lemma store_steps_directory: "directory_step db db' \<Longrightarrow> store_step\<^sup>*\<^sup>* db db'"
  by (blast intro: store_step.Directory)

lemma directory_writes [api_steps]:
  "Credentials_Create now newID c db = Inr (c', db') \<Longrightarrow> store_step\<^sup>*\<^sup>* db db'"
  "Credentials_Update now c db = Inr db' \<Longrightarrow> store_step\<^sup>*\<^sup>* db db'"
  "Credentials_Delete i db = Inr db' \<Longrightarrow> store_step\<^sup>*\<^sup>* db db'"
  "Mailboxes_Create now newID m db = Inr (m', db') \<Longrightarrow> store_step\<^sup>*\<^sup>* db db'"
  "Mailboxes_Update now m db = Inr db' \<Longrightarrow> store_step\<^sup>*\<^sup>* db db'"
  "Mailboxes_Delete i db = Inr db' \<Longrightarrow> store_step\<^sup>*\<^sup>* db db'"
  "Accounts_Create now newID a db = Inr (a', db') \<Longrightarrow> store_step\<^sup>*\<^sup>* db db'"
  "Accounts_Update now a db = Inr db' \<Longrightarrow> store_step\<^sup>*\<^sup>* db db'"
  "Accounts_Delete i db = Inr db' \<Longrightarrow> store_step\<^sup>*\<^sup>* db db'"
  "SetMailboxes i is db = Inr db' \<Longrightarrow> store_step\<^sup>*\<^sup>* db db'"
  "SetAllowedSenders now i ids ps db = Inr db' \<Longrightarrow> store_step\<^sup>*\<^sup>* db db'"
  by (blast intro: store_steps_directory directory_step.intros)+

lemma applyAccountLinks_steps: "applyAccountLinks tk i req db = (e, db') \<Longrightarrow> store_step\<^sup>*\<^sup>* db db'"
  by (auto simp: applyAccountLinks_def split: option.splits sum.splits intro: directory_writes rtranclp_trans)

lemma Accounts_Create_links_steps:
  "Accounts_Create now newID a db = Inr (a', db1) \<Longrightarrow> applyAccountLinks tk i req db1 = (e, db2) \<Longrightarrow> store_step\<^sup>*\<^sup>* db db2"
  "Accounts_Update now a db = Inr db1 \<Longrightarrow> applyAccountLinks tk i req db1 = (e, db2) \<Longrightarrow> store_step\<^sup>*\<^sup>* db db2"
  by (blast intro: directory_writes applyAccountLinks_steps rtranclp_trans)+

lemma reads_step:
  "api_step st (snd (handleListCredentials sv tk r auth st))" "api_step st (snd (handleGetCredential sv tk r auth st))"
  "api_step st (snd (handleCredentialSetup sv tk r auth st))" "api_step st (snd (handleListMailboxes sv tk r auth st))"
  "api_step st (snd (handleGetMailbox sv tk r auth st))" "api_step st (snd (handleMailboxDiagnostics sv tk r auth st))"
  "api_step st (snd (handleListAccounts sv tk r auth st))" "api_step st (snd (handleGetAccount sv tk r auth st))"
  by (simp_all add: on_db_def api_step_def case_prod_beta handleListCredentials_def handleGetCredential_def handleCredentialSetup_def
      handleListMailboxes_def handleGetMailbox_def handleMailboxDiagnostics_def handleListAccounts_def handleGetAccount_def Let_def
      split: sum.split)

lemma handleCreateCredential_step: "api_step st (snd (handleCreateCredential sv tk r auth st))"
  unfolding handleCreateCredential_def
  by (rule on_db_step) (auto simp: Let_def split: option.split sum.split intro: api_steps)

lemma handleUpdateCredential_step: "api_step st (snd (handleUpdateCredential sv tk r auth st))"
  by (auto simp: handleUpdateCredential_def Let_def api_step_def forget_def split: option.split sum.split intro: api_steps)

lemma handleDeleteCredential_step: "api_step st (snd (handleDeleteCredential sv tk r auth st))"
  by (auto simp: handleDeleteCredential_def Let_def api_step_def forget_def split: option.split sum.split intro: api_steps)

lemma handleCreateMailbox_step: "api_step st (snd (handleCreateMailbox sv tk r auth st))"
  unfolding handleCreateMailbox_def
  by (rule on_db_step) (auto simp: Let_def split: option.split sum.split intro: api_steps)

lemma handleUpdateMailbox_step: "api_step st (snd (handleUpdateMailbox sv tk r auth st))"
  unfolding handleUpdateMailbox_def
  by (rule on_db_step) (auto simp: Let_def split: option.split sum.split intro: api_steps)

lemma handleDeleteMailbox_step: "api_step st (snd (handleDeleteMailbox sv tk r auth st))"
  unfolding handleDeleteMailbox_def
  by (rule on_db_step) (auto simp: Let_def split: option.split sum.split intro: api_steps)

lemma handleTestMailbox_step: "api_step st (snd (handleTestMailbox sv tk r auth st))"
  by (auto simp: handleTestMailbox_def Let_def api_step_def case_prod_beta split: option.split sum.split intro: api_steps)

lemma fresh_diagnostic_message: "fresh_submission (diagnostic_message i a f t mid b)"
  by (simp add: fresh_submission_def diagnostic_message_def)

lemma handleSendMailboxTest_step: "api_step st (snd (handleSendMailboxTest sv tk r auth st))"
  unfolding handleSendMailboxTest_def
  by (rule on_db_step)
    (auto simp: Let_def split: option.split sum.split
      intro: r_into_rtranclp store_step.Diagnostic[OF fresh_diagnostic_message])

lemma handleCreateAccount_step: "api_step st (snd (handleCreateAccount sv tk r auth st))"
  unfolding handleCreateAccount_def
  by (rule on_db_step)
    (auto simp: Let_def split: option.split sum.split prod.split intro: Accounts_Create_links_steps intro!: store_steps_audit)

lemma handleUpdateAccount_step: "api_step st (snd (handleUpdateAccount sv tk r auth st))"
  unfolding handleUpdateAccount_def
  by (rule on_db_step)
    (auto simp: Let_def split: option.split sum.split prod.split intro: Accounts_Create_links_steps intro!: store_steps_audit)

lemma handleDeleteAccount_step: "api_step st (snd (handleDeleteAccount sv tk r auth st))"
  unfolding handleDeleteAccount_def
  by (rule on_db_step) (auto simp: Let_def split: option.split sum.split intro: api_steps)

lemma handleResetAccountPassword_step: "api_step st (snd (handleResetAccountPassword sv tk r auth st))"
  unfolding handleResetAccountPassword_def
  by (rule on_db_step) (auto simp: Let_def split: option.split sum.split prod.split intro: api_steps)

lemmas directory_handlers_step = reads_step handleCreateCredential_step handleUpdateCredential_step handleDeleteCredential_step
  handleCreateMailbox_step handleUpdateMailbox_step handleDeleteMailbox_step handleTestMailbox_step handleSendMailboxTest_step
  handleCreateAccount_step handleUpdateAccount_step handleDeleteAccount_step handleResetAccountPassword_step

end
