(* ===== verification/ApiServer.thy ===== *)
theory ApiServer
  imports ApiDirectory
begin

text \<open>
  The rest of the management interface: signing in and out (\<^verbatim>\<open>src/internal/adminapi/auth.go\<close>),
  administrators (\<^verbatim>\<open>users.go\<close>), the queue (\<^verbatim>\<open>messages.go\<close>), the audit log (\<^verbatim>\<open>audit.go\<close>),
  the dashboard (\<^verbatim>\<open>status.go\<close>), and the router with what each route requires (\<^verbatim>\<open>server.go\<close>).

  The router is a table from method and path to an endpoint, a table from endpoints to what they require,
  and the handler of each endpoint.  The lemmas show that the whole interface only writes through the
  repositories, so it keeps the integrity of the database; that apart from signing in and the bookkeeping
  of sessions, a request changes something only for a live session with a matching CSRF token whose role
  holds the permission of the route; and that no request takes away the last administrator.
\<close>

section \<open>Administrators\<close>

definition minPasswordLength :: nat where "minPasswordLength = 12"

definition toUserResponse :: "AdminUser \<Rightarrow> userResponse" where
  "toUserResponse u =
    \<lparr> ur_ID = usr_ID u, ur_Username = usr_Username u, ur_Email = usr_Email u, ur_DisplayName = usr_DisplayName u,
      ur_Role = usr_Role u, ur_Source = usr_Source u, ur_Disabled = usr_Disabled u,
      ur_HasPassword = (null_string (usr_PasswordHash u) \<noteq> ''''), ur_LockedUntil = usr_LockedUntil u,
      ur_LastLoginAt = usr_LastLoginAt u, ur_CreatedAt = usr_CreatedAt u, ur_UpdatedAt = usr_UpdatedAt u \<rparr>"

definition handleListUsers :: handler where
  "handleListUsers sv tk r auth = on_db (\<lambda>db.
    (let items = map toUserResponse (Users_List db) in (writeJSON 200 (UsersBody items (length items)), db)))"

definition handleGetUser :: handler where
  "handleGetUser sv tk r auth = on_db (\<lambda>db.
    (case Users_Get db (url_param r) of
       Inl e \<Rightarrow> (writeStoreError e, db)
     | Inr u \<Rightarrow> (writeJSON 200 (UserBody (toUserResponse u)), db)))"

record createUserRequest =
  uc_Username :: string
  uc_Email :: string
  uc_DisplayName :: string
  uc_Role :: string
  uc_Password :: string

definition decode_create_user :: "json option \<Rightarrow> createUserRequest option" where
  "decode_create_user = decodeJSON
    [(''username'', plain_string uc_Username_update), (''email'', plain_string uc_Email_update),
     (''displayName'', plain_string uc_DisplayName_update), (''role'', plain_string uc_Role_update),
     (''password'', plain_string uc_Password_update)]
    \<lparr> uc_Username = '''', uc_Email = '''', uc_DisplayName = '''', uc_Role = '''', uc_Password = '''' \<rparr>"

definition role_message :: string where "role_message = ''must be admin, operator or viewer''"
definition length_message :: string where "length_message = ''must be at least 12 characters''"

definition Role_string :: "Role \<Rightarrow> string" where
  "Role_string r = (case r of RoleAdmin \<Rightarrow> ''admin'' | RoleOperator \<Rightarrow> ''operator'' | RoleViewer \<Rightarrow> ''viewer'' | RoleUnknown s \<Rightarrow> s)"

definition new_user :: "createUserRequest \<Rightarrow> Role \<Rightarrow> string \<Rightarrow> AdminUser" where
  "new_user req role hash =
    \<lparr> usr_ID = '''', usr_Username = TrimSpace (uc_Username req), usr_Email = TrimSpace (uc_Email req),
      usr_DisplayName = TrimSpace (uc_DisplayName req), usr_PasswordHash = NullString hash, usr_Role = role,
      usr_Source = SourceLocal, usr_Subject = None, usr_TOTPSecretEnc = '''', usr_TOTPEnrolledAt = None, usr_Disabled = False,
      usr_FailedLogins = 0, usr_LockedUntil = None, usr_LastLoginAt = None, usr_CreatedAt = zero_time, usr_UpdatedAt = zero_time \<rparr>"

definition handleCreateUser :: handler where
  "handleCreateUser sv tk r auth = on_db (\<lambda>db.
    (case decode_create_user (rq_Body r) of
       None \<Rightarrow> (bad_body, db)
     | Some req \<Rightarrow>
         (let role = ParseRole (uc_Role req);
              invalid = field_if (TrimSpace (uc_Username req) = '''') ''username'' ''required'' @
                field_if (\<not> is_ok role) ''role'' role_message @
                field_if (length (uc_Password req) < minPasswordLength) ''password'' length_message
          in if invalid \<noteq> [] then (writeValidationError invalid, db)
             else (case hash_password (sv_env sv) tk (uc_Password req) of
                 Inl _ \<Rightarrow> (internal_error, db)
               | Inr hash \<Rightarrow>
                   (case Users_Create (tk_now tk) (tk_id tk ''user'') (new_user req (projr role) hash) db of
                      Inl e \<Rightarrow> (writeStoreError e, db)
                    | Inr (u, db1) \<Rightarrow>
                        (writeJSON 201 (UserBody (toUserResponse u)),
                         audit sv tk r (entry (au_User auth) ''user.create'' ''user'' (usr_ID u) (usr_Username u)
                           [(''role'', JStr (Role_string (projr role))), (''password'', JStr (uc_Password req))]) db1))))))"

record updateUserRequest =
  uu_Email :: "string option"
  uu_DisplayName :: "string option"
  uu_Role :: "string option"
  uu_Disabled :: "bool option"

definition decode_update_user :: "json option \<Rightarrow> updateUserRequest option" where
  "decode_update_user = decodeJSON
    [(''email'', pointer_string uu_Email_update), (''displayName'', pointer_string uu_DisplayName_update),
     (''role'', pointer_string uu_Role_update), (''disabled'', pointer_bool uu_Disabled_update)]
    \<lparr> uu_Email = None, uu_DisplayName = None, uu_Role = None, uu_Disabled = None \<rparr>"

definition losingAdmin :: "AdminUser \<Rightarrow> Role \<Rightarrow> bool" where
  "losingAdmin user previousRole =
    (if previousRole \<noteq> RoleAdmin then False else usr_Role user \<noteq> RoleAdmin \<or> usr_Disabled user)"

definition requireAnotherAdmin :: "DB \<Rightarrow> string \<Rightarrow> string option" where
  "requireAnotherAdmin db excludingID =
    (if list_ex (\<lambda>u. usr_ID u \<noteq> excludingID \<and> usr_Role u = RoleAdmin \<and> \<not> usr_Disabled u) (Users_List db) then None
     else Some ''this is the only administrator; promote someone else first'')"

definition edit_user :: "updateUserRequest \<Rightarrow> AdminUser \<Rightarrow> AdminUser" where
  "edit_user req u = u\<lparr>
     usr_Email := (case uu_Email req of None \<Rightarrow> usr_Email u | Some s \<Rightarrow> TrimSpace s),
     usr_DisplayName := (case uu_DisplayName req of None \<Rightarrow> usr_DisplayName u | Some s \<Rightarrow> TrimSpace s),
     usr_Role := (case uu_Role req of None \<Rightarrow> usr_Role u | Some s \<Rightarrow> Role_of s),
     usr_Disabled := (case uu_Disabled req of None \<Rightarrow> usr_Disabled u | Some b \<Rightarrow> b) \<rparr>"

definition user_changes :: "updateUserRequest \<Rightarrow> AdminUser \<Rightarrow> (string \<times> json) list" where
  "user_changes req u =
    change_some ''email'' (\<lambda>_. JStr (usr_Email u)) (uu_Email req) @
    change_some ''displayName'' (\<lambda>_. JStr (usr_DisplayName u)) (uu_DisplayName req) @
    change_some ''role'' (\<lambda>_. JStr (Role_string (usr_Role u))) (uu_Role req) @
    change_some ''disabled'' JBool (uu_Disabled req)"

definition handleUpdateUser :: handler where
  "handleUpdateUser sv tk r auth = on_db (\<lambda>db.
    (case decode_update_user (rq_Body r) of
       None \<Rightarrow> (bad_body, db)
     | Some req \<Rightarrow>
         (case Users_Get db (url_param r) of
            Inl e \<Rightarrow> (writeStoreError e, db)
          | Inr u0 \<Rightarrow>
              if (case uu_Role req of None \<Rightarrow> False | Some s \<Rightarrow> \<not> is_ok (ParseRole s))
              then (writeValidationError [(''role'', role_message)], db)
              else
                (let u = edit_user req u0; refused = requireAnotherAdmin db (usr_ID u)
                 in if losingAdmin u (usr_Role u0) \<and> refused \<noteq> None then (writeError 409 CodeConflict (the refused), db)
                    else (case Users_Update (tk_now tk) u db of
                        Inl e \<Rightarrow> (writeStoreError e, db)
                      | Inr db1 \<Rightarrow>
                          (let db2 = (if usr_Role u \<noteq> usr_Role u0 \<or> usr_Disabled u then RevokeAllForUser (usr_ID u) db1 else db1)
                           in (writeJSON 200 (UserBody (toUserResponse (u\<lparr> usr_UpdatedAt := tk_now tk \<rparr>))),
                               audit sv tk r (entry (au_User auth) ''user.update'' ''user'' (usr_ID u) (usr_Username u)
                                 (user_changes req u)) db2)))))))"

definition handleDeleteUser :: handler where
  "handleDeleteUser sv tk r auth = on_db (\<lambda>db.
    (case Users_Get db (url_param r) of
       Inl e \<Rightarrow> (writeStoreError e, db)
     | Inr u \<Rightarrow>
         if usr_ID u = usr_ID (au_User auth) then (writeError 409 CodeConflict ''you cannot delete your own account'', db)
         else if usr_Role u = RoleAdmin \<and> \<not> usr_Disabled u \<and> requireAnotherAdmin db (usr_ID u) \<noteq> None
         then (writeError 409 CodeConflict (the (requireAnotherAdmin db (usr_ID u))), db)
         else (case Users_Delete (url_param r) db of
             Inl e \<Rightarrow> (writeStoreError e, db)
           | Inr db1 \<Rightarrow>
               (writeJSON 204 NoBody,
                audit sv tk r (entry (au_User auth) ''user.delete'' ''user'' (usr_ID u) (usr_Username u) []) db1))))"

definition decode_password :: "string \<Rightarrow> json option \<Rightarrow> string option" where
  "decode_password name = decodeJSON [(name, plain_string (\<lambda>f. f))] ''''"

definition password_disabled :: response where
  "password_disabled = writeError 403 CodeForbidden ''password sign-in is disabled''"

definition handleSetUserPassword :: handler where
  "handleSetUserPassword sv tk r auth = on_db (\<lambda>db.
    (if sv_local sv = None then (password_disabled, db)
     else (case decode_password ''password'' (rq_Body r) of
         None \<Rightarrow> (bad_body, db)
       | Some password \<Rightarrow>
           if length password < minPasswordLength then (writeValidationError [(''password'', length_message)], db)
           else (case Users_Get db (url_param r) of
               Inl e \<Rightarrow> (writeStoreError e, db)
             | Inr u \<Rightarrow>
                 if usr_Source u \<noteq> SourceLocal
                 then (writeError 409 CodeConflict ''this account signs in through the identity provider and has no password here'', db)
                 else (case SetPassword (sv_env sv) tk u password db of
                     (Inl e, db1) \<Rightarrow> (writeAuthError e, db1)
                   | (Inr _, db1) \<Rightarrow>
                       (writeJSON 204 NoBody,
                        audit sv tk r (entry (au_User auth) ''user.set_password'' ''user'' (usr_ID u) (usr_Username u) []) db1))))))"

section \<open>Signing in and out\<close>

definition handleAuthConfig :: "Server \<Rightarrow> response" where
  "handleAuthConfig sv =
    writeJSON 200 (AuthConfigBody (sv_local sv \<noteq> None) (sv_oidc sv \<noteq> None)
      (if sv_oidc sv \<noteq> None then ''Single sign-on'' else ''''))"

definition session_response :: "AdminUser \<Rightarrow> string \<Rightarrow> instant \<Rightarrow> sessionResponse" where
  "session_response u csrf expires =
    \<lparr> sr_User = toUserResponse u, sr_Permissions = PermissionsFor (usr_Role u), sr_CSRFToken = csrf, sr_ExpiresAt = expires \<rparr>"

definition completeSignIn :: "Server \<Rightarrow> tick \<Rightarrow> http_request \<Rightarrow> AdminUser \<Rightarrow> string \<Rightarrow> DB \<Rightarrow> response \<times> DB" where
  "completeSignIn sv tk r user meth db =
    (case Issue (sv_sessions sv) (sv_env sv) tk user r db of
       Inl e \<Rightarrow> (writeStoreError e, db)
     | Inr (issued, db1) \<Rightarrow>
         ((writeJSON 200 (SessionBody (session_response user (is_CSRFToken issued) (ses_ExpiresAt (is_Session issued)))))\<lparr>
            rs_Cookies := [Cookie (sv_sessions sv) (is_Token issued) (ses_ExpiresAt (is_Session issued))] \<rparr>,
          audit sv tk r (entry user ''auth.sign_in'' ''user'' (usr_ID user) (usr_Username user) [(''method'', JStr meth)]) db1))"

definition recordFailedSignIn :: "Server \<Rightarrow> tick \<Rightarrow> http_request \<Rightarrow> string \<Rightarrow> auth_error \<Rightarrow> DB \<Rightarrow> DB" where
  "recordFailedSignIn sv tk r username cause db =
    audit sv tk r \<lparr> en_Actor = None, en_Action = ''auth.sign_in'', en_TargetType = ''user'', en_TargetID = '''',
      en_TargetName = username, en_Details = [(''reason'', JStr (wx_error_text (sv_web sv) cause))],
      en_Result = ResultFailure \<rparr> db"

record loginRequest =
  lq_Username :: string
  lq_Password :: string

definition decode_login :: "json option \<Rightarrow> loginRequest option" where
  "decode_login = decodeJSON [(''username'', plain_string lq_Username_update), (''password'', plain_string lq_Password_update)]
    \<lparr> lq_Username = '''', lq_Password = '''' \<rparr>"

definition login_failure :: "auth_error \<Rightarrow> response" where
  "login_failure e = (case e of
      ErrLockedOut \<Rightarrow> writeError 429 CodeForbidden ''too many failed attempts; try again later''
    | ErrLocalDisabled \<Rightarrow> password_disabled
    | ErrInvalidCredentials \<Rightarrow> writeError 401 CodeUnauthorized ''incorrect username or password''
    | _ \<Rightarrow> writeAuthError e)"

definition handleLogin :: "Server \<Rightarrow> tick \<Rightarrow> http_request \<Rightarrow> DB \<Rightarrow> response \<times> DB" where
  "handleLogin sv tk r db =
    (case sv_local sv of
       None \<Rightarrow> (password_disabled, db)
     | Some cfg \<Rightarrow>
         (case decode_login (rq_Body r) of
            None \<Rightarrow> (bad_body, db)
          | Some req \<Rightarrow>
              if lq_Username req = '''' \<or> lq_Password req = ''''
              then (writeValidationError [(''username'', ''required''), (''password'', ''required'')], db)
              else (case local_Authenticate cfg (sv_env sv) tk (lq_Username req) (lq_Password req) db of
                  (Inl e, db1) \<Rightarrow> (login_failure e, recordFailedSignIn sv tk r (lq_Username req) e db1)
                | (Inr user, db1) \<Rightarrow> completeSignIn sv tk r user ''password'' db1)))"

definition clear_session_cookie :: "Server \<Rightarrow> response \<Rightarrow> response" where
  "clear_session_cookie sv rs = rs\<lparr> rs_Cookies := [ClearCookie (sv_sessions sv)] \<rparr>"

definition handleLogout :: handler where
  "handleLogout sv tk r auth = on_db (\<lambda>db.
    (clear_session_cookie sv (writeJSON 204 NoBody),
     audit sv tk r (entry (au_User auth) ''auth.sign_out'' ''user'' (usr_ID (au_User auth)) (usr_Username (au_User auth)) [])
       (Revoke (ses_ID (au_Session auth)) db)))"

definition handleMe :: handler where
  "handleMe sv tk r auth = on_db (\<lambda>db.
    (writeJSON 200 (SessionBody (session_response (au_User auth) (ses_CSRFToken (au_Session auth)) (ses_ExpiresAt (au_Session auth)))),
     db))"

record changePasswordRequest =
  pq_CurrentPassword :: string
  pq_NewPassword :: string

definition decode_change_password :: "json option \<Rightarrow> changePasswordRequest option" where
  "decode_change_password = decodeJSON
    [(''currentPassword'', plain_string pq_CurrentPassword_update), (''newPassword'', plain_string pq_NewPassword_update)]
    \<lparr> pq_CurrentPassword = '''', pq_NewPassword = '''' \<rparr>"

definition handleChangeOwnPassword :: handler where
  "handleChangeOwnPassword sv tk r auth = on_db (\<lambda>db.
    (case sv_local sv of
       None \<Rightarrow> (password_disabled, db)
     | Some cfg \<Rightarrow>
         if usr_Source (au_User auth) \<noteq> SourceLocal
         then (writeError 403 CodeForbidden ''this account signs in through the identity provider; change the password there'', db)
         else (case decode_change_password (rq_Body r) of
             None \<Rightarrow> (bad_body, db)
           | Some req \<Rightarrow>
               if length (pq_NewPassword req) < minPasswordLength then (writeValidationError [(''newPassword'', length_message)], db)
               else (case local_Authenticate cfg (sv_env sv) tk (usr_Username (au_User auth)) (pq_CurrentPassword req) db of
                   (Inl _, db1) \<Rightarrow> (writeError 401 CodeUnauthorized ''the current password is incorrect'', db1)
                 | (Inr _, db1) \<Rightarrow>
                     (case SetPassword (sv_env sv) tk (au_User auth) (pq_NewPassword req) db1 of
                        (Inl e, db2) \<Rightarrow> (writeAuthError e, db2)
                      | (Inr _, db2) \<Rightarrow>
                          (clear_session_cookie sv (writeJSON 204 NoBody),
                           audit sv tk r (entry (au_User auth) ''user.change_password'' ''user'' (usr_ID (au_User auth))
                             (usr_Username (au_User auth)) []) db2))))))"

subsection \<open>Single sign-on\<close>

definition oidcStateCookie :: string where "oidcStateCookie = ''sap_oidc_state''"

definition encodeState :: "string \<Rightarrow> string" where "encodeState b = raw_encode url_alphabet b"
definition decodeState :: "string \<Rightarrow> string option" where "decodeState s = raw_decode url_alphabet False s"

definition redirect :: "string \<Rightarrow> response" where
  "redirect url = \<lparr> rs_Status = 302, rs_Headers = [(''Location'', url)], rs_Cookies = [], rs_Body = NoBody \<rparr>"

definition redirectToSignIn :: "string \<Rightarrow> response" where
  "redirectToSignIn reason = redirect (''/login?error='' @ reason)"

definition expiredStateCookie :: "bool \<Rightarrow> cookie" where
  "expiredStateCookie secure = (StateCookie oidcStateCookie '''' secure)\<lparr> ck_MaxAge := -1 \<rparr>"

definition not_configured :: response where
  "not_configured = writeError 404 CodeNotFound ''single sign-on is not configured''"

definition handleOIDCStart :: "Server \<Rightarrow> tick \<Rightarrow> response" where
  "handleOIDCStart sv tk =
    (if sv_oidc sv = None then not_configured
     else (let req = Start (sv_idp sv) tk
           in (redirect (ar_URL req))\<lparr> rs_Cookies :=
                [StateCookie oidcStateCookie (encodeState (wx_marshal_request (sv_web sv) req)) (sv_cookieSecure sv)] \<rparr>))"

definition pending_request :: "Server \<Rightarrow> string \<Rightarrow> AuthRequest option" where
  "pending_request sv val =
    (case decodeState val of None \<Rightarrow> None | Some decoded \<Rightarrow> wx_unmarshal_request (sv_web sv) decoded)"

definition sso_failure :: "auth_error \<Rightarrow> response" where
  "sso_failure e = (case e of
      ErrNoRole \<Rightarrow> redirectToSignIn ''sso_no_role''
    | ErrSignupDisabled \<Rightarrow> redirectToSignIn ''sso_unknown_user''
    | _ \<Rightarrow> redirectToSignIn ''sso_failed'')"

definition handleOIDCCallback :: "Server \<Rightarrow> tick \<Rightarrow> http_request \<Rightarrow> DB \<Rightarrow> response \<times> DB" where
  "handleOIDCCallback sv tk r db =
    (case sv_oidc sv of
       None \<Rightarrow> (not_configured, db)
     | Some oa \<Rightarrow>
         if query_get r ''error'' \<noteq> '''' then (redirectToSignIn ''sso_failed'', db)
         else (case request_cookie r oidcStateCookie of
             None \<Rightarrow> (redirectToSignIn ''sso_expired'', db)
           | Some val \<Rightarrow>
               (let once = (\<lambda>rs. rs\<lparr> rs_Cookies := expiredStateCookie (sv_cookieSecure sv) # rs_Cookies rs \<rparr>)
                in (case pending_request sv val of
                      None \<Rightarrow> (once (redirectToSignIn ''sso_expired''), db)
                    | Some pending \<Rightarrow>
                        (case Complete (sv_idp sv) (oa_cfg oa) tk (query_get r ''code'') pending (query_get r ''state'') db of
                           (Inl e, db1) \<Rightarrow> (once (sso_failure e), recordFailedSignIn sv tk r ''(single sign-on)'' e db1)
                         | (Inr user, db1) \<Rightarrow>
                             (case Issue (sv_sessions sv) (sv_env sv) tk user r db1 of
                                Inl e \<Rightarrow> (once (writeStoreError e), db1)
                              | Inr (issued, db2) \<Rightarrow>
                                  (once ((redirect ''/'')\<lparr> rs_Cookies :=
                                     [Cookie (sv_sessions sv) (is_Token issued) (ses_ExpiresAt (is_Session issued))] \<rparr>),
                                   audit sv tk r (entry user ''auth.sign_in'' ''user'' (usr_ID user) (usr_Username user)
                                     [(''method'', JStr ''oidc'')]) db2)))))))"

section \<open>The queue\<close>

definition toMessageResponse :: "Message \<Rightarrow> messageResponse" where
  "toMessageResponse m =
    \<lparr> me_SMTPAccountID = null_string (msg_SMTPAccountID m), me_MailboxID = null_string (msg_MailboxID m),
      me_Origin = msg_Origin m, me_ID = msg_ID m, me_AccountUsername = msg_AccountUsername m,
      me_MailboxAddress = msg_MailboxAddress m, me_EnvelopeFrom = msg_EnvelopeFrom m, me_HeaderFrom = msg_HeaderFrom m,
      me_Recipients = msg_Recipients m, me_RecipientCount = msg_RecipientCount m, me_SizeBytes = msg_SizeBytes m,
      me_Subject = msg_Subject m, me_MessageID = msg_MessageID m, me_Status = msg_Status m, me_Attempts = msg_Attempts m,
      me_NextAttemptAt = (if msg_Status m = StatusQueued \<or> msg_Status m = StatusDeferred then Some (msg_NextAttemptAt m) else None),
      me_LastError = msg_LastError m, me_LastErrorCode = msg_LastErrorCode m, me_LastErrorPermanent = msg_LastErrorPermanent m,
      me_ClientIP = msg_ClientIP m, me_ReceivedAt = msg_ReceivedAt m, me_SentAt = msg_SentAt m \<rparr>"

text \<open>A status this build does not know matches no row, as the unset one.\<close>

definition MessageStatus_of :: "string \<Rightarrow> MessageStatus" where
  "MessageStatus_of s =
    (if s = ''queued'' then StatusQueued else if s = ''sending'' then StatusSending else if s = ''sent'' then StatusSent
     else if s = ''deferred'' then StatusDeferred else if s = ''failed'' then StatusFailed
     else if s = ''held'' then StatusHeld else StatusUnset)"

definition MessageStatus_string :: "MessageStatus \<Rightarrow> string" where
  "MessageStatus_string s = (case s of StatusUnset \<Rightarrow> '''' | StatusQueued \<Rightarrow> ''queued'' | StatusSending \<Rightarrow> ''sending''
     | StatusSent \<Rightarrow> ''sent'' | StatusDeferred \<Rightarrow> ''deferred'' | StatusFailed \<Rightarrow> ''failed'' | StatusHeld \<Rightarrow> ''held'')"

definition or_zero_time :: "instant option \<Rightarrow> instant" where
  "or_zero_time t = (case t of None \<Rightarrow> zero_time | Some i \<Rightarrow> i)"

definition message_filter :: "Server \<Rightarrow> http_request \<Rightarrow> MessageFilter" where
  "message_filter sv r =
    \<lparr> mf_Status = map MessageStatus_of (queryList r ''status''), mf_MailboxID = query_get r ''mailboxId'',
      mf_AccountID = query_get r ''accountId'', mf_Search = query_get r ''search'',
      mf_Since = or_zero_time (queryTime (ax_parse_time (sv_env sv)) r ''since''),
      mf_Until = or_zero_time (queryTime (ax_parse_time (sv_env sv)) r ''until''),
      mf_Limit = queryInt r ''limit'' 50, mf_Offset = queryInt r ''offset'' 0 \<rparr>"

definition handleListMessages :: handler where
  "handleListMessages sv tk r auth = on_db (\<lambda>db.
    (let f = message_filter sv r
     in (writeJSON 200 (MessagesBody (map toMessageResponse (Messages_List (wx_like (sv_web sv)) marshalList db f))
           (Messages_Count (wx_like (sv_web sv)) marshalList db f)), db)))"

definition handleGetMessage :: handler where
  "handleGetMessage sv tk r auth = on_db (\<lambda>db.
    (case Messages_Get db (url_param r) of
       Inl e \<Rightarrow> (writeStoreError e, db)
     | Inr m \<Rightarrow> (writeJSON 200 (MessageBody (toMessageResponse m)), db)))"

definition handleGetMessageBody :: handler where
  "handleGetMessageBody sv tk r auth = on_db (\<lambda>db.
    (case Messages_Get db (url_param r) of
       Inl e \<Rightarrow> (writeStoreError e, db)
     | Inr m \<Rightarrow>
         (case Body db (url_param r) of
            Inl e \<Rightarrow> (writeStoreError e, db)
          | Inr body \<Rightarrow>
              (\<lparr> rs_Status = 200,
                 rs_Headers = [(''Content-Type'', ''message/rfc822''),
                   (''Content-Disposition'', ''attachment; filename='' @ dquote (msg_ID m @ ''.eml'')), (''Cache-Control'', ''no-store'')],
                 rs_Cookies = [], rs_Body = RawBody body \<rparr>,
               audit sv tk r (entry (au_User auth) ''message.read_body'' ''message'' (msg_ID m) (msg_MailboxAddress m)
                 [(''sizeBytes'', JInt (msg_SizeBytes m)), (''recipients'', JInt (msg_RecipientCount m))]) db))))"

definition queueAction :: "string \<Rightarrow> (string \<Rightarrow> instant \<Rightarrow> DB \<Rightarrow> DB store_result) \<Rightarrow> handler" where
  "queueAction action act sv tk r auth = on_db (\<lambda>db.
    (case Messages_Get db (url_param r) of
       Inl e \<Rightarrow> (writeStoreError e, db)
     | Inr m \<Rightarrow>
         (case act (url_param r) (tk_now tk) db of
            Inl e \<Rightarrow> (writeStoreError e, db)
          | Inr db1 \<Rightarrow>
              (writeJSON 204 NoBody,
               audit sv tk r (entry (au_User auth) action ''message'' (msg_ID m) (msg_MailboxAddress m)
                 [(''previousStatus'', JStr (MessageStatus_string (msg_Status m))), (''attempts'', JInt (msg_Attempts m))]) db1))))"

definition handleRetryMessage :: handler where
  "handleRetryMessage = queueAction ''message.retry'' Requeue"

definition handleHoldMessage :: handler where
  "handleHoldMessage = queueAction ''message.hold'' Hold"

definition handleDeleteMessage :: handler where
  "handleDeleteMessage = queueAction ''message.delete'' (\<lambda>i now. Messages_Delete i)"

section \<open>The audit log and the dashboard\<close>

definition handleListAudit :: handler where
  "handleListAudit sv tk r auth = on_db (\<lambda>db.
    (let f = \<lparr> af_ActorID = query_get r ''actorId'', af_Action = query_get r ''action'', af_TargetType = query_get r ''targetType'',
               af_TargetID = query_get r ''targetId'', af_Since = or_zero_time (queryTime (ax_parse_time (sv_env sv)) r ''since''),
               af_Until = or_zero_time (queryTime (ax_parse_time (sv_env sv)) r ''until''),
               af_Limit = queryInt r ''limit'' 100, af_Offset = queryInt r ''offset'' 0 \<rparr>
     in (writeJSON 200 (AuditBody (Audit_List db f) (Audit_Count db f)), db)))"

definition expiryWarningWindow :: duration where "expiryWarningWindow = 30 * 24 * hour"

definition expiring :: "instant \<Rightarrow> OAuthCredential \<Rightarrow> expiringCredential" where
  "expiring now c =
    (let t = (case cred_ExpiresAt c of None \<Rightarrow> zero_time | Some t \<Rightarrow> t)
     in \<lparr> ex_ID = cred_ID c, ex_Name = cred_Name c, ex_ExpiresAt = t, ex_ExpiresInDays = days_until now t \<rparr>)"

definition queue_by_status :: "DB \<Rightarrow> (MessageStatus \<times> nat) list" where
  "queue_by_status db =
    filter (\<lambda>(s, n). n \<noteq> 0) (map (\<lambda>s. (s, CountByStatus db s))
      [StatusQueued, StatusSending, StatusSent, StatusDeferred, StatusFailed, StatusHeld])"

definition handleStatus :: handler where
  "handleStatus sv tk r auth = on_db (\<lambda>db.
    (writeJSON 200 (StatusBody
      \<lparr> st_Version = wx_version (sv_web sv), st_QueueByStatus = queue_by_status db,
        st_Mailboxes = length (Mailboxes_List db), st_Accounts = length (Accounts_List db),
        st_Credentials = length (Credentials_List db),
        st_ExpiringCredentials = map (expiring (tk_now tk)) (ExpiringBefore db (tk_now tk + expiryWarningWindow)),
        st_RecentFailures = map toMessageResponse (Messages_List (wx_like (sv_web sv)) marshalList db
          \<lparr> mf_Status = [StatusFailed, StatusDeferred], mf_MailboxID = '''', mf_AccountID = '''', mf_Search = '''',
            mf_Since = zero_time, mf_Until = zero_time, mf_Limit = 10, mf_Offset = 0 \<rparr>),
        st_AuthFailureCount = 0 \<rparr>), db))"

section \<open>Routes\<close>

datatype endpoint =
    ELicenses | EHealthz | EReadyz | EMetrics
  | EAuthConfig | ELogin | EOIDCStart | EOIDCCallback | ELogout | EMe | EChangeOwnPassword
  | EStatus
  | EListCredentials | EGetCredential | ECredentialSetup | ECreateCredential | EUpdateCredential | EDeleteCredential
  | EListMailboxes | EGetMailbox | ECreateMailbox | EUpdateMailbox | EDeleteMailbox | EMailboxDiagnostics
  | ESendMailboxTest | ETestMailbox
  | EListAccounts | EGetAccount | ECreateAccount | EUpdateAccount | EDeleteAccount | EResetAccountPassword
  | EListMessages | EGetMessage | EGetMessageBody | ERetryMessage | EHoldMessage | EDeleteMessage
  | EListUsers | EGetUser | ECreateUser | EUpdateUser | EDeleteUser | ESetUserPassword
  | EListAudit

text \<open>The handlers mounted at a path below \<^verbatim>\<open>/api/v1\<close>, by method.  A collection answers with and without
  a trailing slash.\<close>

definition mounted :: "string \<Rightarrow> string list \<Rightarrow> (string \<times> endpoint) list" where
  "mounted collection rest =
    (if collection = ''auth'' then
       (if rest = [''config''] then [(''GET'', EAuthConfig)] else if rest = [''login''] then [(''POST'', ELogin)]
        else if rest = [''oidc'', ''start''] then [(''GET'', EOIDCStart)]
        else if rest = [''oidc'', ''callback''] then [(''GET'', EOIDCCallback)]
        else if rest = [''logout''] then [(''POST'', ELogout)] else if rest = [''me''] then [(''GET'', EMe)]
        else if rest = [''password''] then [(''POST'', EChangeOwnPassword)] else [])
     else if rest = [] \<or> rest = [''''] then
       (if collection = ''status'' then [(''GET'', EStatus)]
        else if collection = ''credentials'' then [(''GET'', EListCredentials), (''POST'', ECreateCredential)]
        else if collection = ''mailboxes'' then [(''GET'', EListMailboxes), (''POST'', ECreateMailbox)]
        else if collection = ''accounts'' then [(''GET'', EListAccounts), (''POST'', ECreateAccount)]
        else if collection = ''messages'' then [(''GET'', EListMessages)]
        else if collection = ''users'' then [(''GET'', EListUsers), (''POST'', ECreateUser)]
        else if collection = ''audit'' then [(''GET'', EListAudit)] else [])
     else (case rest of
         [i] \<Rightarrow>
           (if collection = ''credentials'' then [(''GET'', EGetCredential), (''PATCH'', EUpdateCredential), (''DELETE'', EDeleteCredential)]
            else if collection = ''mailboxes'' then [(''GET'', EGetMailbox), (''PATCH'', EUpdateMailbox), (''DELETE'', EDeleteMailbox)]
            else if collection = ''accounts'' then [(''GET'', EGetAccount), (''PATCH'', EUpdateAccount), (''DELETE'', EDeleteAccount)]
            else if collection = ''messages'' then [(''GET'', EGetMessage), (''DELETE'', EDeleteMessage)]
            else if collection = ''users'' then [(''GET'', EGetUser), (''PATCH'', EUpdateUser), (''DELETE'', EDeleteUser)] else [])
       | [i, sub] \<Rightarrow>
           (if collection = ''credentials'' \<and> sub = ''setup'' then [(''GET'', ECredentialSetup)]
            else if collection = ''mailboxes'' \<and> sub = ''diagnostics'' then [(''GET'', EMailboxDiagnostics)]
            else if collection = ''mailboxes'' \<and> sub = ''test-send'' then [(''POST'', ESendMailboxTest)]
            else if collection = ''mailboxes'' \<and> sub = ''test'' then [(''POST'', ETestMailbox)]
            else if collection = ''accounts'' \<and> sub = ''password'' then [(''POST'', EResetAccountPassword)]
            else if collection = ''messages'' \<and> sub = ''body'' then [(''GET'', EGetMessageBody)]
            else if collection = ''messages'' \<and> sub = ''retry'' then [(''POST'', ERetryMessage)]
            else if collection = ''messages'' \<and> sub = ''hold'' then [(''POST'', EHoldMessage)]
            else if collection = ''users'' \<and> sub = ''password'' then [(''POST'', ESetUserPassword)] else [])
       | _ \<Rightarrow> []))"

datatype access = Public | SignedIn | Needs Permission

definition access_of :: "endpoint \<Rightarrow> access" where
  "access_of e = (case e of
      ELicenses \<Rightarrow> Public | EHealthz \<Rightarrow> Public | EReadyz \<Rightarrow> Public | EMetrics \<Rightarrow> Public
    | EAuthConfig \<Rightarrow> Public | ELogin \<Rightarrow> Public | EOIDCStart \<Rightarrow> Public | EOIDCCallback \<Rightarrow> Public
    | ELogout \<Rightarrow> SignedIn | EMe \<Rightarrow> SignedIn | EChangeOwnPassword \<Rightarrow> SignedIn
    | EStatus \<Rightarrow> Needs PermViewStatus
    | EListCredentials \<Rightarrow> Needs PermViewConfig | EGetCredential \<Rightarrow> Needs PermViewConfig | ECredentialSetup \<Rightarrow> Needs PermViewConfig
    | ECreateCredential \<Rightarrow> Needs PermManageCredentials | EUpdateCredential \<Rightarrow> Needs PermManageCredentials
    | EDeleteCredential \<Rightarrow> Needs PermManageCredentials
    | EListMailboxes \<Rightarrow> Needs PermViewConfig | EGetMailbox \<Rightarrow> Needs PermViewConfig
    | ECreateMailbox \<Rightarrow> Needs PermManageMailboxes | EUpdateMailbox \<Rightarrow> Needs PermManageMailboxes
    | EDeleteMailbox \<Rightarrow> Needs PermManageMailboxes | EMailboxDiagnostics \<Rightarrow> Needs PermViewConfig
    | ESendMailboxTest \<Rightarrow> Needs PermRunDiagnostics | ETestMailbox \<Rightarrow> Needs PermRunDiagnostics
    | EListAccounts \<Rightarrow> Needs PermViewConfig | EGetAccount \<Rightarrow> Needs PermViewConfig
    | ECreateAccount \<Rightarrow> Needs PermManageAccounts | EUpdateAccount \<Rightarrow> Needs PermManageAccounts
    | EDeleteAccount \<Rightarrow> Needs PermManageAccounts | EResetAccountPassword \<Rightarrow> Needs PermManageAccounts
    | EListMessages \<Rightarrow> Needs PermViewStatus | EGetMessage \<Rightarrow> Needs PermViewStatus
    | EGetMessageBody \<Rightarrow> Needs PermReadMessageBody | ERetryMessage \<Rightarrow> Needs PermManageQueue
    | EHoldMessage \<Rightarrow> Needs PermManageQueue | EDeleteMessage \<Rightarrow> Needs PermManageQueue
    | EListUsers \<Rightarrow> Needs PermManageUsers | EGetUser \<Rightarrow> Needs PermManageUsers | ECreateUser \<Rightarrow> Needs PermManageUsers
    | EUpdateUser \<Rightarrow> Needs PermManageUsers | EDeleteUser \<Rightarrow> Needs PermManageUsers | ESetUserPassword \<Rightarrow> Needs PermManageUsers
    | EListAudit \<Rightarrow> Needs PermViewAudit)"

text \<open>The handlers behind \<^verbatim>\<open>requireSession\<close>.\<close>

definition private_handler :: "endpoint \<Rightarrow> handler" where
  "private_handler e = (case e of
      ELogout \<Rightarrow> handleLogout | EMe \<Rightarrow> handleMe | EChangeOwnPassword \<Rightarrow> handleChangeOwnPassword | EStatus \<Rightarrow> handleStatus
    | EListCredentials \<Rightarrow> handleListCredentials | EGetCredential \<Rightarrow> handleGetCredential | ECredentialSetup \<Rightarrow> handleCredentialSetup
    | ECreateCredential \<Rightarrow> handleCreateCredential | EUpdateCredential \<Rightarrow> handleUpdateCredential
    | EDeleteCredential \<Rightarrow> handleDeleteCredential
    | EListMailboxes \<Rightarrow> handleListMailboxes | EGetMailbox \<Rightarrow> handleGetMailbox | ECreateMailbox \<Rightarrow> handleCreateMailbox
    | EUpdateMailbox \<Rightarrow> handleUpdateMailbox | EDeleteMailbox \<Rightarrow> handleDeleteMailbox
    | EMailboxDiagnostics \<Rightarrow> handleMailboxDiagnostics | ESendMailboxTest \<Rightarrow> handleSendMailboxTest | ETestMailbox \<Rightarrow> handleTestMailbox
    | EListAccounts \<Rightarrow> handleListAccounts | EGetAccount \<Rightarrow> handleGetAccount | ECreateAccount \<Rightarrow> handleCreateAccount
    | EUpdateAccount \<Rightarrow> handleUpdateAccount | EDeleteAccount \<Rightarrow> handleDeleteAccount
    | EResetAccountPassword \<Rightarrow> handleResetAccountPassword
    | EListMessages \<Rightarrow> handleListMessages | EGetMessage \<Rightarrow> handleGetMessage | EGetMessageBody \<Rightarrow> handleGetMessageBody
    | ERetryMessage \<Rightarrow> handleRetryMessage | EHoldMessage \<Rightarrow> handleHoldMessage | EDeleteMessage \<Rightarrow> handleDeleteMessage
    | EListUsers \<Rightarrow> handleListUsers | EGetUser \<Rightarrow> handleGetUser | ECreateUser \<Rightarrow> handleCreateUser
    | EUpdateUser \<Rightarrow> handleUpdateUser | EDeleteUser \<Rightarrow> handleDeleteUser | ESetUserPassword \<Rightarrow> handleSetUserPassword
    | EListAudit \<Rightarrow> handleListAudit
    | _ \<Rightarrow> (\<lambda>sv tk r auth st. (internal_error, st)))"

definition handleHealthz :: response where
  "handleHealthz = writeJSON 200 (TextBody ''ok'')"

definition handleReadyz :: "Server \<Rightarrow> response" where
  "handleReadyz sv = (if wx_ping (sv_web sv) then writeJSON 200 (TextBody ''ok'') else writeJSON 503 (TextBody ''unavailable''))"

definition metricsHandler :: "Server \<Rightarrow> response" where
  "metricsHandler sv = (case wx_metrics (sv_web sv) of
      None \<Rightarrow> \<lparr> rs_Status = 404, rs_Headers = [], rs_Cookies = [], rs_Body = TextBody ''metrics are not enabled'' \<rparr>
    | Some text \<Rightarrow> \<lparr> rs_Status = 200, rs_Headers = [], rs_Cookies = [], rs_Body = TextBody text \<rparr>)"

definition public_handler :: "endpoint \<Rightarrow> Server \<Rightarrow> tick \<Rightarrow> http_request \<Rightarrow> api_state \<Rightarrow> response \<times> api_state" where
  "public_handler e sv tk r st = (case e of
      EHealthz \<Rightarrow> (handleHealthz, st)
    | EReadyz \<Rightarrow> (handleReadyz sv, st)
    | ELicenses \<Rightarrow> (\<lparr> rs_Status = 200, rs_Headers = [], rs_Cookies = [], rs_Body = TextBody (wx_licenses (sv_web sv)) \<rparr>, st)
    | EMetrics \<Rightarrow> (metricsHandler sv, st)
    | EAuthConfig \<Rightarrow> (handleAuthConfig sv, st)
    | ELogin \<Rightarrow> on_db (handleLogin sv tk r) st
    | EOIDCStart \<Rightarrow> (handleOIDCStart sv tk, st)
    | EOIDCCallback \<Rightarrow> on_db (handleOIDCCallback sv tk r) st
    | _ \<Rightarrow> (internal_error, st))"

definition dispatch :: "endpoint \<Rightarrow> Server \<Rightarrow> tick \<Rightarrow> http_request \<Rightarrow> api_state \<Rightarrow> response \<times> api_state" where
  "dispatch e sv tk r st = (case access_of e of
      Public \<Rightarrow> public_handler e sv tk r st
    | SignedIn \<Rightarrow> requireSession sv tk r (private_handler e sv tk r) st
    | Needs perm \<Rightarrow> requireSession sv tk r (require perm (private_handler e sv tk r)) st)"

text \<open>A path outside the interface is left to the embedded user interface, or is not found.\<close>

definition plain_not_found :: response where
  "plain_not_found = \<lparr> rs_Status = 404, rs_Headers = [], rs_Cookies = [], rs_Body = NoBody \<rparr>"

definition root_endpoint :: "Server \<Rightarrow> http_request \<Rightarrow> endpoint option" where
  "root_endpoint sv r =
    (if sv_metricsEnabled sv \<and> rq_Path r = sv_metricsPath sv then Some EMetrics
     else if rq_Method r \<noteq> ''GET'' then None
     else if rq_Path r = [''licenses''] then Some ELicenses
     else if rq_Path r = [''healthz''] then Some EHealthz
     else if rq_Path r = [''readyz''] then Some EReadyz else None)"

definition routes :: "Server \<Rightarrow> tick \<Rightarrow> http_request \<Rightarrow> api_state \<Rightarrow> response \<times> api_state" where
  "routes sv tk r st =
    (if take 2 (rq_Path r) = [''api'', ''v1''] then
       (let (rs, st') =
          (case drop 2 (rq_Path r) of
             [] \<Rightarrow> (writeError 404 CodeNotFound ''no such endpoint'', st)
           | collection # rest \<Rightarrow>
               (case mounted collection rest of
                  [] \<Rightarrow> (writeError 404 CodeNotFound ''no such endpoint'', st)
                | table \<Rightarrow>
                    (case map_of table (rq_Method r) of
                       None \<Rightarrow> (writeError 405 CodeBadRequest ''that method is not allowed here'', st)
                     | Some e \<Rightarrow> dispatch e sv tk r st)))
        in (noCache rs, st'))
     else (case root_endpoint sv r of
         Some e \<Rightarrow> dispatch e sv tk r st
       | None \<Rightarrow> (plain_not_found, st)))"

definition ServeHTTP :: "Server \<Rightarrow> tick \<Rightarrow> http_request \<Rightarrow> api_state \<Rightarrow> response \<times> api_state" where
  "ServeHTTP sv tk r st = (case routes sv tk r st of (rs, st') \<Rightarrow> (withRequestID tk (securityHeaders rs), st'))"

section \<open>The interface writes through the repositories\<close>

lemma user_writes [api_steps]:
  "Users_Create now newID u db = Inr (u', db') \<Longrightarrow> store_step\<^sup>*\<^sup>* db db'"
  "Users_Delete i db = Inr db' \<Longrightarrow> store_step\<^sup>*\<^sup>* db db'"
  by (blast intro: store_step.intros)+

lemma user_reads_step:
  "api_step st (snd (handleListUsers sv tk r auth st))" "api_step st (snd (handleGetUser sv tk r auth st))"
  "api_step st (snd (handleMe sv tk r auth st))" "api_step st (snd (handleListMessages sv tk r auth st))"
  "api_step st (snd (handleGetMessage sv tk r auth st))" "api_step st (snd (handleListAudit sv tk r auth st))"
  "api_step st (snd (handleStatus sv tk r auth st))"
  by (simp_all add: on_db_def api_step_def case_prod_beta handleListUsers_def handleGetUser_def handleMe_def handleListMessages_def
      handleGetMessage_def handleListAudit_def handleStatus_def Let_def split: sum.split)

lemma handleCreateUser_step: "api_step st (snd (handleCreateUser sv tk r auth st))"
  unfolding handleCreateUser_def
  by (rule on_db_step) (auto simp: Let_def split: option.split sum.split intro: api_steps)

lemma handleUpdateUser_step: "api_step st (snd (handleUpdateUser sv tk r auth st))"
proof -
  have u: "store_step\<^sup>*\<^sup>* db db1" "store_step\<^sup>*\<^sup>* db (RevokeAllForUser i db1)" if "Users_Update now u db = Inr db1" for now u db db1 i
  proof -
    have "store_step\<^sup>*\<^sup>* db db1" using that by (blast intro: UserUpdate)
    then show "store_step\<^sup>*\<^sup>* db db1" "store_step\<^sup>*\<^sup>* db (RevokeAllForUser i db1)"
      unfolding RevokeAllForUser_def by (blast intro: store_steps_trans SessionsOfUser)+
  qed
  show ?thesis
    unfolding handleUpdateUser_def
    by (rule on_db_step) (auto simp: Let_def split: option.split sum.split intro: u intro!: store_steps_audit)
qed

lemma handleDeleteUser_step: "api_step st (snd (handleDeleteUser sv tk r auth st))"
  unfolding handleDeleteUser_def
  by (rule on_db_step) (auto simp: Let_def split: option.split sum.split intro: api_steps)

lemma SetPassword_steps: "SetPassword ax tk u p db = (res, db') \<Longrightarrow> store_step\<^sup>*\<^sup>* db db'"
  using store_steps_SetPassword[of db ax tk u p] by simp

lemma local_Authenticate_steps: "local_Authenticate cfg ax tk n p db = (res, db') \<Longrightarrow> store_step\<^sup>*\<^sup>* db db'"
  using store_steps_local_Authenticate[of db cfg ax tk n p] by simp

lemma handleSetUserPassword_step: "api_step st (snd (handleSetUserPassword sv tk r auth st))"
  unfolding handleSetUserPassword_def
  by (rule on_db_step)
    (auto simp: Let_def split: option.split sum.split prod.split intro: SetPassword_steps intro!: store_steps_audit)

lemma handleChangeOwnPassword_step: "api_step st (snd (handleChangeOwnPassword sv tk r auth st))"
  unfolding handleChangeOwnPassword_def
  by (rule on_db_step)
    (auto simp: Let_def split: option.split sum.split prod.split intro: SetPassword_steps local_Authenticate_steps rtranclp_trans
      intro!: store_steps_audit)

lemma handleLogout_step: "api_step st (snd (handleLogout sv tk r auth st))"
  unfolding handleLogout_def Revoke_def
  by (rule on_db_step) (auto intro!: store_steps_audit intro: r_into_rtranclp SessionDelete)

lemma handleGetMessageBody_step: "api_step st (snd (handleGetMessageBody sv tk r auth st))"
  unfolding handleGetMessageBody_def
  by (rule on_db_step) (auto split: sum.split intro!: store_steps_audit)

text \<open>The actions of an operator on the queue are steps of the shared queue.\<close>

lemma queueAction_step:
  assumes "\<And>i now db db'. act i now db = Inr db' \<Longrightarrow> store_step\<^sup>*\<^sup>* db db'"
  shows "api_step st (snd (queueAction action act sv tk r auth st))"
  unfolding queueAction_def
  by (rule on_db_step) (auto split: sum.split intro: assms intro!: store_steps_audit)

lemma queue_writes:
  "Requeue i now db = Inr db' \<Longrightarrow> store_step\<^sup>*\<^sup>* db db'" "Hold i now db = Inr db' \<Longrightarrow> store_step\<^sup>*\<^sup>* db db'"
  "Messages_Delete i db = Inr db' \<Longrightarrow> store_step\<^sup>*\<^sup>* db db'"
proof -
  let ?s = "\<lparr> qs_db = db, qs_now = now, qs_inflight = [] \<rparr>"
  have step: "store_step\<^sup>*\<^sup>* db (qs_db s')" if "queue_step False ?s s'" for s'
    using directory_step.Queue[OF that] store_steps_directory by simp
  show "Requeue i now db = Inr db' \<Longrightarrow> store_step\<^sup>*\<^sup>* db db'"
    using step[OF queue_step.RequeueMsg[of False ?s i]] by (simp add: after_def)
  show "Hold i now db = Inr db' \<Longrightarrow> store_step\<^sup>*\<^sup>* db db'"
    using step[OF queue_step.HoldMsg[of False ?s i]] by (simp add: after_def)
  show "Messages_Delete i db = Inr db' \<Longrightarrow> store_step\<^sup>*\<^sup>* db db'"
    using step[OF queue_step.DeleteMsg[of False ?s i]] by (simp add: after_def)
qed

lemma message_actions_step:
  "api_step st (snd (handleRetryMessage sv tk r auth st))" "api_step st (snd (handleHoldMessage sv tk r auth st))"
  "api_step st (snd (handleDeleteMessage sv tk r auth st))"
  unfolding handleRetryMessage_def handleHoldMessage_def handleDeleteMessage_def
  by (rule queueAction_step, erule queue_writes)+

lemmas server_handlers_step = user_reads_step handleCreateUser_step handleUpdateUser_step handleDeleteUser_step
  handleSetUserPassword_step handleChangeOwnPassword_step handleLogout_step handleGetMessageBody_step message_actions_step

lemma private_handler_step: "api_step st (snd (private_handler e sv tk r auth st))"
  by (cases e) (simp_all add: private_handler_def directory_handlers_step server_handlers_step, simp_all add: api_step_def)

lemma Issue_steps: "Issue m ax tk u r db = Inr (s, db') \<Longrightarrow> store_step\<^sup>*\<^sup>* db db'"
  by (blast dest: store_steps_Issue)

lemma completeSignIn_steps: "store_step\<^sup>*\<^sup>* db (snd (completeSignIn sv tk r u meth db))"
  by (auto simp: completeSignIn_def split: sum.split intro: Issue_steps intro!: store_steps_audit)

lemma handleLogin_steps: "store_step\<^sup>*\<^sup>* db (snd (handleLogin sv tk r db))"
proof -
  have "store_step\<^sup>*\<^sup>* db (snd (completeSignIn sv tk r u meth db1))" if "local_Authenticate cfg ax tk n p db = (res, db1)"
    for cfg ax n p res db1 u meth
    using rtranclp_trans[OF local_Authenticate_steps[OF that] completeSignIn_steps] .
  then show ?thesis
    by (auto simp: handleLogin_def recordFailedSignIn_def split: option.split prod.split sum.split
        intro: local_Authenticate_steps intro!: store_steps_audit)
qed

lemma handleOIDCCallback_steps: "store_step\<^sup>*\<^sup>* db (snd (handleOIDCCallback sv tk r db))"
proof -
  have c: "store_step\<^sup>*\<^sup>* db db1" if "Complete ip cfg tk code req s db = (res, db1)" for ip cfg code req s res db1
    using store_steps_Complete[of db ip cfg tk code req s] that by simp
  then show ?thesis
    by (auto simp: handleOIDCCallback_def recordFailedSignIn_def Let_def split: option.split prod.split sum.split
        intro: rtranclp_trans[OF c Issue_steps] intro!: store_steps_audit)
qed

lemma dispatch_step: "api_step st (snd (dispatch e sv tk r st))"
proof -
  have "api_step st (snd (public_handler e sv tk r st))" for e
    by (cases e) (auto simp: public_handler_def api_step_def on_db_def case_prod_beta handleLogin_steps handleOIDCCallback_steps)
  moreover have "api_step st (snd (requireSession sv tk r (private_handler e sv tk r) st))"
    by (intro requireSession_step private_handler_step)
  moreover have "api_step st (snd (requireSession sv tk r (require p (private_handler e sv tk r)) st))" for p
    by (intro requireSession_step require_step private_handler_step)
  ultimately show ?thesis by (simp add: dispatch_def split: access.split)
qed

text \<open>The endpoint a request is routed to.\<close>

definition endpoint_of :: "Server \<Rightarrow> http_request \<Rightarrow> endpoint option" where
  "endpoint_of sv r =
    (if take 2 (rq_Path r) = [''api'', ''v1''] then
       (case drop 2 (rq_Path r) of [] \<Rightarrow> None | collection # rest \<Rightarrow> map_of (mounted collection rest) (rq_Method r))
     else root_endpoint sv r)"

lemma ServeHTTP_state:
  "snd (ServeHTTP sv tk r st) = (case endpoint_of sv r of None \<Rightarrow> st | Some e \<Rightarrow> snd (dispatch e sv tk r st))"
  by (auto simp: ServeHTTP_def routes_def endpoint_of_def case_prod_beta Let_def split: list.split option.split)

lemma ServeHTTP_step: "api_step st (snd (ServeHTTP sv tk r st))"
  unfolding ServeHTTP_state by (auto simp: dispatch_step split: option.split) (simp add: api_step_def)

section \<open>The tables\<close>

definition serve_all :: "Server \<Rightarrow> (tick \<times> http_request) list \<Rightarrow> api_state \<Rightarrow> api_state" where
  "serve_all sv rs st = fold (\<lambda>(tk, r) st. snd (ServeHTTP sv tk r st)) rs st"


section \<open>Who may do what\<close>

text \<open>The database apart from the sessions, whose times every request updates.\<close>

definition beyond_sessions :: "DB \<Rightarrow> DB" where
  "beyond_sessions db = db\<lparr> t_sessions := [] \<rparr>"

definition error_answer :: "response \<Rightarrow> bool" where
  "error_answer rs = (case rs_Body rs of APIError _ _ _ \<Rightarrow> True | _ \<Rightarrow> False)"

text \<open>A request allowed to use an endpoint: its cookie names a stored session that is neither expired nor
  idle, of a stored and enabled user whose role holds the permission of the endpoint, and it is safe or
  repeats the session's CSRF token.\<close>

definition request_authorised :: "Server \<Rightarrow> tick \<Rightarrow> http_request \<Rightarrow> endpoint \<Rightarrow> DB \<Rightarrow> Session \<Rightarrow> AdminUser \<Rightarrow> bool" where
  "request_authorised sv tk r e db s u =
    ((\<exists>token. request_cookie r (sc_CookieName (sv_sessions sv)) = Some token \<and> token \<noteq> '''' \<and>
       ses_TokenHash s = HashSessionToken (ax_sha256 (sv_env sv)) token) \<and>
     s \<in> set (t_sessions db) \<and> tk_now tk < ses_ExpiresAt s \<and>
     (0 < sc_IdleTimeout (sv_sessions sv) \<longrightarrow> tk_now tk - ses_LastSeenAt s \<le> sc_IdleTimeout (sv_sessions sv)) \<and>
     u \<in> set (t_users db) \<and> usr_ID u = ses_UserID s \<and> \<not> usr_Disabled u \<and>
     (isSafeMethod (rq_Method r) \<or> rq_CSRF r = ses_CSRFToken s) \<and>
     (case access_of e of Needs perm \<Rightarrow> Can (usr_Role u) perm | _ \<Rightarrow> True))"

lemma session_Authenticate_beyond:
  "session_Authenticate m ax tk r db = (res, db') \<Longrightarrow> beyond_sessions db' = beyond_sessions db"
  by (auto simp: session_Authenticate_def Lookup_def Touch_def Sessions_Delete_def beyond_sessions_def
      split: option.splits prod.splits sum.splits if_splits)

lemma error_answers [simp]:
  "error_answer (writeError s c m)" "error_answer (writeStoreError e)" "error_answer (writeAuthError ae)" "error_answer internal_error"
  by (simp_all add: error_answer_def writeError_def writeJSON_def writeStoreError_def writeAuthError_def internal_error_def
      split: store_error.split auth_error.split)

lemma error_answer_headers [simp]:
  "error_answer (noCache rs) = error_answer rs" "error_answer (securityHeaders rs) = error_answer rs"
  "error_answer (withRequestID tk rs) = error_answer rs"
  by (simp_all add: error_answer_def noCache_def securityHeaders_def withRequestID_def default_header_def set_header_def)

lemma ServeHTTP_answer:
  "endpoint_of sv r = Some e \<Longrightarrow> error_answer (fst (ServeHTTP sv tk r st)) = error_answer (fst (dispatch e sv tk r st))"
  by (auto simp: ServeHTTP_def routes_def endpoint_of_def case_prod_beta Let_def split: list.splits option.splits if_splits)

text \<open>Past the middleware.\<close>

lemma requireSession_passes:
  assumes "requireSession sv tk r next st = (rs, st')"
    and "beyond_sessions (ap_db st') \<noteq> beyond_sessions (ap_db st) \<or> ap_tokens st' \<noteq> ap_tokens st \<or> \<not> error_answer rs"
  obtains auth db where "session_Authenticate (sv_sessions sv) (sv_env sv) tk r (ap_db st) = (Inr auth, db)"
    and "CheckCSRF auth r = None" "next auth (st\<lparr> ap_db := db \<rparr>) = (rs, st')" "beyond_sessions db = beyond_sessions (ap_db st)"
  using assms session_Authenticate_beyond
  by (fastforce simp: requireSession_def split: prod.splits sum.splits option.splits if_splits)

text \<open>C4: Apart from signing in, every change beyond the bookkeeping of sessions, and every answer of a
  private endpoint that is not an error, is that of an authorised request.\<close>

theorem requests_authorised:
  assumes serve: "ServeHTTP sv tk r st = (rs, st')"
    and not_sign_in: "endpoint_of sv r \<notin> {Some ELogin, Some EOIDCCallback}"
    and effect: "beyond_sessions (ap_db st') \<noteq> beyond_sessions (ap_db st) \<or> ap_tokens st' \<noteq> ap_tokens st \<or>
      (\<exists>e. endpoint_of sv r = Some e \<and> access_of e \<noteq> Public \<and> \<not> error_answer rs)"
  shows "\<exists>e s u. endpoint_of sv r = Some e \<and> access_of e \<noteq> Public \<and> request_authorised sv tk r e (ap_db st) s u"
proof -
  have st': "st' = (case endpoint_of sv r of None \<Rightarrow> st | Some e \<Rightarrow> snd (dispatch e sv tk r st))"
    using ServeHTTP_state[of sv tk r st] serve by simp
  obtain e where e: "endpoint_of sv r = Some e" using effect st' by (cases "endpoint_of sv r") auto
  have rs: "error_answer rs = error_answer (fst (dispatch e sv tk r st))" using ServeHTTP_answer[OF e, of tk st] serve by simp
  have priv: "access_of e \<noteq> Public"
  proof
    assume p: "access_of e = Public"
    then have "snd (dispatch e sv tk r st) = st"
      using not_sign_in e by (cases e) (auto simp: dispatch_def public_handler_def access_of_def)
    then show False using effect e p st' by auto
  qed
  have eff: "beyond_sessions (ap_db st') \<noteq> beyond_sessions (ap_db st) \<or> ap_tokens st' \<noteq> ap_tokens st \<or>
      \<not> error_answer (fst (dispatch e sv tk r st))"
    using effect e rs by auto
  define inner where "inner = (case access_of e of Needs perm \<Rightarrow> require perm (private_handler e sv tk r) | _ \<Rightarrow> private_handler e sv tk r)"
  have "dispatch e sv tk r st = requireSession sv tk r inner st"
    using priv by (auto simp: dispatch_def inner_def split: access.split)
  then obtain auth db where s: "session_Authenticate (sv_sessions sv) (sv_env sv) tk r (ap_db st) = (Inr auth, db)"
    and c: "CheckCSRF auth r = None" and i: "inner auth (st\<lparr> ap_db := db \<rparr>) = (fst (dispatch e sv tk r st), st')"
    and b: "beyond_sessions db = beyond_sessions (ap_db st)"
    using requireSession_passes[of sv tk r inner st "fst (dispatch e sv tk r st)" st'] eff st' e by auto
  have perm: "case access_of e of Needs perm \<Rightarrow> Can (usr_Role (au_User auth)) perm | _ \<Rightarrow> True"
  proof (cases "access_of e")
    case (Needs perm)
    show ?thesis
    proof (rule ccontr)
      assume "\<not> ?thesis"
      then have "(writeError 403 CodeForbidden ''your role does not allow this'', st\<lparr> ap_db := db \<rparr>) = (fst (dispatch e sv tk r st), st')"
        using i Needs by (simp add: inner_def require_def)
      then have "error_answer (fst (dispatch e sv tk r st))" "st' = st\<lparr> ap_db := db \<rparr>"
        by (metis error_answers(1) fst_conv snd_conv)+
      then show False using eff b by auto
    qed
  qed simp_all
  have "isSafeMethod (rq_Method r) \<or> rq_CSRF r = ses_CSRFToken (au_Session auth)"
    using c by (auto simp: CheckCSRF_def ConstantTimeEqual_def split: if_splits)
  then have "request_authorised sv tk r e (ap_db st) (au_Session auth) (au_User auth)"
    using perm s unfolding request_authorised_def by (auto elim!: session_Authenticate_sound)
  then show ?thesis using e priv by blast
qed

section \<open>The last administrator\<close>

definition has_admin :: "DB \<Rightarrow> bool" where
  "has_admin db = list_ex (\<lambda>u. usr_Role u = RoleAdmin \<and> \<not> usr_Disabled u) (t_users db)"

text \<open>What decides who administers: every user's identifier, role and disabled flag.\<close>

definition standing :: "DB \<Rightarrow> (string \<times> Role \<times> bool) list" where
  "standing db = map (\<lambda>u. (usr_ID u, usr_Role u, usr_Disabled u)) (t_users db)"

lemma has_admin_standing: "has_admin db \<longleftrightarrow> (\<exists>i. (i, RoleAdmin, False) \<in> set (standing db))"
  unfolding has_admin_def standing_def list_ex_iff by force

named_theorems keeps_users \<open>operations that leave the administrators alone\<close>

lemma users_audit [simp]: "t_users (audit sv tk r e db) = t_users db"
  by (auto simp: audit_def after_def Audit_Append_def insertAudit_def split: sum.splits if_splits)

lemma users_directory [keeps_users]:
  "Credentials_Create now newID c db = Inr (c', db') \<Longrightarrow> t_users db' = t_users db"
  "Credentials_Update now c db = Inr db' \<Longrightarrow> t_users db' = t_users db"
  "Credentials_Delete i db = Inr db' \<Longrightarrow> t_users db' = t_users db"
  "Mailboxes_Create now newID m db = Inr (m', db') \<Longrightarrow> t_users db' = t_users db"
  "Mailboxes_Update now m db = Inr db' \<Longrightarrow> t_users db' = t_users db"
  "Mailboxes_Delete i db = Inr db' \<Longrightarrow> t_users db' = t_users db"
  "Accounts_Create now newID a db = Inr (a', db') \<Longrightarrow> t_users db' = t_users db"
  "Accounts_Update now a db = Inr db' \<Longrightarrow> t_users db' = t_users db"
  "Accounts_Delete i db = Inr db' \<Longrightarrow> t_users db' = t_users db"
  by (auto simp: Credentials_Create_def Credentials_Update_def Credentials_Delete_def Mailboxes_Create_def Mailboxes_Update_def
      Mailboxes_Delete_def Accounts_Create_def Accounts_Update_def Accounts_Delete_def Let_def split: if_splits)

lemma users_links [keeps_users]: "applyAccountLinks tk i req db = (e, db') \<Longrightarrow> t_users db' = t_users db"
proof -
  have "SetMailboxes i is db = Inr db' \<Longrightarrow> t_users db' = t_users db" for "is" db db'
    unfolding SetMailboxes_def using insertLinks_keep by fastforce
  moreover have "SetAllowedSenders now i ids ps db = Inr db' \<Longrightarrow> t_users db' = t_users db" for now ids ps db db'
    unfolding SetAllowedSenders_def using insertSenders_keep by fastforce
  ultimately show "applyAccountLinks tk i req db = (e, db') \<Longrightarrow> t_users db' = t_users db"
    by (auto simp: applyAccountLinks_def split: option.splits sum.splits)
qed

lemma users_queue [keeps_users]:
  "Requeue i now db = Inr db' \<Longrightarrow> t_users db' = t_users db" "Hold i now db = Inr db' \<Longrightarrow> t_users db' = t_users db"
  "Messages_Delete i db = Inr db' \<Longrightarrow> t_users db' = t_users db"
  by (auto simp: Requeue_def Hold_def Messages_Delete_def Let_def requireAction_Inr_iff updateMessages_def deleteMessages_def)

lemma users_diagnostic [keeps_users]:
  "EnqueueDiagnostic now newID auditID actorID requestID mailboxID recipient m body db = Inr (i, c, db') \<Longrightarrow> t_users db' = t_users db"
  by (auto simp: EnqueueDiagnostic_def diagnosticTx_def enqueueTx_def insertAudit_def Let_def
      split: option.splits sum.splits prod.splits if_splits)

lemma directory_handlers_users:
  "t_users (ap_db (snd (handleCreateCredential sv tk r auth st))) = t_users (ap_db st)"
  "t_users (ap_db (snd (handleUpdateCredential sv tk r auth st))) = t_users (ap_db st)"
  "t_users (ap_db (snd (handleDeleteCredential sv tk r auth st))) = t_users (ap_db st)"
  "t_users (ap_db (snd (handleCreateMailbox sv tk r auth st))) = t_users (ap_db st)"
  "t_users (ap_db (snd (handleUpdateMailbox sv tk r auth st))) = t_users (ap_db st)"
  "t_users (ap_db (snd (handleDeleteMailbox sv tk r auth st))) = t_users (ap_db st)"
  "t_users (ap_db (snd (handleTestMailbox sv tk r auth st))) = t_users (ap_db st)"
  "t_users (ap_db (snd (handleSendMailboxTest sv tk r auth st))) = t_users (ap_db st)"
  "t_users (ap_db (snd (handleDeleteAccount sv tk r auth st))) = t_users (ap_db st)"
  "t_users (ap_db (snd (handleResetAccountPassword sv tk r auth st))) = t_users (ap_db st)"
  by (auto simp: on_db_def Let_def case_prod_beta forget_def handleCreateCredential_def handleUpdateCredential_def
      handleDeleteCredential_def handleCreateMailbox_def handleUpdateMailbox_def handleDeleteMailbox_def handleTestMailbox_def
      handleSendMailboxTest_def handleDeleteAccount_def handleResetAccountPassword_def
      split: option.split sum.split dest: keeps_users)

lemma account_handlers_users:
  "t_users (ap_db (snd (handleCreateAccount sv tk r auth st))) = t_users (ap_db st)"
  "t_users (ap_db (snd (handleUpdateAccount sv tk r auth st))) = t_users (ap_db st)"
  by (auto simp: on_db_def Let_def handleCreateAccount_def handleUpdateAccount_def
      split: option.split sum.split prod.split dest!: keeps_users)

definition triple :: "AdminUser \<Rightarrow> string \<times> Role \<times> bool" where
  "triple u = (usr_ID u, usr_Role u, usr_Disabled u)"

lemma standing_triple: "standing db = map triple (t_users db)"
  by (simp add: standing_def triple_def[abs_def])

lemma standing_update:
  "(\<And>r. p r \<Longrightarrow> triple (f r) = triple r) \<Longrightarrow> standing (db\<lparr> t_users := update_where p f (t_users db) \<rparr>) = standing db"
  by (simp add: standing_triple update_where_def)

lemma standing_users: "t_users db' = t_users db \<Longrightarrow> standing db' = standing db"
  by (simp add: standing_def)

lemma standing_login:
  "RecordFailedLogin now i th d db = Inr db' \<Longrightarrow> standing db' = standing db"
  "standing (RecordSuccessfulLogin now i db) = standing db"
  by (auto simp: RecordFailedLogin_def RecordSuccessfulLogin_def Let_def triple_def intro!: standing_update split: option.splits)

lemma standing_Users_Update:
  assumes "Users_Update now u db = Inr db'" "admin_ok db" "u0 \<in> set (t_users db)" "triple u = triple u0"
  shows "standing db' = standing db"
proof -
  have same: "triple r = triple u" if "r \<in> set (t_users db)" "usr_ID r = usr_ID u" for r
    using unique_keyD[of usr_ID "t_users db" r u0] assms(2-4) that by (auto simp: admin_ok_def triple_def)
  have "map triple (update_where (\<lambda>r. usr_ID r = usr_ID u) (\<lambda>r. u\<lparr> usr_CreatedAt := usr_CreatedAt r, usr_FailedLogins := usr_FailedLogins r,
      usr_LockedUntil := usr_LockedUntil r, usr_LastLoginAt := usr_LastLoginAt r, usr_UpdatedAt := now \<rparr>) (t_users db)) = map triple (t_users db)"
    using same by (auto simp: update_where_def triple_def)
  then show ?thesis using assms(1) by (auto simp: Users_Update_def standing_triple split: if_splits)
qed

lemma standing_local_Authenticate:
  assumes "local_Authenticate cfg ax tk n p db = (res, db')" "admin_ok db"
  shows "standing db' = standing db"
proof -
  have rehash: "standing (snd (local_rehash ax tk u p db)) = standing db" if "u \<in> set (t_users db)" for u
  proof (cases "hash_password ax tk p")
    case (Inr h)
    let ?u = "u\<lparr> usr_PasswordHash := NullString h, usr_UpdatedAt := tk_now tk \<rparr>"
    show ?thesis
      using standing_Users_Update[of "tk_now tk" ?u db _ u] assms(2) that Inr
      by (auto simp: local_rehash_def after_def triple_def Let_def split: sum.splits)
  qed (simp add: local_rehash_def)
  have failure: "standing (local_recordFailure cfg tk u db) = standing db" for u
    by (auto simp: local_recordFailure_def after_def split: sum.splits dest: standing_login(1))
  show ?thesis
    using assms(1) rehash failure
    by (auto simp: local_Authenticate_def Let_def case_prod_beta standing_login split: if_splits sum.splits
        dest: Users_GetByUsername_row)
qed

lemma standing_SetPassword:
  assumes "SetPassword ax tk u p db = (res, db')" "admin_ok db" "u0 \<in> set (t_users db)" "triple u = triple u0"
  shows "standing db' = standing db"
  using assms standing_Users_Update[of "tk_now tk" _ db _ u0]
  by (fastforce simp: SetPassword_def DeleteForUser_def standing_triple triple_def split: sum.splits)

lemma handleChangeOwnPassword_standing:
  assumes "admin_ok (ap_db st)" "au_User auth \<in> set (t_users (ap_db st))"
  shows "standing (ap_db (snd (handleChangeOwnPassword sv tk r auth st))) = standing (ap_db st)"
proof -
  have pw: "standing db2 = standing db1 \<and> standing db1 = standing (ap_db st)"
    if a: "local_Authenticate cfg ax tk n p (ap_db st) = (res, db1)" and s: "SetPassword ax tk (au_User auth) p' db1 = (res', db2)"
    for cfg ax n p res db1 p' res' db2
  proof -
    have ok: "admin_ok db1" using admin_ok_local_Authenticate[OF assms(1), of cfg ax tk n p] a by simp
    have st: "standing db1 = standing (ap_db st)" using standing_local_Authenticate[OF a assms(1)] .
    then have "triple (au_User auth) \<in> set (standing db1)" using assms(2) by (simp add: standing_triple)
    then obtain u0 where "u0 \<in> set (t_users db1)" "triple (au_User auth) = triple u0" by (auto simp: standing_triple)
    then show ?thesis using standing_SetPassword[OF s ok] st by blast
  qed
  show ?thesis
    using pw standing_local_Authenticate[OF _ assms(1)]
    by (auto simp: handleChangeOwnPassword_def on_db_def standing_users[OF users_audit]
        split: option.split sum.split prod.split)
qed

lemma handleSetUserPassword_standing:
  assumes "admin_ok (ap_db st)"
  shows "standing (ap_db (snd (handleSetUserPassword sv tk r auth st))) = standing (ap_db st)"
proof -
  have "standing db' = standing (ap_db st)"
    if "Users_Get (ap_db st) i = Inr u" "SetPassword ax tk u p (ap_db st) = (res, db')" for i u ax p res db'
    using standing_SetPassword[OF that(2) assms(1), of u] that(1)
    by (auto simp: Users_Get_def split: option.splits dest: select_one_Some_D)
  then show ?thesis
    by (auto simp: handleSetUserPassword_def on_db_def standing_users[OF users_audit] split: option.split sum.split prod.split)
qed

lemma other_handlers_users:
  "t_users (ap_db (snd (handleLogout sv tk r auth st))) = t_users (ap_db st)"
  "t_users (ap_db (snd (handleGetMessageBody sv tk r auth st))) = t_users (ap_db st)"
  "t_users (ap_db (snd (handleRetryMessage sv tk r auth st))) = t_users (ap_db st)"
  "t_users (ap_db (snd (handleHoldMessage sv tk r auth st))) = t_users (ap_db st)"
  "t_users (ap_db (snd (handleDeleteMessage sv tk r auth st))) = t_users (ap_db st)"
  by (auto simp: on_db_def handleLogout_def Revoke_def Sessions_Delete_def handleGetMessageBody_def handleRetryMessage_def
      handleHoldMessage_def handleDeleteMessage_def queueAction_def split: sum.split dest: keeps_users)

lemma reads_state:
  "e \<in> {EMe, EStatus, EListCredentials, EGetCredential, ECredentialSetup, EListMailboxes, EGetMailbox, EMailboxDiagnostics,
     EListAccounts, EGetAccount, EListMessages, EGetMessage, EListUsers, EGetUser, EListAudit} \<Longrightarrow>
   ap_db (snd (private_handler e sv tk r auth st)) = ap_db st"
  by (auto simp: private_handler_def on_db_def case_prod_beta Let_def handleMe_def handleStatus_def handleListCredentials_def
      handleGetCredential_def handleCredentialSetup_def handleListMailboxes_def handleGetMailbox_def handleMailboxDiagnostics_def
      handleListAccounts_def handleGetAccount_def handleListMessages_def handleGetMessage_def handleListUsers_def handleGetUser_def
      handleListAudit_def split: sum.split)

text \<open>The three handlers that change who administers.\<close>

lemma handleCreateUser_admin: "has_admin (ap_db st) \<Longrightarrow> has_admin (ap_db (snd (handleCreateUser sv tk r auth st)))"
  by (auto simp: handleCreateUser_def on_db_def Let_def has_admin_def Users_Create_def split: option.split sum.splits if_splits)

lemma another_admin:
  "requireAnotherAdmin db i = None \<longleftrightarrow> (\<exists>u\<in>set (t_users db). usr_ID u \<noteq> i \<and> usr_Role u = RoleAdmin \<and> \<not> usr_Disabled u)"
  by (auto simp: requireAnotherAdmin_def list_ex_iff Users_List_def)

lemma Users_Update_admin:
  assumes "Users_Update now u db = Inr db'"
    and "(\<exists>a\<in>set (t_users db). usr_ID a \<noteq> usr_ID u \<and> usr_Role a = RoleAdmin \<and> \<not> usr_Disabled a) \<or>
      usr_Role u = RoleAdmin \<and> \<not> usr_Disabled u"
  shows "has_admin db'"
proof -
  define f where "f r = u\<lparr> usr_CreatedAt := usr_CreatedAt r, usr_FailedLogins := usr_FailedLogins r, usr_LockedUntil := usr_LockedUntil r,
    usr_LastLoginAt := usr_LastLoginAt r, usr_UpdatedAt := now \<rparr>" for r :: AdminUser
  have f: "usr_Role (f r) = usr_Role u" "usr_Disabled (f r) = usr_Disabled u" for r by (simp_all add: f_def)
  obtain r where r: "r \<in> set (t_users db)" "usr_ID r = usr_ID u"
    and db': "t_users db' = update_where (\<lambda>r. usr_ID r = usr_ID u) f (t_users db)"
    using assms(1) by (auto simp: Users_Update_def list_ex_iff f_def[abs_def] split: if_splits)
  have "f r \<in> set (t_users db')" "\<And>a. a \<in> set (t_users db) \<Longrightarrow> usr_ID a \<noteq> usr_ID u \<Longrightarrow> a \<in> set (t_users db')"
    using r by (auto simp: db' set_update_where)
  then show ?thesis using assms(2) f unfolding has_admin_def list_ex_iff by metis
qed

lemma has_admin_users: "t_users db' = t_users db \<Longrightarrow> has_admin db' = has_admin db"
  by (simp add: has_admin_def)

lemma admin_elsewhere:
  assumes "has_admin db" "unique_key usr_ID (t_users db)" "u \<in> set (t_users db)" "\<not> (usr_Role u = RoleAdmin \<and> \<not> usr_Disabled u)"
  shows "\<exists>a\<in>set (t_users db). usr_ID a \<noteq> usr_ID u \<and> usr_Role a = RoleAdmin \<and> \<not> usr_Disabled a"
  using assms unique_keyD[OF assms(2) assms(3)] unfolding has_admin_def list_ex_iff by metis

lemma handleUpdateUser_admin:
  assumes "has_admin (ap_db st)" "admin_ok (ap_db st)"
  shows "has_admin (ap_db (snd (handleUpdateUser sv tk r auth st)))"
proof -
  let ?db = "ap_db st"
  have upd: "has_admin db1"
    if g: "Users_Get ?db i = Inr u0" and n: "\<not> (losingAdmin (edit_user req u0) (usr_Role u0) \<and> requireAnotherAdmin ?db (usr_ID (edit_user req u0)) \<noteq> None)"
      and u: "Users_Update now (edit_user req u0) ?db = Inr db1" for i u0 req now db1
  proof (rule Users_Update_admin[OF u])
    have u0: "u0 \<in> set (t_users ?db)" "usr_ID (edit_user req u0) = usr_ID u0"
      using g by (auto simp: Users_Get_def edit_user_def split: option.splits dest: select_one_Some_D)
    show "(\<exists>a\<in>set (t_users ?db). usr_ID a \<noteq> usr_ID (edit_user req u0) \<and> usr_Role a = RoleAdmin \<and> \<not> usr_Disabled a) \<or>
      usr_Role (edit_user req u0) = RoleAdmin \<and> \<not> usr_Disabled (edit_user req u0)"
      using n u0 admin_elsewhere[OF assms(1) _ u0(1)] assms(2)
      by (auto simp: losingAdmin_def another_admin admin_ok_def split: if_splits)
  qed
  have revoke: "t_users (RevokeAllForUser i db) = t_users db" for i db by (simp add: RevokeAllForUser_def DeleteForUser_def)
  show ?thesis
    using upd assms(1)
    by (auto simp: handleUpdateUser_def on_db_def Let_def has_admin_users[OF users_audit] has_admin_users[OF revoke]
        split: option.split sum.split)
qed

lemma handleDeleteUser_admin:
  assumes "has_admin (ap_db st)" "admin_ok (ap_db st)"
  shows "has_admin (ap_db (snd (handleDeleteUser sv tk r auth st)))"
proof -
  let ?db = "ap_db st"
  have del: "has_admin db1"
    if g: "Users_Get ?db i = Inr u" and d: "Users_Delete i ?db = Inr db1"
      and a: "usr_Role u = RoleAdmin \<and> \<not> usr_Disabled u \<longrightarrow> requireAnotherAdmin ?db (usr_ID u) = None" for i u db1
  proof -
    have u: "u \<in> set (t_users ?db)" "usr_ID u = i"
      using g by (auto simp: Users_Get_def split: option.splits dest: select_one_Some_D)
    then have "\<exists>a\<in>set (t_users ?db). usr_ID a \<noteq> i \<and> usr_Role a = RoleAdmin \<and> \<not> usr_Disabled a"
      using a admin_elsewhere[OF assms(1) _ u(1)] assms(2) by (auto simp: another_admin admin_ok_def)
    then show ?thesis
      using d by (auto simp: Users_Delete_def has_admin_def list_ex_iff set_delete_where split: if_splits)
  qed
  show ?thesis
    using del assms(1)
    by (auto simp: handleDeleteUser_def on_db_def has_admin_users[OF users_audit] split: sum.split)
qed

lemma private_handler_admin:
  assumes "has_admin (ap_db st)" "admin_ok (ap_db st)" "au_User auth \<in> set (t_users (ap_db st))"
  shows "has_admin (ap_db (snd (private_handler e sv tk r auth st)))"
proof -
  have users: "t_users (ap_db (snd (private_handler e sv tk r auth st))) = t_users (ap_db st) \<Longrightarrow> ?thesis"
    using assms(1) has_admin_users by blast
  have stand: "standing (ap_db (snd (private_handler e sv tk r auth st))) = standing (ap_db st) \<Longrightarrow> ?thesis"
    using assms(1) by (simp add: has_admin_standing)
  show ?thesis
  proof (cases e)
    case ECreateUser
    then show ?thesis using handleCreateUser_admin[OF assms(1)] by (simp add: private_handler_def)
  next
    case EUpdateUser
    then show ?thesis using handleUpdateUser_admin[OF assms(1,2)] by (simp add: private_handler_def)
  next
    case EDeleteUser
    then show ?thesis using handleDeleteUser_admin[OF assms(1,2)] by (simp add: private_handler_def)
  next
    case ESetUserPassword
    then show ?thesis using handleSetUserPassword_standing[OF assms(2)] stand by (simp add: private_handler_def)
  next
    case EChangeOwnPassword
    then show ?thesis using handleChangeOwnPassword_standing[OF assms(2,3)] stand by (simp add: private_handler_def)
  qed (rule users, simp add: reads_state; simp add: private_handler_def directory_handlers_users account_handlers_users other_handlers_users)+
qed

lemma handleLogin_admin:
  assumes "has_admin db" "admin_ok db"
  shows "has_admin (snd (handleLogin sv tk r db))"
proof -
  have a: "has_admin db1" if "local_Authenticate cfg ax tk n p db = (res, db1)" for cfg ax n p res db1
    using standing_local_Authenticate[OF that assms(2)] assms(1) by (simp add: has_admin_standing)
  have i: "t_users (snd (completeSignIn sv tk r u meth d)) = t_users d" for u meth d
    by (auto simp: completeSignIn_def Issue_def Sessions_Create_def Let_def split: sum.splits if_splits)
  show ?thesis
    using a assms(1)
    by (auto simp: handleLogin_def recordFailedSignIn_def has_admin_users[OF users_audit] has_admin_users[OF i]
        split: option.split prod.split sum.split)
qed

text \<open>C9: No request to the management interface takes away the last enabled administrator, except a single
  sign-on whose claims demote it.\<close>

theorem last_admin_kept:
  assumes "has_admin (ap_db st)" "admin_ok (ap_db st)" "endpoint_of sv r \<noteq> Some EOIDCCallback"
  shows "has_admin (ap_db (snd (ServeHTTP sv tk r st)))"
proof (cases "endpoint_of sv r")
  case (Some e)
  have session: "has_admin (ap_db (snd (requireSession sv tk r next st)))"
    if n: "\<And>auth st'. has_admin (ap_db st') \<Longrightarrow> admin_ok (ap_db st') \<Longrightarrow> au_User auth \<in> set (t_users (ap_db st')) \<Longrightarrow>
      has_admin (ap_db (snd (next auth st')))" for "next"
  proof (cases "session_Authenticate (sv_sessions sv) (sv_env sv) tk r (ap_db st)")
    case (Pair res db)
    have b: "t_users db = t_users (ap_db st)" using session_Authenticate_beyond[OF Pair] by (cases db; cases "ap_db st") (simp add: beyond_sessions_def)
    have ok: "admin_ok db"
      using Pair assms(2) by (auto simp: session_Authenticate_def Lookup_def split: option.splits prod.splits sum.splits if_splits
          intro: admin_ok_sessions)
    have h: "has_admin db" using assms(1) b has_admin_users by blast
    show ?thesis
    proof (cases res)
      case (Inl x)
      then show ?thesis using Pair h by (simp add: requireSession_def)
    next
      case (Inr auth)
      then have "au_User auth \<in> set (t_users db)" using Pair b by (auto elim: session_Authenticate_sound)
      then show ?thesis using Pair Inr h ok n[of "st\<lparr> ap_db := db \<rparr>" auth] by (simp add: requireSession_def split: option.split)
    qed
  qed
  have "has_admin (ap_db (snd (dispatch e sv tk r st)))"
  proof (cases "access_of e")
    case Public
    then show ?thesis using assms Some handleLogin_admin[OF assms(1,2)]
      by (cases e) (simp_all add: dispatch_def public_handler_def access_of_def on_db_def case_prod_beta)
  next
    case SignedIn
    then show ?thesis by (simp add: dispatch_def session private_handler_admin)
  next
    case (Needs perm)
    then show ?thesis by (simp add: dispatch_def session require_def private_handler_admin)
  qed
  then show ?thesis by (simp add: ServeHTTP_state Some)
qed (simp add: ServeHTTP_state assms(1))

section \<open>Witnesses\<close>

definition sample_web :: web_env where
  "sample_web = \<lparr> wx_like = (\<lambda>_ _. True), wx_uuid = Some, wx_clean_url = (\<lambda>s. s), wx_show_address = (\<lambda>s. s),
     wx_rfc1123 = (\<lambda>_. ''now''), wx_error_text = (\<lambda>_. ''error''), wx_unmarshal_request = (\<lambda>_. None), wx_marshal_request = (\<lambda>_. ''''),
     wx_ping = True, wx_version = ''1'', wx_metrics = None, wx_licenses = '''' \<rparr>"

definition sample_api :: Server where
  "sample_api = \<lparr> sv_env = sample_admin_env, sv_web = sample_web, sv_msal = sample_msal, sv_idp = sample_idp [],
     sv_keyring = Some (sample_keyring ''k1''),
     sv_sessions = \<lparr> sc_CookieName = ''sap_session'', sc_Lifetime = 100, sc_IdleTimeout = 50, sc_Secure = True, sc_Path = ''/'' \<rparr>,
     sv_local = Some sample_lockout, sv_oidc = None, sv_smtpEndpoint = '''', sv_graphEndpoint = '''', sv_smtpScope = ''scope'',
     sv_graphScope = '''', sv_trustedProxies = [], sv_cookieSecure = True, sv_serveUI = False, sv_metricsEnabled = False,
     sv_metricsPath = [''metrics''] \<rparr>"

definition sample_session :: Session where
  "sample_session = \<lparr> ses_ID = ''s'', ses_UserID = ''root'', ses_TokenHash = HashSessionToken (ax_sha256 sample_admin_env) ''token'',
     ses_CSRFToken = ''csrf'', ses_IP = '''', ses_UserAgent = '''', ses_CreatedAt = 0, ses_LastSeenAt = 0, ses_ExpiresAt = 90 \<rparr>"

definition sample_state :: api_state where
  "sample_state = \<lparr> ap_db = sample_admin_db\<lparr> t_sessions := [sample_session] \<rparr>, ap_tokens = None \<rparr>"

definition sample_call :: "string \<Rightarrow> string list \<Rightarrow> json option \<Rightarrow> http_request" where
  "sample_call meth path body = \<lparr> rq_Method = meth, rq_Path = [''api'', ''v1''] @ path, rq_Query = [],
     rq_Cookies = [(''sap_session'', ''token'')], rq_CSRF = ''csrf'', rq_ForwardedFor = '''', rq_RemoteAddr = '''', rq_UserAgent = '''',
     rq_Body = body \<rparr>"

definition sample_serve :: "http_request \<Rightarrow> api_state \<Rightarrow> response \<times> api_state" where
  "sample_serve r = ServeHTTP sample_api (sample_tick 10) r"

text \<open>An administrator deletes an operator.\<close>

theorem requests_authorised_witness:
  "\<exists>s u. t_users (ap_db (snd (sample_serve (sample_call ''DELETE'' [''users'', ''op''] None) sample_state))) \<noteq> t_users (ap_db sample_state) \<and>
     request_authorised sample_api (sample_tick 10) (sample_call ''DELETE'' [''users'', ''op''] None) EDeleteUser (ap_db sample_state) s u"
proof -
  let ?r = "sample_call ''DELETE'' [''users'', ''op''] None"
  obtain rs st' where serve: "ServeHTTP sample_api (sample_tick 10) ?r sample_state = (rs, st')" by fastforce
  have e: "endpoint_of sample_api ?r = Some EDeleteUser" by code_simp
  have "length (t_users (ap_db (snd (sample_serve ?r sample_state)))) = 1" by code_simp
  moreover have "length (t_users (ap_db sample_state)) = 2" by code_simp
  ultimately have change: "t_users (ap_db st') \<noteq> t_users (ap_db sample_state)" using serve by (auto simp: sample_serve_def)
  then have "beyond_sessions (ap_db st') \<noteq> beyond_sessions (ap_db sample_state)"
    by (metis DB.select_convs(8) DB.surjective DB.update_convs(9) beyond_sessions_def)
  then show ?thesis using requests_authorised[OF serve] e change serve by (auto simp: sample_serve_def)
qed

text \<open>The only administrator cannot be demoted.\<close>

theorem last_admin_kept_witness:
  "rs_Status (fst (sample_serve (sample_call ''PATCH'' [''users'', ''root''] (Some (JObj [(''role'', JStr ''viewer'')]))) sample_state)) = 409 \<and>
   has_admin (ap_db (snd (sample_serve (sample_call ''PATCH'' [''users'', ''root''] (Some (JObj [(''role'', JStr ''viewer'')]))) sample_state)))"
proof -
  let ?r = "sample_call ''PATCH'' [''users'', ''root''] (Some (JObj [(''role'', JStr ''viewer'')]))"
  have "has_admin (ap_db sample_state)" by code_simp
  moreover have "admin_ok (ap_db sample_state)"
    by (simp add: sample_state_def sample_admin_db_def sample_admin_def sample_session_def empty_db_def admin_ok_def subjects_unique_def
        user_subject_def user_check_def unique_key_def keys_of_def opt_keys_def)
  moreover have "endpoint_of sample_api ?r = Some EUpdateUser" by code_simp
  moreover have "rs_Status (fst (sample_serve ?r sample_state)) = 409" by code_simp
  ultimately show ?thesis using last_admin_kept[of sample_state sample_api ?r "sample_tick 10"] by (simp add: sample_serve_def)
qed


end
