(* ===== verification/ApiManaged.thy ===== *)
theory ApiManaged
  imports ApiServer
begin

text \<open>
  Rows declared in the bootstrap file are read-only in the management interface: the checks of
  \<^verbatim>\<open>handleUpdateCredential\<close>, \<^verbatim>\<open>handleDeleteMailbox\<close> and their likes
  (\<^verbatim>\<open>src/internal/adminapi\<close>) keep them, whatever the request.
\<close>

section \<open>What the bootstrap file declares\<close>

definition directory_of :: "DB \<Rightarrow> OAuthCredential list \<times> Mailbox list \<times> SMTPAccount list" where
  "directory_of db = (t_credentials db, t_mailboxes db, t_accounts db)"

text \<open>The declared rows.  Of an account, the password can be reset and the default mailbox goes with a
  deleted mailbox.\<close>

definition declared_account :: "SMTPAccount \<Rightarrow> SMTPAccount" where
  "declared_account a = a\<lparr> acc_PasswordHash := '''', acc_DefaultMailboxID := None, acc_UpdatedAt := 0 \<rparr>"

definition declared :: "DB \<Rightarrow> OAuthCredential list \<times> Mailbox list \<times> SMTPAccount list" where
  "declared db =
    (filter (\<lambda>c. cred_ManagedBy c = ManagedByBootstrap) (t_credentials db),
     filter (\<lambda>m. mb_ManagedBy m = ManagedByBootstrap) (t_mailboxes db),
     map declared_account (filter (\<lambda>a. acc_ManagedBy a = ManagedByBootstrap) (t_accounts db)))"

lemma declared_same: "directory_of db' = directory_of db \<Longrightarrow> declared db' = declared db"
  by (simp add: directory_of_def declared_def)

lemma filter_update: "(\<And>r. r \<in> set rows \<Longrightarrow> q r \<Longrightarrow> \<not> p r \<and> \<not> p (f r)) \<Longrightarrow> filter p (update_where q f rows) = filter p rows"
  by (induction rows) (auto simp: update_where_def)

lemma filter_delete: "(\<And>r. r \<in> set rows \<Longrightarrow> q r \<Longrightarrow> \<not> p r) \<Longrightarrow> filter p (delete_where q rows) = filter p rows"
  by (induction rows) (auto simp: delete_where_def)

lemma map_filter_update:
  "(\<And>r. r \<in> set rows \<Longrightarrow> q r \<Longrightarrow> p (f r) = p r \<and> d (f r) = d r) \<Longrightarrow>
   map d (filter p (update_where q f rows)) = map d (filter p rows)"
  by (induction rows) (simp_all add: update_where_def)

lemma declared_create:
  "Credentials_Create now newID c db = Inr (c', db') \<Longrightarrow> cred_ManagedBy c \<noteq> ManagedByBootstrap \<Longrightarrow> declared db' = declared db"
  "Mailboxes_Create now newID m db = Inr (m', db') \<Longrightarrow> mb_ManagedBy m \<noteq> ManagedByBootstrap \<Longrightarrow> declared db' = declared db"
  "Accounts_Create now newID a db = Inr (a', db') \<Longrightarrow> acc_ManagedBy a \<noteq> ManagedByBootstrap \<Longrightarrow> declared db' = declared db"
  by (auto simp: Credentials_Create_def Mailboxes_Create_def Accounts_Create_def ensure_managed_def declared_def Let_def
      split: if_splits)

lemma Credentials_Get_row: "Credentials_Get db i = Inr c \<Longrightarrow> c \<in> set (t_credentials db) \<and> cred_ID c = i"
  by (auto simp: Credentials_Get_def split: option.splits dest: select_one_Some_D)

lemma Mailboxes_Get_row: "Mailboxes_Get db i = Inr m \<Longrightarrow> m \<in> set (t_mailboxes db) \<and> mb_ID m = i"
  by (auto simp: Mailboxes_Get_def split: option.splits dest: select_one_Some_D)

lemma Accounts_Get_row: "Accounts_Get db i = Inr a \<Longrightarrow> a \<in> set (t_accounts db) \<and> acc_ID a = i"
  by (auto simp: Accounts_Get_def split: option.splits dest: select_one_Some_D)

lemma declared_credential_write:
  assumes "directory_ok db" "Credentials_Get db i = Inr c" "cred_ManagedBy c \<noteq> ManagedByBootstrap"
  shows "Credentials_Update now c1 db = Inr db' \<Longrightarrow> cred_ID c1 = i \<Longrightarrow> cred_ManagedBy c1 = cred_ManagedBy c \<Longrightarrow> declared db' = declared db"
    and "Credentials_Delete i db = Inr db' \<Longrightarrow> declared db' = declared db"
proof -
  have row: "r = c" if "r \<in> set (t_credentials db)" "cred_ID r = i" for r
    using that assms(1) Credentials_Get_row[OF assms(2)] unique_keyD[of cred_ID "t_credentials db" r c]
    by (auto simp: directory_ok_def keys_ok_def)
  show "Credentials_Update now c1 db = Inr db' \<Longrightarrow> cred_ID c1 = i \<Longrightarrow> cred_ManagedBy c1 = cred_ManagedBy c \<Longrightarrow> declared db' = declared db"
    using row assms(3) by (auto simp: Credentials_Update_def declared_def intro!: filter_update split: if_splits)
  show "Credentials_Delete i db = Inr db' \<Longrightarrow> declared db' = declared db"
    using row assms(3) by (auto simp: Credentials_Delete_def declared_def intro!: filter_delete split: if_splits)
qed

lemma clear_default_mailbox:
  "map declared_account (filter (\<lambda>a. acc_ManagedBy a = ManagedByBootstrap)
     (update_where (\<lambda>a. acc_DefaultMailboxID a = Some i) (\<lambda>a. a\<lparr> acc_DefaultMailboxID := None \<rparr>) as)) =
   map declared_account (filter (\<lambda>a. acc_ManagedBy a = ManagedByBootstrap) as)"
  by (induction as) (simp_all add: update_where_def declared_account_def)

lemma declared_mailbox_write:
  assumes "directory_ok db" "Mailboxes_Get db i = Inr m" "mb_ManagedBy m \<noteq> ManagedByBootstrap"
  shows "Mailboxes_Update now m1 db = Inr db' \<Longrightarrow> mb_ID m1 = i \<Longrightarrow> mb_ManagedBy m1 = mb_ManagedBy m \<Longrightarrow> declared db' = declared db"
    and "Mailboxes_Delete i db = Inr db' \<Longrightarrow> declared db' = declared db"
proof -
  have row: "r = m" if "r \<in> set (t_mailboxes db)" "mb_ID r = i" for r
    using that assms(1) Mailboxes_Get_row[OF assms(2)] unique_keyD[of mb_ID "t_mailboxes db" r m]
    by (auto simp: directory_ok_def keys_ok_def)
  show "Mailboxes_Update now m1 db = Inr db' \<Longrightarrow> mb_ID m1 = i \<Longrightarrow> mb_ManagedBy m1 = mb_ManagedBy m \<Longrightarrow> declared db' = declared db"
    using row assms(3) by (auto simp: Mailboxes_Update_def declared_def intro!: filter_update split: if_splits)
  show "Mailboxes_Delete i db = Inr db' \<Longrightarrow> declared db' = declared db"
    using row assms(3) by (auto simp: Mailboxes_Delete_def declared_def clear_default_mailbox intro!: filter_delete split: if_splits)
qed

lemma declared_account_write:
  assumes "directory_ok db" "Accounts_Get db i = Inr a" "acc_ManagedBy a \<noteq> ManagedByBootstrap"
  shows "Accounts_Update now a1 db = Inr db' \<Longrightarrow> acc_ID a1 = i \<Longrightarrow> acc_ManagedBy a1 = acc_ManagedBy a \<Longrightarrow> declared db' = declared db"
    and "Accounts_Delete i db = Inr db' \<Longrightarrow> declared db' = declared db"
proof -
  have row: "r = a" if "r \<in> set (t_accounts db)" "acc_ID r = i" for r
    using that assms(1) Accounts_Get_row[OF assms(2)] unique_keyD[of acc_ID "t_accounts db" r a]
    by (auto simp: directory_ok_def keys_ok_def)
  show "Accounts_Update now a1 db = Inr db' \<Longrightarrow> acc_ID a1 = i \<Longrightarrow> acc_ManagedBy a1 = acc_ManagedBy a \<Longrightarrow> declared db' = declared db"
    using row assms(3) by (auto simp: Accounts_Update_def declared_def intro!: arg_cong[where f = "map declared_account"] filter_update
        split: if_splits)
  show "Accounts_Delete i db = Inr db' \<Longrightarrow> declared db' = declared db"
    using row assms(3) by (auto simp: Accounts_Delete_def declared_def intro!: arg_cong[where f = "map declared_account"] filter_delete
        split: if_splits)
qed

text \<open>A reset only replaces the password of the row it read.\<close>

lemma declared_password_reset:
  assumes "directory_ok db" "Accounts_Get db i = Inr a" "Accounts_Update now (a\<lparr> acc_PasswordHash := h \<rparr>) db = Inr db'"
  shows "declared db' = declared db"
proof -
  let ?f = "\<lambda>r. a\<lparr> acc_PasswordHash := h, acc_CreatedAt := acc_CreatedAt r, acc_LastUsedAt := acc_LastUsedAt r, acc_UpdatedAt := now \<rparr>"
  have a: "a \<in> set (t_accounts db)" "acc_ID a = i" using Accounts_Get_row[OF assms(2)] by auto
  have row: "r = a" if "r \<in> set (t_accounts db)" "acc_ID r = i" for r
    using that assms(1) a unique_keyD[of acc_ID "t_accounts db" r a] by (auto simp: directory_ok_def keys_ok_def)
  have "acc_ManagedBy (?f r) = acc_ManagedBy r \<and> declared_account (?f r) = declared_account r"
    if "r \<in> set (t_accounts db)" "acc_ID r = i" for r
    unfolding row[OF that] by (simp add: declared_account_def)
  then have *: "map declared_account (filter (\<lambda>a. acc_ManagedBy a = ManagedByBootstrap) (update_where (\<lambda>r. acc_ID r = i) ?f (t_accounts db))) =
    map declared_account (filter (\<lambda>a. acc_ManagedBy a = ManagedByBootstrap) (t_accounts db))"
    by (intro map_filter_update) auto
  have "t_credentials db' = t_credentials db" "t_mailboxes db' = t_mailboxes db"
    "t_accounts db' = update_where (\<lambda>r. acc_ID r = i) ?f (t_accounts db)"
    using assms(3) a(2) by (auto simp: Accounts_Update_def split: if_splits)
  then show ?thesis using * by (simp add: declared_def)
qed

text \<open>Everything else leaves the directory alone.\<close>

lemma directory_audit [simp]: "directory_of (audit sv tk r e db) = directory_of db"
  by (auto simp: audit_def after_def Audit_Append_def insertAudit_def directory_of_def split: sum.splits if_splits)

lemma declared_audit [simp]: "declared (audit sv tk r e db) = declared db"
  by (rule declared_same) simp

lemma declared_links: "applyAccountLinks tk i req db = (e, db') \<Longrightarrow> declared db' = declared db"
proof -
  have "SetMailboxes i is db = Inr db' \<Longrightarrow> declared db' = declared db" for "is" db db'
    unfolding SetMailboxes_def using insertLinks_keep by (fastforce simp: declared_def)
  moreover have "SetAllowedSenders now i ids ps db = Inr db' \<Longrightarrow> declared db' = declared db" for now ids ps db db'
    unfolding SetAllowedSenders_def using insertSenders_keep by (fastforce simp: declared_def)
  ultimately show "applyAccountLinks tk i req db = (e, db') \<Longrightarrow> declared db' = declared db"
    by (auto simp: applyAccountLinks_def split: option.splits sum.splits)
qed

lemma directory_same: "same_directory db db' \<Longrightarrow> directory_of db' = directory_of db"
  by (simp add: same_directory_def directory_of_def)

lemma declared_queue:
  "Requeue i now db = Inr db' \<Longrightarrow> declared db' = declared db" "Hold i now db = Inr db' \<Longrightarrow> declared db' = declared db"
  "Messages_Delete i db = Inr db' \<Longrightarrow> declared db' = declared db"
  by (auto simp: Requeue_def Hold_def Messages_Delete_def Let_def requireAction_Inr_iff updateMessages_def deleteMessages_def
      directory_of_def intro!: declared_same)

lemma declared_diagnostic:
  "EnqueueDiagnostic now newID auditID actorID requestID mailboxID recipient m body db = Inr (i, c, db') \<Longrightarrow> declared db' = declared db"
  by (auto simp: EnqueueDiagnostic_def diagnosticTx_def enqueueTx_def insertAudit_def Let_def directory_of_def intro!: declared_same
      split: option.splits sum.splits prod.splits if_splits)

lemma sealCredential_keeps:
  "sealCredential tk k c req = Inr c' \<Longrightarrow> cred_ID c' = cred_ID c \<and> cred_ManagedBy c' = cred_ManagedBy c"
  by (auto simp: sealCredential_def split: option.splits sum.splits)

lemma credential_handlers_declared:
  assumes "directory_ok (ap_db st)"
  shows "declared (ap_db (snd (handleCreateCredential sv tk r auth st))) = declared (ap_db st)"
    and "declared (ap_db (snd (handleUpdateCredential sv tk r auth st))) = declared (ap_db st)"
    and "declared (ap_db (snd (handleDeleteCredential sv tk r auth st))) = declared (ap_db st)"
proof -
  have "declared db' = declared db" if "sealCredential tk k (new_credential tk req) req = Inr c"
    "Credentials_Create now i c db = Inr (c', db')" for k req c now i c' db db'
    using declared_create(1)[OF that(2)] sealCredential_keeps[OF that(1)] by (simp add: new_credential_def zero_credential_def)
  then show "declared (ap_db (snd (handleCreateCredential sv tk r auth st))) = declared (ap_db st)"
    by (auto simp: handleCreateCredential_def on_db_def Let_def split: option.split sum.split)
  have "declared db' = declared (ap_db st)" if "Credentials_Get (ap_db st) i = Inr c" "cred_ManagedBy c \<noteq> ManagedByBootstrap"
    "sealCredential tk k (edit_credential req c) req = Inr c1" "Credentials_Update now c1 (ap_db st) = Inr db'" for k req c c1 i now db'
    using declared_credential_write(1)[OF assms that(1,2,4)] sealCredential_keeps[OF that(3)] Credentials_Get_row[OF that(1)]
    by (simp add: edit_credential_def)
  then show "declared (ap_db (snd (handleUpdateCredential sv tk r auth st))) = declared (ap_db st)"
    by (auto simp: handleUpdateCredential_def forget_def Let_def split: option.split sum.split)
  show "declared (ap_db (snd (handleDeleteCredential sv tk r auth st))) = declared (ap_db st)"
    using declared_credential_write(2)[OF assms]
    by (auto simp: handleDeleteCredential_def forget_def Let_def split: option.split sum.split)
qed

lemma mailbox_handlers_declared:
  assumes "directory_ok (ap_db st)"
  shows "declared (ap_db (snd (handleCreateMailbox sv tk r auth st))) = declared (ap_db st)"
    and "declared (ap_db (snd (handleUpdateMailbox sv tk r auth st))) = declared (ap_db st)"
    and "declared (ap_db (snd (handleDeleteMailbox sv tk r auth st))) = declared (ap_db st)"
    and "declared (ap_db (snd (handleTestMailbox sv tk r auth st))) = declared (ap_db st)"
    and "declared (ap_db (snd (handleSendMailboxTest sv tk r auth st))) = declared (ap_db st)"
proof -
  have "declared db' = declared db" if "Mailboxes_Create now i (new_mailbox req) db = Inr (m, db')" for now i req db m db'
    using declared_create(2)[OF that] by (simp add: new_mailbox_def)
  then show "declared (ap_db (snd (handleCreateMailbox sv tk r auth st))) = declared (ap_db st)"
    by (auto simp: handleCreateMailbox_def on_db_def Let_def split: option.split sum.split)
  have "declared db' = declared (ap_db st)" if "Mailboxes_Get (ap_db st) i = Inr m" "mb_ManagedBy m \<noteq> ManagedByBootstrap"
    "Mailboxes_Update now (edit_mailbox req m) (ap_db st) = Inr db'" for req m i now db'
    using declared_mailbox_write(1)[OF assms that] Mailboxes_Get_row[OF that(1)] by (simp add: edit_mailbox_def)
  then show "declared (ap_db (snd (handleUpdateMailbox sv tk r auth st))) = declared (ap_db st)"
    by (auto simp: handleUpdateMailbox_def on_db_def Let_def split: option.split sum.split)
  have "declared db' = declared (ap_db st)" if "Mailboxes_Get (ap_db st) i = Inr m" "mb_ManagedBy m \<noteq> ManagedByBootstrap"
    "Mailboxes_Delete (mb_ID m) (ap_db st) = Inr db'" for m i db'
    using declared_mailbox_write(2)[OF assms that(1,2)] Mailboxes_Get_row[OF that(1)] that(3) by simp
  then show "declared (ap_db (snd (handleDeleteMailbox sv tk r auth st))) = declared (ap_db st)"
    by (auto simp: handleDeleteMailbox_def on_db_def split: sum.split)
  show "declared (ap_db (snd (handleTestMailbox sv tk r auth st))) = declared (ap_db st)"
    by (auto simp: handleTestMailbox_def Let_def case_prod_beta split: option.split sum.split)
  show "declared (ap_db (snd (handleSendMailboxTest sv tk r auth st))) = declared (ap_db st)"
    using declared_diagnostic by (auto simp: handleSendMailboxTest_def on_db_def Let_def split: option.split sum.split)
qed

lemma account_handlers_declared:
  assumes "directory_ok (ap_db st)"
  shows "declared (ap_db (snd (handleCreateAccount sv tk r auth st))) = declared (ap_db st)"
    and "declared (ap_db (snd (handleUpdateAccount sv tk r auth st))) = declared (ap_db st)"
    and "declared (ap_db (snd (handleDeleteAccount sv tk r auth st))) = declared (ap_db st)"
    and "declared (ap_db (snd (handleResetAccountPassword sv tk r auth st))) = declared (ap_db st)"
proof -
  have "declared db' = declared db" if "Accounts_Create now i (new_account req h) db = Inr (a, db')" for now i req h db a db'
    using declared_create(3)[OF that] by (simp add: new_account_def)
  then show "declared (ap_db (snd (handleCreateAccount sv tk r auth st))) = declared (ap_db st)"
    by (auto simp: handleCreateAccount_def on_db_def Let_def split: option.split sum.split prod.split dest!: declared_links)
  have "declared db' = declared (ap_db st)" if "Accounts_Get (ap_db st) i = Inr a" "acc_ManagedBy a \<noteq> ManagedByBootstrap"
    "Accounts_Update now (edit_account req a) (ap_db st) = Inr db'" for req a i now db'
    using declared_account_write(1)[OF assms that] Accounts_Get_row[OF that(1)] by (simp add: edit_account_def)
  then show "declared (ap_db (snd (handleUpdateAccount sv tk r auth st))) = declared (ap_db st)"
    by (auto simp: handleUpdateAccount_def on_db_def Let_def split: option.split sum.split prod.split dest!: declared_links)
  have "declared db' = declared (ap_db st)" if "Accounts_Get (ap_db st) i = Inr a" "acc_ManagedBy a \<noteq> ManagedByBootstrap"
    "Accounts_Delete (acc_ID a) (ap_db st) = Inr db'" for a i db'
    using declared_account_write(2)[OF assms that(1,2)] Accounts_Get_row[OF that(1)] that(3) by simp
  then show "declared (ap_db (snd (handleDeleteAccount sv tk r auth st))) = declared (ap_db st)"
    by (auto simp: handleDeleteAccount_def on_db_def split: sum.split)
  show "declared (ap_db (snd (handleResetAccountPassword sv tk r auth st))) = declared (ap_db st)"
    using declared_password_reset[OF assms]
    by (auto simp: handleResetAccountPassword_def on_db_def Let_def split: option.split sum.split prod.split)
qed

lemmas directory_user_writes = same_directory_admin(1-4,6,11)[THEN directory_same]

lemma directory_session_writes [simp]:
  "directory_of (RecordSuccessfulLogin now i db) = directory_of db" "directory_of (Sessions_Delete i db) = directory_of db"
  "directory_of (snd (DeleteForUser i db)) = directory_of db" "directory_of (RevokeAllForUser i db) = directory_of db"
  "directory_of (Revoke i db) = directory_of db" "directory_of (Touch now i db) = directory_of db"
  unfolding RevokeAllForUser_def Revoke_def by (rule directory_same, rule same_directory_admin)+

lemma directory_local_Authenticate: "local_Authenticate cfg ax tk n p db = (res, db') \<Longrightarrow> directory_of db' = directory_of db"
proof -
  have "directory_of (local_recordFailure cfg tk u db) = directory_of db" for u
    by (auto simp: local_recordFailure_def after_def split: sum.splits dest: directory_user_writes)
  moreover have "directory_of (snd (local_rehash ax tk u p db)) = directory_of db" for u
    by (auto simp: local_rehash_def after_def Let_def split: sum.splits dest: directory_user_writes)
  ultimately show "local_Authenticate cfg ax tk n p db = (res, db') \<Longrightarrow> directory_of db' = directory_of db"
    by (auto simp: local_Authenticate_def Let_def case_prod_beta split: if_splits sum.splits)
qed

lemma directory_SetPassword: "SetPassword ax tk u p db = (res, db') \<Longrightarrow> directory_of db' = directory_of db"
  by (auto simp: SetPassword_def split: sum.splits dest: directory_user_writes)

lemma directory_Issue: "Issue m ax tk u r db = Inr (s, db') \<Longrightarrow> directory_of db' = directory_of db"
  by (auto simp: Issue_def Let_def split: sum.splits dest: directory_user_writes)

lemma directory_Complete: "Complete ip cfg tk code req s db = (res, db') \<Longrightarrow> directory_of db' = directory_of db"
proof -
  have "directory_of (snd (syncExisting cfg tk u claims role db)) = directory_of db" for u claims role
    by (auto simp: syncExisting_def Let_def split: sum.splits dest: directory_user_writes)
  moreover have "directory_of (snd (provision cfg tk claims role db)) = directory_of db" for claims role
    by (auto simp: provision_def Let_def split: sum.splits prod.splits dest: directory_user_writes)
  ultimately have "directory_of (snd (resolveUser cfg tk claims db)) = directory_of db" for claims
    by (simp add: resolveUser_def split: sum.split)
  then show "Complete ip cfg tk code req s db = (res, db') \<Longrightarrow> directory_of db' = directory_of db"
    by (auto simp: Complete_def split: if_splits sum.splits dest: snd_eqD) (metis snd_conv)
qed

lemma user_handlers_directory:
  "directory_of (ap_db (snd (handleCreateUser sv tk r auth st))) = directory_of (ap_db st)"
  "directory_of (ap_db (snd (handleUpdateUser sv tk r auth st))) = directory_of (ap_db st)"
  "directory_of (ap_db (snd (handleDeleteUser sv tk r auth st))) = directory_of (ap_db st)"
  "directory_of (ap_db (snd (handleLogout sv tk r auth st))) = directory_of (ap_db st)"
  "directory_of (ap_db (snd (handleGetMessageBody sv tk r auth st))) = directory_of (ap_db st)"
  by (auto simp: on_db_def Let_def handleCreateUser_def handleUpdateUser_def handleDeleteUser_def handleLogout_def
      handleGetMessageBody_def split: option.split sum.split dest: directory_user_writes)

lemma password_handlers_directory:
  "directory_of (ap_db (snd (handleSetUserPassword sv tk r auth st))) = directory_of (ap_db st)"
  "directory_of (ap_db (snd (handleChangeOwnPassword sv tk r auth st))) = directory_of (ap_db st)"
  by (auto simp: on_db_def handleSetUserPassword_def handleChangeOwnPassword_def
      split: option.split sum.split prod.split dest!: directory_SetPassword directory_local_Authenticate)

lemma message_actions_declared:
  "declared (ap_db (snd (handleRetryMessage sv tk r auth st))) = declared (ap_db st)"
  "declared (ap_db (snd (handleHoldMessage sv tk r auth st))) = declared (ap_db st)"
  "declared (ap_db (snd (handleDeleteMessage sv tk r auth st))) = declared (ap_db st)"
  by (auto simp: on_db_def handleRetryMessage_def handleHoldMessage_def handleDeleteMessage_def queueAction_def split: sum.split
      dest: declared_queue)

lemma private_handler_declared:
  assumes "directory_ok (ap_db st)"
  shows "declared (ap_db (snd (private_handler e sv tk r auth st))) = declared (ap_db st)"
  by (cases e) (simp add: reads_state; simp add: private_handler_def credential_handlers_declared[OF assms]
      mailbox_handlers_declared[OF assms] account_handlers_declared[OF assms] message_actions_declared
      declared_same[OF user_handlers_directory(1)] declared_same[OF user_handlers_directory(2)]
      declared_same[OF user_handlers_directory(3)] declared_same[OF user_handlers_directory(4)]
      declared_same[OF user_handlers_directory(5)] declared_same[OF password_handlers_directory(1)]
      declared_same[OF password_handlers_directory(2)])+

lemma public_handler_directory: "directory_of (ap_db (snd (public_handler e sv tk r st))) = directory_of (ap_db st)"
proof -
  have "directory_of (snd (completeSignIn sv tk r u meth db)) = directory_of db" for u meth db
    by (auto simp: completeSignIn_def split: sum.split dest: directory_Issue)
  then have "directory_of (snd (handleLogin sv tk r db)) = directory_of db" for db
    by (auto simp: handleLogin_def recordFailedSignIn_def split: option.split prod.split sum.split dest: directory_local_Authenticate)
  moreover have "directory_of (snd (handleOIDCCallback sv tk r db)) = directory_of db" for db
    by (auto simp: handleOIDCCallback_def recordFailedSignIn_def Let_def split: option.split prod.split sum.split
        dest!: directory_Complete directory_Issue)
  ultimately show ?thesis by (cases e) (simp_all add: public_handler_def on_db_def case_prod_beta)
qed


text \<open>An administrator tries to delete a declared credential.\<close>

definition declared_state :: api_state where
  "declared_state = sample_state\<lparr> ap_db := (ap_db sample_state)\<lparr> t_credentials := [sample_credential\<lparr> cred_ManagedBy := ManagedByBootstrap \<rparr>] \<rparr> \<rparr>"


section \<open>A secret reaches the token provider\<close>

lemma seal_opens:
  assumes "keyring_ok k" "map_of (kr_keys k) (kr_primaryID k) = Some a" "map_of (kr_keys k') (kr_primaryID k) = Some a"
    and "aead_opens a" "ae_NonceSize a > 0" "length (tk_random tk purpose (ae_NonceSize a)) = ae_NonceSize a"
    and "seal tk purpose k plaintext ctx = Inr sealed"
  shows "Decrypt k' sealed ctx = Inr plaintext"
  using Encrypt_opens[of k "tk_random tk purpose (ae_NonceSize a)" plaintext ctx sealed a k'] assms
  by (auto simp: seal_def split: sum.splits)

lemma audit_credentials [simp]: "t_credentials (audit sv tk r e db) = t_credentials db"
  using directory_audit by (simp add: directory_of_def)

text \<open>C14: The client secret given when a credential is created is stored sealed, and the token provider,
  whose keyring may have another primary key by then, opens it to exactly what was given.\<close>

theorem stored_secret_usable:
  assumes keyring: "sv_keyring sv = Some k" "keyring_ok k" "map_of (kr_keys k) (kr_primaryID k) = Some a"
    and cipher: "aead_opens a" "ae_NonceSize a > 0" "\<And>purpose n. length (tk_random tk purpose n) = n"
    and provider: "map_of (kr_keys (pv_keyring p)) (kr_primaryID k) = Some a" "ms_secret_error ms secret = None"
    and request: "decode_credential (sv_env sv) (rq_Body r) = Some req" "AuthType_of (cq_AuthType req) = AuthTypeSecret"
      "cq_ClientSecret req = Some secret"
    and created: "handleCreateCredential sv tk r auth st = (rs, st')" "rs_Status rs = 201"
  shows "\<exists>c. t_credentials (ap_db st') = t_credentials (ap_db st) @ [c] \<and> credentialFor ms p c = Inr (FromSecret secret)"
proof -
  obtain c c' db' where seal: "sealCredential tk (Some k) (new_credential tk req) req = Inr c"
    and create: "Credentials_Create (tk_now tk) (tk_id tk ''credential'') c (ap_db st) = Inr (c', db')"
    and st': "t_credentials (ap_db st') = t_credentials db'"
    using created keyring(1) request(1)
    by (auto simp: handleCreateCredential_def on_db_def Let_def writeJSON_def writeError_def bad_body_def
        writeValidationError_def writeStoreError_def internal_error_def split: if_splits sum.splits option.splits store_error.splits)
  obtain sealed where s: "seal tk ''secret'' k secret (SecretContext (new_credential tk req)) = Inr sealed"
    and c: "cred_ClientSecretEnc c = sealed" "cred_ID c = tk_id tk ''credential''" "cred_AuthType c = AuthTypeSecret"
    using seal request by (auto simp: sealCredential_def seal_field_def new_credential_def split: sum.splits)
  have c': "cred_ClientSecretEnc c' = sealed" "cred_ID c' = tk_id tk ''credential''" "cred_AuthType c' = AuthTypeSecret"
    "t_credentials db' = t_credentials (ap_db st) @ [c']"
    using create c by (auto simp: Credentials_Create_def Let_def ensure_id_def split: if_splits)
  have "Decrypt (pv_keyring p) sealed (SecretContext (new_credential tk req)) = Inr secret"
    using seal_opens[OF keyring(2,3) provider(1) cipher(1,2,3) s] .
  then have "credentialFor ms p c' = Inr (FromSecret secret)"
    using c' provider(2) by (simp add: credentialFor_def SecretContext_def new_credential_def)
  then show ?thesis using c'(4) st' by (intro exI[of _ c']) simp
qed

text \<open>A secret is stored, the keyring gets another primary key, and the provider opens it.\<close>

definition sample_registration_request :: http_request where
  "sample_registration_request = sample_call ''POST'' [''credentials''] (Some (JObj
     [(''name'', JStr ''mail''), (''tenantId'', JStr ''t''), (''clientId'', JStr ''app''), (''authType'', JStr ''secret''),
      (''clientSecret'', JStr ''hunter2'')]))"

definition sample_registered :: "response \<times> api_state" where
  "sample_registered = handleCreateCredential sample_api (sample_tick 10) sample_registration_request
     \<lparr> au_Session = sample_session, au_User = sample_admin ''root'' RoleAdmin \<rparr> sample_state"

theorem stored_secret_usable_witness:
  "\<exists>c. t_credentials (ap_db (snd sample_registered)) = t_credentials (ap_db sample_state) @ [c] \<and>
     credentialFor sample_msal (sample_provider\<lparr> pv_keyring := sample_keyring ''k2'' \<rparr>) c = Inr (FromSecret ''hunter2'')"
proof -
  let ?auth = "\<lparr> au_Session = sample_session, au_User = sample_admin ''root'' RoleAdmin \<rparr>"
  obtain rs st' where reg: "handleCreateCredential sample_api (sample_tick 10) sample_registration_request ?auth sample_state = (rs, st')"
    by fastforce
  have "rs_Status (fst sample_registered) = 201" by code_simp
  then have created: "rs_Status rs = 201" by (simp add: sample_registered_def reg)
  have req: "map_option (\<lambda>q. (AuthType_of (cq_AuthType q), cq_ClientSecret q))
      (decode_credential (sv_env sample_api) (rq_Body sample_registration_request)) = Some (AuthTypeSecret, Some ''hunter2'')"
    by code_simp
  obtain q where q: "decode_credential (sv_env sample_api) (rq_Body sample_registration_request) = Some q"
    "AuthType_of (cq_AuthType q) = AuthTypeSecret" "cq_ClientSecret q = Some ''hunter2''"
    using req by auto
  have "sv_keyring sample_api = Some (sample_keyring ''k1'')" by (simp add: sample_api_def)
  moreover have "keyring_ok (sample_keyring ''k1'')"
    by (simp add: keyring_ok_def sample_keyring_def valid_key_id_def maxKeyIDLen_def ContainsAny_def)
  moreover have "map_of (kr_keys (sample_keyring p)) (kr_primaryID (sample_keyring ''k1'')) = Some (toy_aead ''a'')" for p
    by (simp add: sample_keyring_def)
  moreover have "ae_NonceSize (toy_aead ''a'') > 0" by (simp add: toy_aead_def)
  moreover have "length (tk_random (sample_tick 10) purpose n) = n" for purpose n by (simp add: sample_tick_def)
  moreover have "ms_secret_error sample_msal ''hunter2'' = None" by (simp add: sample_msal_def)
  ultimately show ?thesis
    using stored_secret_usable[OF _ _ _ toy_aead_opens _ _ _ _ q reg created,
        where p = "sample_provider\<lparr> pv_keyring := sample_keyring ''k2'' \<rparr>" and ms = sample_msal and k = "sample_keyring ''k1''"]
    by (simp add: sample_registered_def reg)
qed

end
