(* ===== verification/ApiGaps.thy ===== *)
theory ApiGaps
  imports ApiManaged
begin

text \<open>
  Requests the management interface (\<^verbatim>\<open>src/internal/adminapi\<close>) answers in a way its comments do not
  suggest, each run on the model.
\<close>

definition gap_db :: DB where
  "gap_db = (ap_db sample_state)\<lparr>
     t_credentials := [sample_credential], t_mailboxes := [sample_box ''m1'' ''one@x''],
     t_accounts := [sample_account\<lparr> acc_ManagedBy := ManagedByBootstrap \<rparr>, sample_account\<lparr> acc_ID := ''b'', acc_Username := ''scanner'' \<rparr>] \<rparr>"

definition gap_state :: api_state where
  "gap_state = sample_state\<lparr> ap_db := gap_db \<rparr>"

definition gap_call :: "string \<Rightarrow> string list \<Rightarrow> (string \<times> json) list \<Rightarrow> response \<times> api_state" where
  "gap_call meth path body = sample_serve (sample_call meth path (Some (JObj body))) gap_state"

text \<open>The password of a declared account can be reset, and to one of any length.\<close>

lemma reset_of_declared_password:
  assumes "decode_reset (rq_Body r) = Some req" "Accounts_Get (ap_db st) (url_param r) = Inr a" "acc_ManagedBy a = ManagedByBootstrap"
    and "aq_Password req = Some ''x''" "hash_password (sv_env sv) tk ''x'' = Inr h"
    and "Accounts_Update (tk_now tk) (a\<lparr> acc_PasswordHash := h \<rparr>) (ap_db st) = Inr db"
  shows "rs_Status (fst (handleResetAccountPassword sv tk r auth st)) = 200"
    and "directory_of (ap_db (snd (handleResetAccountPassword sv tk r auth st))) = directory_of db"
  using assms by (simp_all add: handleResetAccountPassword_def passwordFor_def absent_def on_db_def writeJSON_def)

text \<open>A password in the update of an account is checked for its length and then ignored.\<close>

lemma update_ignores_password:
  "rs_Status (fst (gap_call ''PATCH'' [''accounts'', ''b''] [(''password'', JStr ''short'')])) = 422"
  "rs_Status (fst (gap_call ''PATCH'' [''accounts'', ''b''] [(''password'', JStr ''long enough'')])) = 200"
  "map acc_PasswordHash (t_accounts (ap_db (snd (gap_call ''PATCH'' [''accounts'', ''b''] [(''password'', JStr ''long enough'')]))))
    = map acc_PasswordHash (t_accounts gap_db)"
  by code_simp+

text \<open>An account whose mailbox links are refused stays, without an audit entry and with a password
  nobody has seen.\<close>

lemma refused_account_stays:
  assumes "decode_account (rq_Body r) = Some req" "validateAccount (sv_env sv) req True = []"
    and "hash_password (sv_env sv) tk (fst (passwordFor tk req)) = Inr h"
    and "Accounts_Create (tk_now tk) (tk_id tk ''account'') (new_account req h) (ap_db st) = Inr (a, db1)"
    and "aq_MailboxIDs req = Some ids" "SetMailboxes (acc_ID a) ids db1 = Inl e"
  shows "handleCreateAccount sv tk r auth st = (writeStoreError e, st\<lparr> ap_db := db1 \<rparr>)"
    and "t_accounts db1 = t_accounts (ap_db st) @ [a]" "t_audit db1 = t_audit (ap_db st)"
  using assms by (auto simp: handleCreateAccount_def applyAccountLinks_def on_db_def case_prod_beta Accounts_Create_def Let_def split: if_splits)

text \<open>An update with a name of blanks empties the name that creating a credential asks for.\<close>

lemma blank_name_stored:
  "validateCredential (req\<lparr> cq_Name := '' '' \<rparr>) False = validateCredential req False"
  "cred_Name (edit_credential (req\<lparr> cq_Name := '' '' \<rparr>) c) = ''''"
proof -
  have "TrimSpace '' '' = ''''" by code_simp
  then show "cred_Name (edit_credential (req\<lparr> cq_Name := '' '' \<rparr>) c) = ''''" by (simp add: edit_credential_def set_trimmed_def)
qed (simp add: validateCredential_def field_if_def)

text \<open>The dashboard never counts the deliveries refused for their authentication.\<close>

lemma status_counts_no_auth_failures:
  "rs_Body (fst (handleStatus sv tk r auth st)) = StatusBody b \<Longrightarrow> st_AuthFailureCount b = 0"
  by (auto simp: handleStatus_def on_db_def writeJSON_def Let_def)

text \<open>The empty path is a valid address of a mailbox.\<close>

lemma empty_path_mailbox:
  "validateMailbox sample_admin_env \<lparr> mq_Address = ''<>'', mq_DisplayName = '''', mq_OAuthCredentialID = ''c'', mq_Transport = ''smtp'',
     mq_RateLimitPerMin = None, mq_MaxConcurrent = None, mq_Enabled = None \<rparr> True = []"
  by code_simp

end
