(* ===== verification/Progress.thy ===== *)
theory Progress
  imports Worker
begin

text \<open>
  Mail does not stay in the queue for ever.  A worker that claims what is due and delivers what it
  claimed (\<^verbatim>\<open>src/internal/queue/worker.go\<close>) settles every waiting message as sent or failed, because each
  attempt uses up one of the attempts the retry schedule grants.
\<close>

section \<open>Rounds of a worker\<close>

definition waiting :: "Message \<Rightarrow> bool" where
  "waiting m = (msg_Status m \<in> {StatusQueued, StatusDeferred, StatusSending})"

definition settled :: "Message \<Rightarrow> bool" where
  "settled m = (msg_Status m \<in> {StatusSent, StatusFailed})"

text \<open>A round at an instant: the worker claims up to its limit and delivers what it has claimed, one
  message after the other.  The upstreams are part of the options, so that they may answer
  differently in every round; the sending budget is granted.\<close>

record round =
  rn_opts :: Options
  rn_limit :: int
  rn_random :: rat
  rn_now :: instant

definition deliver_one :: "round \<Rightarrow> Message \<Rightarrow> DB \<Rightarrow> DB" where
  "deliver_one r m db = dl_db (deliver (rn_opts r) (\<lambda>_. '''') (\<lambda>_ _. True) (db_reads db) (rn_random r) (rn_now r) m db)"

definition run_round :: "round \<Rightarrow> DB \<Rightarrow> DB" where
  "run_round r db = (case claim (rn_opts r) (rn_limit r) (rn_now r) db of (ms, db') \<Rightarrow> fold (deliver_one r) ms db')"

text \<open>Rounds happen when there is something to do: as long as a message waits, one is due.\<close>

fun timely :: "round list \<Rightarrow> DB \<Rightarrow> bool" where
  "timely [] db = True"
| "timely (r # rs) db =
    ((list_ex waiting (t_messages db) \<longrightarrow> list_ex (claimable (rn_now r)) (t_messages db)) \<and> timely rs (run_round r db))"

text \<open>The attempts that are left, counting one for a message that has used up its attempts and is tried
  once more.\<close>

definition left :: "int \<Rightarrow> Message \<Rightarrow> nat" where
  "left limit m = (if waiting m then max 1 (nat (limit - msg_Attempts m)) else 0)"

definition backlog :: "int \<Rightarrow> DB \<Rightarrow> nat" where
  "backlog limit db = sum_list (map (left limit) (t_messages db))"

section \<open>A delivery uses up an attempt\<close>

definition moves :: "Message \<Rightarrow> Message \<Rightarrow> bool" where
  "moves m m' = (msg_ID m' = msg_ID m \<and> (waiting m \<or> settled m \<longrightarrow> waiting m' \<or> settled m'))"

definition moved :: "DB \<Rightarrow> DB \<Rightarrow> bool" where
  "moved db db' = list_all2 moves (t_messages db) (t_messages db')"

lemma moves_trans: "moves a b \<Longrightarrow> moves b c \<Longrightarrow> moves a c"
  by (auto simp: moves_def)

lemma moved_refl [simp]: "moved db db"
  by (simp add: moved_def list.rel_refl moves_def)

lemma moved_trans: "moved db db' \<Longrightarrow> moved db' db'' \<Longrightarrow> moved db db''"
  using list_all2_trans[of moves moves moves, OF moves_trans] by (auto simp: moved_def)

lemma moved_update:
  assumes "\<And>m. m \<in> set (t_messages db) \<Longrightarrow> p m \<Longrightarrow> moves m (f m)"
  shows "moved db (updateMessages p f db)"
proof -
  have "moves m (if p m then f m else m)" if "m \<in> set (t_messages db)" for m using assms[OF that] by (simp add: moves_def)
  then show ?thesis by (simp add: moved_def updateMessages_def update_where_def list_all2_conv_all_nth)
qed

lemma sum_list_less:
  fixes g h :: "'a \<Rightarrow> nat"
  assumes "x \<in> set xs" "g x < h x" "\<And>y. y \<in> set xs \<Longrightarrow> g y \<le> h y"
  shows "sum_list (map g xs) < sum_list (map h xs)"
  using assms
proof (induction xs)
  case (Cons a xs)
  have le: "sum_list (map g xs) \<le> sum_list (map h xs)" using Cons.prems(3) by (intro sum_list_mono) simp
  show ?case
  proof (cases "x = a")
    case False
    then have "sum_list (map g xs) < sum_list (map h xs)" using Cons by simp
    then show ?thesis using Cons.prems(3)[of a] by simp
  qed (use Cons.prems(2) le in simp)
qed simp

lemma backlog_update:
  assumes "\<And>m. m \<in> set (t_messages db) \<Longrightarrow> p m \<Longrightarrow> left n (f m) \<le> left n m"
  shows "backlog n (updateMessages p f db) \<le> backlog n db"
    and "m \<in> set (t_messages db) \<Longrightarrow> p m \<Longrightarrow> left n (f m) < left n m \<Longrightarrow> backlog n (updateMessages p f db) < backlog n db"
proof -
  have rows: "backlog n (updateMessages p f db) = sum_list (map (\<lambda>m. left n (if p m then f m else m)) (t_messages db))"
    by (simp add: backlog_def updateMessages_def update_where_def comp_def)
  have le: "left n (if p m then f m else m) \<le> left n m" if "m \<in> set (t_messages db)" for m using assms[OF that] by simp
  show "backlog n (updateMessages p f db) \<le> backlog n db"
    unfolding rows unfolding backlog_def using le by (intro sum_list_mono) simp
  show "backlog n (updateMessages p f db) < backlog n db" if "m \<in> set (t_messages db)" "p m" "left n (f m) < left n m"
    unfolding rows unfolding backlog_def using le that by (intro sum_list_less[of m]) simp_all
qed

text \<open>The outcome of an attempt on a row leaves it fewer attempts: a deferred message has one left.\<close>

lemma outcome_left:
  assumes "oc = OSent \<or> (\<exists>e. oc = failure_outcome opts rnd now m e)" "0 < bo_MaxAttempts (op_Backoff opts)"
    and "msg_Attempts x = msg_Attempts m" "waiting x"
    and "msg_Status y = outcome_status oc" "msg_Attempts y = msg_Attempts x + 1"
  shows "left (bo_MaxAttempts (op_Backoff opts)) y < left (bo_MaxAttempts (op_Backoff opts)) x \<and> (waiting y \<or> settled y)"
  using assms
  by (auto simp: left_def waiting_def settled_def outcome_status_def failure_outcome_def NextAttemptAfter_def NextAttempt_def Let_def
      split: outcome.splits if_splits option.splits)

lemma deliver_one_step:
  assumes "queue_ok db" "m \<in> set (t_messages db)" "msg_LeaseOwner m = Some (op_WorkerID (rn_opts r))"
    and "bo_MaxAttempts (op_Backoff (rn_opts r)) = n" "0 < n"
  shows "queue_ok (deliver_one r m db)" "backlog n (deliver_one r m db) < backlog n db" "moved db (deliver_one r m db)"
    and "\<And>m'. m' \<in> set (t_messages db) \<Longrightarrow> msg_ID m' \<noteq> msg_ID m \<Longrightarrow> m' \<in> set (t_messages (deliver_one r m db))"
proof -
  let ?w = "op_WorkerID (rn_opts r)"
  obtain oc where oc: "delivery_decision (rn_opts r) (\<lambda>_. '''') (\<lambda>_ _. True) (db_reads db) (rn_random r) (rn_now r) m = Some oc"
    "oc = OSent \<or> (\<exists>e. oc = failure_outcome (rn_opts r) (rn_random r) (rn_now r) m e)"
    using delivery_decision_acquired[of "\<lambda>_ _. True" "rn_opts r" "\<lambda>_. ''''" "db_reads db" "rn_random r" "rn_now r" m] by blast
  obtain f where f: "finish oc (msg_ID m) ?w (rn_now r) db = updateOwned (msg_ID m) ?w f db"
    "\<And>x. msg_ID (f x) = msg_ID x" "\<And>x. msg_Status (f x) = outcome_status oc"
    "\<And>x. msg_Attempts (f x) = msg_Attempts x + 1" "\<And>x. msg_LeaseOwner (f x) = None"
    using finish_as_update[of oc "msg_ID m" ?w "rn_now r" db] by blast
  have own: "list_ex (ownedBy (msg_ID m) ?w) (t_messages db)" using assms(2,3) by (auto simp: list_ex_iff ownedBy_def)
  then have upd: "updateOwned (msg_ID m) ?w f db = Inr (deliver_one r m db)"
    "deliver_one r m db = updateMessages (ownedBy (msg_ID m) ?w) f db"
    by (simp_all add: deliver_one_def deliver_finish oc(1) f(1) updateOwned_cases after_def)
  have row: "x = m" if "x \<in> set (t_messages db)" "ownedBy (msg_ID m) ?w x" for x
    using assms(1,2) that unique_keyD[of msg_ID "t_messages db" x m] by (auto simp: queue_ok_def ownedBy_def)
  have waits: "waiting m" using assms(1-3) by (auto simp: queue_ok_def list_all_iff lease_ok_def waiting_def)
  have less: "left n (f m) < left n m" "waiting (f m) \<or> settled (f m)"
    using outcome_left[OF oc(2) _ refl waits f(3) f(4)] assms(4,5) by auto
  show "queue_ok (deliver_one r m db)"
    using queue_ok_finish[of db oc "msg_ID m" ?w "rn_now r"] assms(1) f(1) upd(1) by simp
  have own_m: "ownedBy (msg_ID m) ?w m" using assms(3) by (simp add: ownedBy_def)
  have le: "left n (f x) \<le> left n x" and mv: "moves x (f x)" if "x \<in> set (t_messages db)" "ownedBy (msg_ID m) ?w x" for x
    unfolding row[OF that] using less f(2) by (simp_all add: moves_def)
  show "backlog n (deliver_one r m db) < backlog n db"
    unfolding upd(2) using le assms(2) own_m less(1) by (rule backlog_update(2))
  show "moved db (deliver_one r m db)" unfolding upd(2) using mv by (rule moved_update)
  show "m' \<in> set (t_messages (deliver_one r m db))" if "m' \<in> set (t_messages db)" "msg_ID m' \<noteq> msg_ID m" for m'
    using that by (auto simp: upd(2) updateMessages_def set_update_where ownedBy_def)
qed

lemma deliver_all_step:
  assumes "queue_ok db" "distinct (map msg_ID ms)" "bo_MaxAttempts (op_Backoff (rn_opts r)) = n" "0 < n"
    and "\<And>m. m \<in> set ms \<Longrightarrow> m \<in> set (t_messages db) \<and> msg_LeaseOwner m = Some (op_WorkerID (rn_opts r))"
  shows "queue_ok (fold (deliver_one r) ms db) \<and> backlog n (fold (deliver_one r) ms db) + length ms \<le> backlog n db \<and>
    moved db (fold (deliver_one r) ms db)"
  using assms(1,2,5)
proof (induction ms arbitrary: db)
  case (Cons m ms)
  note step = deliver_one_step[OF Cons.prems(1) _ _ assms(3,4), of m]
  have m: "m \<in> set (t_messages db)" "msg_LeaseOwner m = Some (op_WorkerID (rn_opts r))" using Cons.prems(3) by auto
  have "x \<in> set (t_messages (deliver_one r m db)) \<and> msg_LeaseOwner x = Some (op_WorkerID (rn_opts r))" if "x \<in> set ms" for x
  proof -
    have "msg_ID x \<noteq> msg_ID m" using Cons.prems(2) that by (metis distinct.simps(2) image_eqI list.simps(9) set_map)
    then show ?thesis using Cons.prems(3)[of x] that step(4)[OF m, of x] by simp
  qed
  from Cons.IH[OF step(1)[OF m] _ this] Cons.prems(2) show ?case
    using step(2,3)[OF m] moved_trans by fastforce
qed simp

section \<open>A round makes progress\<close>

lemma claim_step:
  assumes "queue_ok db" "op_WorkerID opts \<noteq> ''''" "limit > 0" "claim opts limit now db = (ms, db')"
  shows "queue_ok db'" "backlog n db' \<le> backlog n db" "moved db db'" "distinct (map msg_ID ms)"
    and "\<And>m. m \<in> set ms \<Longrightarrow> m \<in> set (t_messages db') \<and> msg_LeaseOwner m = Some (op_WorkerID opts)"
    and "list_ex (claimable now) (t_messages db) \<Longrightarrow> ms \<noteq> []"
proof -
  have c: "ClaimMessages (op_WorkerID opts) limit (op_LeaseDuration opts) now db = Inr (ms, db')"
    using ClaimMessages_total[OF assms(2), of limit "op_LeaseDuration opts" now db] assms(3,4) by (auto simp: claim_def)
  note inr = ClaimMessages_Inr[OF c assms(3)]
  have uk: "unique_key msg_ID (t_messages db)" using assms(1) by (simp add: queue_ok_def)
  show ok: "queue_ok db'" using queue_ok_Claim[OF assms(1) c] .
  have keep: "waiting m \<and> left n (takeLease o1 u now m) = left n m \<and> moves m (takeLease o1 u now m)"
    if "claimable now m" for m o1 u
    using that by (auto simp: claimable_def left_def waiting_def settled_def takeLease_def moves_def)
  have claimed: "claimable now m" if "m \<in> set (t_messages db)" "msg_ID m \<in> set (claimIDs now limit (t_messages db))" for m
    using claimIDs_unique_claimable[OF uk] that by blast
  show "backlog n db' \<le> backlog n db" unfolding inr(2) using keep[OF claimed] by (intro backlog_update(1)) simp
  show "moved db db'" unfolding inr(2) using keep[OF claimed] by (intro moved_update) simp
  have "distinct (map msg_ID (t_messages db'))" using ok by (simp add: queue_ok_def unique_key_def)
  then show "distinct (map msg_ID ms)"
    using c by (auto simp: ClaimMessages_def Let_def distinct_map split: if_splits intro: inj_on_subset)
  show "m \<in> set (t_messages db') \<and> msg_LeaseOwner m = Some (op_WorkerID opts)" if "m \<in> set ms" for m
    using inr(3) that by (auto simp: holdsLease_def)
  show "ms \<noteq> []" if "list_ex (claimable now) (t_messages db)" using claim_not_empty[OF c assms(3) that] .
qed

lemma run_round_step:
  assumes "queue_ok db" "op_WorkerID (rn_opts r) \<noteq> ''''" "rn_limit r > 0"
    and "bo_MaxAttempts (op_Backoff (rn_opts r)) = n" "0 < n"
  shows "queue_ok (run_round r db)" "moved db (run_round r db)" "backlog n (run_round r db) \<le> backlog n db"
    and "list_ex (claimable (rn_now r)) (t_messages db) \<Longrightarrow> backlog n (run_round r db) < backlog n db"
proof -
  obtain ms db' where c: "claim (rn_opts r) (rn_limit r) (rn_now r) db = (ms, db')" by fastforce
  note cs = claim_step[OF assms(1-3) c]
  note ds = deliver_all_step[OF cs(1) cs(4) assms(4,5) cs(5)]
  have run: "run_round r db = fold (deliver_one r) ms db'" by (simp add: run_round_def c)
  show "queue_ok (run_round r db)" "moved db (run_round r db)" using ds cs(3) moved_trans by (auto simp: run)
  have le: "backlog n (run_round r db) + length ms \<le> backlog n db" using ds cs(2)[of n] by (simp add: run)
  then show "backlog n (run_round r db) \<le> backlog n db" by simp
  show "backlog n (run_round r db) < backlog n db" if "list_ex (claimable (rn_now r)) (t_messages db)"
    using le cs(6)[OF that] by (cases ms) auto
qed

lemma backlog_waiting: "backlog n db = 0 \<longleftrightarrow> \<not> list_ex waiting (t_messages db)"
proof -
  have "left n m = 0 \<longleftrightarrow> \<not> waiting m" for m by (simp add: left_def)
  then show ?thesis by (simp add: backlog_def list_ex_iff)
qed

text \<open>C5: Every message that waits is settled, as sent or as failed, after as many rounds as there are
  attempts left: whatever the upstreams answer in each round, the worker that claims at least one
  message at a time and whose schedule limits the attempts gets to the end of the queue.\<close>

theorem waiting_mail_settles:
  assumes "queue_ok db" "0 < n" "timely rs db" "backlog n db \<le> length rs"
    and "\<And>r. r \<in> set rs \<Longrightarrow> op_WorkerID (rn_opts r) \<noteq> '''' \<and> rn_limit r > 0 \<and> bo_MaxAttempts (op_Backoff (rn_opts r)) = n"
    and "m \<in> set (t_messages db)" "waiting m"
  shows "\<exists>m'\<in>set (t_messages (fold run_round rs db)). msg_ID m' = msg_ID m \<and> settled m'"
proof -
  have "moved db (fold run_round rs db) \<and> backlog n (fold run_round rs db) = 0"
    using assms(1,3,4,5)
  proof (induction rs arbitrary: db)
    case (Cons r rs)
    note step = run_round_step[OF Cons.prems(1) _ _ _ assms(2), of r]
    have r: "op_WorkerID (rn_opts r) \<noteq> ''''" "rn_limit r > 0" "bo_MaxAttempts (op_Backoff (rn_opts r)) = n"
      using Cons.prems(4)[of r] by auto
    have "backlog n (run_round r db) \<le> length rs"
      using step(3,4)[OF r] Cons.prems(2,3) backlog_waiting[of n db] by (cases "backlog n db = 0") auto
    from Cons.IH[OF step(1)[OF r] _ this] Cons.prems(2,4)
    have "moved (run_round r db) (fold run_round (r # rs) db) \<and> backlog n (fold run_round (r # rs) db) = 0" by auto
    then show ?case using step(2)[OF r] moved_trans by blast
  qed simp
  then have mv: "moved db (fold run_round rs db)" and none: "\<not> list_ex waiting (t_messages (fold run_round rs db))"
    by (simp_all add: backlog_waiting)
  obtain i where i: "i < length (t_messages db)" "t_messages db ! i = m" using assms(6) by (auto simp: in_set_conv_nth)
  let ?m = "t_messages (fold run_round rs db) ! i"
  have "i < length (t_messages (fold run_round rs db))" "moves m ?m"
    using mv i by (auto simp: moved_def list_all2_conv_all_nth)
  then show ?thesis using none assms(7) by (intro bexI[of _ ?m]) (auto simp: moves_def list_ex_iff)
qed

text \<open>A message that is deferred once and then sent.\<close>

definition sample_round :: "send_error option \<Rightarrow> instant \<Rightarrow> round" where
  "sample_round answer t = \<lparr> rn_opts = (sample_options answer)\<lparr> op_Backoff := sample_backoff\<lparr> bo_MaxAttempts := 2 \<rparr> \<rparr>,
     rn_limit = 1, rn_random = 0, rn_now = t \<rparr>"

definition sample_rounds :: "round list" where
  "sample_rounds = [sample_round (Some (OtherError ''timeout'')) 30, sample_round None hour]"

theorem waiting_mail_settles_witness:
  "\<exists>m'\<in>set (t_messages (fold run_round sample_rounds sample_accepted)). msg_ID m' = ''x'' \<and> settled m'"
proof -
  have "queue_ok sample_accepted" by code_simp
  moreover have "timely sample_rounds sample_accepted" by code_simp
  moreover have "backlog 2 sample_accepted \<le> length sample_rounds" by code_simp
  moreover have "op_WorkerID (rn_opts r) \<noteq> '''' \<and> rn_limit r > 0 \<and> bo_MaxAttempts (op_Backoff (rn_opts r)) = 2"
    if "r \<in> set sample_rounds" for r
    using that by (auto simp: sample_rounds_def sample_round_def sample_options_def)
  moreover have "list_ex (\<lambda>m. waiting m \<and> msg_ID m = ''x'') (t_messages sample_accepted)" by code_simp
  then obtain m where "m \<in> set (t_messages sample_accepted)" "waiting m" "msg_ID m = ''x''" by (auto simp: list_ex_iff)
  ultimately show ?thesis using waiting_mail_settles[of sample_accepted 2 sample_rounds m] by auto
qed

end
