(* ===== verification/Spec2Isabelle.thy ===== *)
theory Spec2Isabelle
  imports App ApiGaps Progress
begin

text \<open>
  A verification development of \<^verbatim>\<open>smtp-auth-proxy\<close>.
\<close>

section \<open>From the client to the upstream\<close>

definition same_mail :: "Submission \<Rightarrow> string \<Rightarrow> DB \<Rightarrow> bool" where
  "same_mail sub i db =
    (Body db i = Inr (sub_Raw sub) \<and>
     (\<exists>m\<in>set (t_messages db). msg_ID m = i \<and> msg_Recipients m = sub_Recipients sub \<and>
        msg_MailboxID m = NullString (mb_ID (sub_Mailbox sub))))"

lemma same_mail_stored: "app_stored w i sub \<Longrightarrow> same_mail sub i (aw_db w)"
  by (auto simp: app_stored_def same_mail_def list_ex_iff)

lemma same_mail_kept:
  assumes "same_mail sub i db" "\<And>m. m \<in> set (t_messages db) \<Longrightarrow> msg_ID m = i \<Longrightarrow> kept db db' m"
  shows "same_mail sub i db'"
  using assms by (fastforce simp: same_mail_def kept_def same_content_def list_ex_iff)

lemma kept_present:
  assumes "queue_step orderly s s'" "queue_ok (qs_db s)" "m \<in> set (t_messages (qs_db s))"
    and "list_ex (\<lambda>r. msg_ID r = msg_ID m) (t_messages (qs_db s'))"
  shows "kept (qs_db s) (qs_db s') m"
proof -
  have del: "kept (qs_db s) (deleteMessages p (qs_db s)) m"
    if present: "list_ex (\<lambda>r. msg_ID r = msg_ID m) (t_messages (deleteMessages p (qs_db s)))" for p
  proof (rule kept_delete[OF assms(2,3)])
    obtain r where "r \<in> set (t_messages (qs_db s))" "\<not> p r" "msg_ID r = msg_ID m"
      using present by (auto simp: list_ex_iff deleteMessages_def Let_def set_delete_where)
    then show "\<not> p m" using unique_keyD[of msg_ID "t_messages (qs_db s)" r m] assms(2,3) by (auto simp: queue_ok_def)
  qed
  from assms(1) show ?thesis
  proof (cases rule: queue_step.cases)
    case (DeleteMsg j)
    show ?thesis
    proof (cases "Messages_Delete j (qs_db s)")
      case (Inl e)
      then show ?thesis using DeleteMsg assms(3) by (simp add: after_def kept_refl)
    next
      case (Inr db')
      then have "qs_db s' = deleteMessages (\<lambda>m. msg_ID m = j \<and> msg_Status m \<noteq> StatusSending) (qs_db s)"
        using DeleteMsg by (simp add: after_def) (simp add: Messages_Delete_def Let_def requireAction_Inr_iff)
      then show ?thesis using del assms(4) by simp
    qed
  next
    case (PurgeOld sb fb)
    then show ?thesis using assms(4) del by (auto simp: Purge_def)
  qed (use assms(2,3) in \<open>auto intro: kept_Enqueue kept_Claim kept_finish kept_operator kept_refl\<close>)
qed

text \<open>The queue working on, as long as message \<open>i\<close> is in it.\<close>

definition queue_holding :: "string \<Rightarrow> queue_sys \<Rightarrow> queue_sys \<Rightarrow> bool" where
  "queue_holding i = (\<lambda>s s'. queue_step False s s' \<and> list_ex (\<lambda>m. msg_ID m = i) (t_messages (qs_db s')))\<^sup>*\<^sup>*"

lemma queue_holding_mail:
  assumes "queue_holding i s s'" "queue_ok (qs_db s)" "same_mail sub i (qs_db s)"
  shows "queue_ok (qs_db s') \<and> same_mail sub i (qs_db s')"
  using assms unfolding queue_holding_def
proof (induction rule: rtranclp_induct)
  case (step y z)
  then have ok: "queue_ok (qs_db y)" and mail: "same_mail sub i (qs_db y)" by auto
  have "same_mail sub i (qs_db z)"
    using kept_present[OF _ ok] step(2) by (intro same_mail_kept[OF mail]) blast
  then show ?case using queue_step_ok ok step(2) by blast
qed simp

text \<open>C1: End to end.  Take any client on any connection, over the real account directory and queue; any
  submission it was told is queued; and any later course of the queue (claims, retries, crashes, other
  submissions, operators and housekeeping) as long as the message is not removed from it.  Whatever a
  delivery of this message then hands to an upstream is, byte for byte, the message the session accepted,
  for exactly its recipients and through exactly the mailbox the sender policy chose; that mailbox belongs
  to an account that was enabled and authenticated from the client's address, and the policy allows the
  From address.\<close>

theorem end_to_end:
  assumes "session_run (Authenticate ae) (app_Submit ae) ev sv remote tls w (s, m, w', calls)" "world_ok w"
    and "SubmitCall sub (Some i) \<in> set calls" "mb_ID (sub_Mailbox sub) \<noteq> ''''"
    and "qs_db q = aw_db w'" "queue_holding i q q'" "row \<in> set (t_messages (qs_db q'))" "msg_ID row = i"
    and "(n, p) \<in> set (dl_sends (deliver opts sh acq (db_reads (qs_db q')) rnd now row db))"
  shows "tm_Raw p = sub_Raw sub \<and> tm_Recipients p = sub_Recipients sub \<and> mb_ID (tm_Mailbox p) = mb_ID (sub_Mailbox sub) \<and>
    mb_Enabled (tm_Mailbox p) \<and> authorised ev sub \<and>
    (\<exists>username. app_granted ae username (remoteIP (ev_parse_ip ev) remote) (sub_Identity sub))"
proof -
  note acc = session_accepted[OF assms(1-3)]
  have q: "queue_ok (qs_db q')" "same_mail sub i (qs_db q')"
    using queue_holding_mail[OF assms(6)] acc same_mail_stored assms(5) by (auto simp: world_ok_def)
  then obtain r where r: "r \<in> set (t_messages (qs_db q'))" "msg_ID r = i" "msg_Recipients r = sub_Recipients sub"
    "msg_MailboxID r = Some (mb_ID (sub_Mailbox sub))"
    using assms(4) by (auto simp: same_mail_def NullString_def)
  have "row = r" using unique_keyD[of msg_ID "t_messages (qs_db q')" row r] q(1) assms(7,8) r(1,2) by (auto simp: queue_ok_def)
  then show ?thesis using deliver_sends_stored[OF assms(9)] q(2) r assms(8) acc by (auto simp: same_mail_def)
qed

theorem end_to_end_witness:
  "\<exists>i w row p. app_Submit sample_app_env sample_sub sample_world_used = (Inr i, w) \<and>
     (''smtp'', p) \<in> set (dl_sends (deliver (sample_options None) (\<lambda>_. []) (\<lambda>_ _. True) (db_reads (aw_db w)) 0 200 row (aw_db w))) \<and>
     tm_Raw p = sub_Raw sample_sub \<and> tm_Recipients p = sub_Recipients sample_sub"
proof -
  obtain calls s m i w where run: "session_run (Authenticate sample_app_env) (app_Submit sample_app_env) sample_env sample_server
      sample_peer True (sample_world 4) (s, m, w, calls)"
    and c: "SubmitCall sample_sub (Some i) \<in> set calls" and sub: "app_Submit sample_app_env sample_sub sample_world_used = (Inr i, w)"
    by (rule sample_app_run)
  have mail: "same_mail sample_sub i (aw_db w)"
    using session_accepted[OF run sample_world_ok c] same_mail_stored by blast
  then obtain row where row: "row \<in> set (t_messages (aw_db w))" "msg_ID row = i" "msg_MailboxID row = Some ''m1''"
    "Body (aw_db w) i = Inr (sub_Raw sample_sub)"
    by (auto simp: same_mail_def sample_sub_parts sample_mailbox_def NullString_def)
  have tabs: "t_mailboxes (aw_db w) = [sample_mailbox]" "t_credentials (aw_db w) = t_credentials sample_app_db"
    using sub by (auto simp: app_Submit_def Enqueue_def enqueueTx_def Let_def sample_world_used_def TouchLastUsed_def sample_app_db_def
        split: if_splits)
  obtain p where p: "prepare (db_reads (aw_db w)) row = Inr p" "mb_Transport (tm_Mailbox p) = TransportSMTP"
    using row tabs by (simp add: prepare_def db_reads_def Mailboxes_Get_def Credentials_Get_def select_one_def sample_mailbox_def
        sample_app_db_def)
  then have send: "(''smtp'', p) \<in> set (dl_sends (deliver (sample_options None) (\<lambda>_. []) (\<lambda>_ _. True) (db_reads (aw_db w)) 0 200 row (aw_db w)))"
    by (simp add: deliver_def Let_def sample_options_def sample_backend_def)
  let ?q = "\<lparr> qs_db = aw_db w, qs_now = 200, qs_inflight = [] \<rparr>"
  have "queue_holding i ?q ?q" by (simp add: queue_holding_def)
  moreover have "mb_ID (sub_Mailbox sample_sub) \<noteq> ''''" by (simp add: sample_sub_parts sample_mailbox_def)
  ultimately show ?thesis
    using end_to_end[OF run sample_world_ok c, of ?q ?q row "''smtp''" p] send row sub by (metis queue_sys.select_convs(1))
qed

end
